theory Spec2Isabelle
  imports Complex_Main "HOL-Library.Log_Nat" "HOL-Library.Multiset"
begin

section \<open>Wallet analysis and staking recommendation engine\<close>

text \<open>
  A shallow embedding of the wallet analyzer (classes \<open>Cache\<close>,
  \<open>InternalTokenBalanceProvider\<close> and \<open>WalletAnalyzer\<close>).

  Conventions of the embedding.
  \<^item> A decimal string (a balance produced by \<open>formatUnits\<close>, a catalog minimum
    amount) is represented by the rational it denotes. A JavaScript \<open>number\<close> is an
    exact rational (\<open>rat\<close>) wherever the source only compares it with a threshold,
    sums native balances or scales an amount. The concentration risk of
    \<open>analyzeTokenHoldings\<close>, whose value depends on the rounding, is computed in IEEE 754
    double precision: every \<open>parseFloat\<close>, addition, division and multiplication of
    that computation is rounded to the nearest double (\<open>toDouble\<close>). Doubles of
    magnitude \<open>2\<^sup>1\<^sup>0\<^sup>2\<^sup>4\<close> and more (\<open>Infinity\<close> by overflow) and the sign of zero
    are outside the model; the division by a zero total is modelled with a type that has
    \<open>Infinity\<close> and \<open>NaN\<close>.
  \<^item> \<open>Date.now()\<close> is a parameter \<open>now\<close> (milliseconds) of every operation that reads
    the clock; one call of \<open>analyzeWallet\<close> reads one time. The back-off delays of the
    retry loops are not modelled.
  \<^item> A \<open>Record<string, string>\<close> object is an association list in insertion order
    (chain names are not integer-like keys).
  \<^item> The chain query service and the wallet provider are an explicit environment. A
    query answers, throws, or hangs: it does not answer within the 60 seconds that
    \<open>getTokenBalancesWithRetry\<close> gives an attempt, so that the attempt times out.
    Within one call of \<open>analyzeWallet\<close> a query has the same outcome at every attempt.
  \<^item> The parallel fan-out over chains and over tokens (\<open>Promise.all\<close>,
    \<open>Promise.allSettled\<close>) pushes its results in the order in which the queries
    complete; the environment gives every query its arrival rank.
  \<^item> Free-text fields (names, descriptions, reasoning, risk assessment) are left out
    of the records, and so are the fields of a wallet analysis that no property below
    reads (behaviour patterns, asset preferences, EVM capabilities and the constant
    fields).
\<close>

subsection \<open>TTL cache\<close>

record 'a CacheEntry =
  data :: 'a
  timestamp :: int

record 'a Cache =
  cache :: "string \<rightharpoonup> 'a CacheEntry"
  ttl :: int

definition newCache :: "int \<Rightarrow> 'a Cache" where
  "newCache t = \<lparr> cache = Map.empty, ttl = t \<rparr>"

text \<open>\<open>Cache.get\<close>: the result and the cache after the call.\<close>

definition Cache_get :: "int \<Rightarrow> string \<Rightarrow> 'a Cache \<Rightarrow> 'a option \<times> 'a Cache" where
  "Cache_get now key c =
     (case cache c key of
        None \<Rightarrow> (None, c)
      | Some item \<Rightarrow>
          if now - timestamp item > ttl c
          then (None, c\<lparr> cache := (cache c)(key := None) \<rparr>)
          else (Some (data item), c))"

definition Cache_set :: "int \<Rightarrow> string \<Rightarrow> 'a \<Rightarrow> 'a Cache \<Rightarrow> 'a Cache" where
  "Cache_set now key d c =
     c\<lparr> cache := (cache c)(key \<mapsto> \<lparr> data = d, timestamp = now \<rparr>) \<rparr>"

subsection \<open>Data model\<close>

datatype StakingType = LIQUID | LOCKED | RESTAKING | YIELD_FARMING

text \<open>The literal type \<open>"LOW" | "MEDIUM" | "HIGH"\<close> (risk levels and priorities).\<close>

datatype Level = LOW | MEDIUM | HIGH

datatype RiskTolerance = CONSERVATIVE | MODERATE | AGGRESSIVE | DEGENERATE | UNKNOWN

text \<open>
  The value of a floating-point expression that may divide by zero: a finite number,
  \<open>Infinity\<close> or \<open>NaN\<close>.
\<close>

datatype jsnum = Finite rat | PosInfinity | NaN

text \<open>
  IEEE 754 double precision. \<open>ilog2 x\<close> is the binary exponent of a positive number,
  \<open>\<lfloor>log\<^sub>2 x\<rfloor>\<close>. \<open>toDouble x\<close> is the double nearest to \<open>x\<close>: the significand has
  53 bits, a tie goes to the even significand, and below \<open>2\<^sup>-\<^sup>1\<^sup>0\<^sup>2\<^sup>2\<close> the spacing of
  the doubles stays \<open>2\<^sup>-\<^sup>1\<^sup>0\<^sup>7\<^sup>4\<close> (gradual underflow). \<open>parseFloat\<close> of a decimal
  string is the double nearest to the number it denotes.
\<close>

definition ilog2 :: "rat \<Rightarrow> int" where
  "ilog2 x =
    (let d = bitlen (fst (quotient_of x)) - bitlen (snd (quotient_of x))
     in if 2 powi d \<le> x then d else d - 1)"

definition roundTiesToEven :: "rat \<Rightarrow> int" where
  "roundTiesToEven q =
    (let n = \<lfloor>q\<rfloor>; r = q - of_int n
     in if r < 1/2 then n else if 1/2 < r then n + 1 else if even n then n else n + 1)"

definition toDouble :: "rat \<Rightarrow> rat" where
  "toDouble x =
    (if x = 0 then 0
     else let e = max (ilog2 \<bar>x\<bar> - 52) (- 1074)
          in sgn x * of_int (roundTiesToEven (\<bar>x\<bar> / 2 powi e)) * 2 powi e)"

definition parseFloat :: "rat \<Rightarrow> rat" where
  "parseFloat x = toDouble x"

record StakingOption =
  protocol :: string
  optType :: StakingType
  expectedApr :: rat
  minAmount :: rat
  lockPeriod :: "nat option"
  riskLevel :: Level
  optChainName :: string

record TokenHolding =
  symbol :: string
  address :: string
  balance :: rat
  decimals :: nat
  chainName :: string
  isStakeable :: bool
  stakingOptions :: "StakingOption list"
  isTestnet :: bool

record TokenBalanceData =
  tbAddress :: string
  tbChainName :: string
  nativeBalance :: rat
  tokenHoldings :: "TokenHolding list"
  tbIsTestnet :: bool

record StakingRecommendation =
  recommendedAmount :: rat
  token :: string
  options :: "StakingOption list"
  expectedReturn :: rat
  priority :: Level
  recIsTestnet :: bool

record StakingStrategy =
  recommendedAllocation :: rat
  preferredProtocols :: "string list"
  stRiskTolerance :: RiskTolerance
  liquidityBuffer :: rat
  stakingHorizon :: nat
  diversificationGoal :: nat

record TokenAnalysis =
  totalTokens :: nat
  majorHoldings :: "TokenHolding list"
  stablecoins :: "TokenHolding list"
  defiTokens :: "TokenHolding list"
  governanceTokens :: "TokenHolding list"
  stakeableAssets :: "TokenHolding list"
  concentrationRisk :: jsnum
  diversificationLevel :: Level

record WalletRiskProfile =
  riskScore :: int
  riskTolerance :: RiskTolerance
  maxSinglePosition :: rat
  rpDiversificationLevel :: Level
  lockPeriodTolerance :: nat
  rpConcentrationRisk :: jsnum
  liquidityRisk :: rat
  stakingRiskTolerance :: Level

record LiquidityProfile =
  liquidityRatio :: rat
  withdrawalFrequency :: nat
  emergencyBuffer :: rat
  preferredLockPeriods :: "nat list"
  liquidAssets :: "TokenHolding list"
  stakedAssets :: "TokenHolding list"
  stakingCapacity :: rat

record WalletAnalysis =
  waAddress :: string
  totalBalance :: rat
  waTokenHoldings :: "TokenHolding list"
  nativeBalances :: "(string \<times> rat) list"
  diversificationScore :: nat
  stakingRecommendations :: "StakingRecommendation list"
  currentStakingPositions :: "TokenHolding list"
  tokenAnalysis :: TokenAnalysis
  riskProfile :: WalletRiskProfile
  stakingStrategy :: StakingStrategy
  liquidityNeeds :: LiquidityProfile

subsection \<open>Chain registry and token catalogs\<close>

record ChainConfig =
  chainId :: nat
  displayName :: string
  cfgIsTestnet :: bool
  nativeSymbol :: string

definition CHAIN_CONFIG :: "(string \<times> ChainConfig) list" where
  "CHAIN_CONFIG =
    [(''mainnet'', \<lparr> chainId = 1, displayName = ''Ethereum'', cfgIsTestnet = False, nativeSymbol = ''ETH'' \<rparr>),
     (''base'', \<lparr> chainId = 8453, displayName = ''Base'', cfgIsTestnet = False, nativeSymbol = ''ETH'' \<rparr>),
     (''arbitrum'', \<lparr> chainId = 42161, displayName = ''Arbitrum One'', cfgIsTestnet = False, nativeSymbol = ''ETH'' \<rparr>),
     (''polygon'', \<lparr> chainId = 137, displayName = ''Polygon'', cfgIsTestnet = False, nativeSymbol = ''MATIC'' \<rparr>),
     (''sepolia'', \<lparr> chainId = 11155111, displayName = ''Sepolia'', cfgIsTestnet = True, nativeSymbol = ''ETH'' \<rparr>),
     (''holesky'', \<lparr> chainId = 17000, displayName = ''Holesky'', cfgIsTestnet = True, nativeSymbol = ''ETH'' \<rparr>),
     (''baseSepolia'', \<lparr> chainId = 84532, displayName = ''Base Sepolia'', cfgIsTestnet = True, nativeSymbol = ''ETH'' \<rparr>),
     (''arbitrumSepolia'', \<lparr> chainId = 421614, displayName = ''Arbitrum Sepolia'', cfgIsTestnet = True, nativeSymbol = ''ETH'' \<rparr>),
     (''polygonAmoy'', \<lparr> chainId = 80002, displayName = ''Polygon Amoy'', cfgIsTestnet = True, nativeSymbol = ''MATIC'' \<rparr>),
     (''optimismSepolia'', \<lparr> chainId = 11155420, displayName = ''Optimism Sepolia'', cfgIsTestnet = True, nativeSymbol = ''ETH'' \<rparr>)]"

definition isTestnetChain :: "string \<Rightarrow> bool" where
  "isTestnetChain c = (case map_of CHAIN_CONFIG c of Some cfg \<Rightarrow> cfgIsTestnet cfg | None \<Rightarrow> False)"

definition getTestnetChains :: "string list" where
  "getTestnetChains = map fst (filter (\<lambda>(c, cfg). cfgIsTestnet cfg) CHAIN_CONFIG)"

definition getMainnetChains :: "string list" where
  "getMainnetChains = map fst (filter (\<lambda>(c, cfg). \<not> cfgIsTestnet cfg) CHAIN_CONFIG)"

record TokenConfig =
  tcAddress :: string
  tcSymbol :: string
  tcDecimals :: nat
  tcIsStakeable :: bool
  tcIsTestnet :: bool
  tcStakingOptions :: "StakingOption list"

abbreviation mkOption ::
  "string \<Rightarrow> StakingType \<Rightarrow> rat \<Rightarrow> rat \<Rightarrow> nat option \<Rightarrow> Level \<Rightarrow> string \<Rightarrow> StakingOption" where
  "mkOption p t apr m l r c \<equiv>
     \<lparr> protocol = p, optType = t, expectedApr = apr, minAmount = m, lockPeriod = l,
       riskLevel = r, optChainName = c \<rparr>"

abbreviation mkToken ::
  "string \<Rightarrow> string \<Rightarrow> nat \<Rightarrow> bool \<Rightarrow> bool \<Rightarrow> StakingOption list \<Rightarrow> TokenConfig" where
  "mkToken a s d st tn os \<equiv>
     \<lparr> tcAddress = a, tcSymbol = s, tcDecimals = d, tcIsStakeable = st, tcIsTestnet = tn,
       tcStakingOptions = os \<rparr>"

definition TESTNET_TOKEN_DATABASE :: "(string \<times> TokenConfig list) list" where
  "TESTNET_TOKEN_DATABASE =
    [(''sepolia'',
       [mkToken ''0x1f9840a85d5af5bf1d1762f925bdaddc4201f984'' ''UNI'' 18 True True
          [mkOption ''Testnet Uniswap'' YIELD_FARMING 8 1 None MEDIUM ''sepolia''],
        mkToken ''0x779877A7B0D9E8603169DdbD7836e478b4624789'' ''LINK'' 18 True True
          [mkOption ''Testnet Aave'' LIQUID 5 1 None LOW ''sepolia'',
           mkOption ''Testnet Compound'' LIQUID (42/10) (1/2) None LOW ''sepolia''],
        mkToken ''0x6f14C02Fc1F78322cFd7d707ab90f18baD3B54f5'' ''USDC'' 6 True True
          [mkOption ''Testnet Compound'' LIQUID (35/10) 1 None LOW ''sepolia'',
           mkOption ''Testnet Aave'' LIQUID 4 1 None LOW ''sepolia''],
        mkToken ''0xfFf9976782d46CC05630D1f6eBAb18b2324d6B14'' ''WETH'' 18 True True
          [mkOption ''Testnet Lido'' LIQUID (25/10) (1/1000) None LOW ''sepolia'',
           mkOption ''Testnet Uniswap'' YIELD_FARMING 6 (1/100) None MEDIUM ''sepolia''],
        mkToken ''0x25a233c2C94b62C3532a0BCA0186cfEfb6908D0A'' ''DAI'' 18 True True
          [mkOption ''Testnet MakerDAO'' LIQUID 4 1 None LOW ''sepolia'',
           mkOption ''Testnet Aave'' LIQUID (38/10) 1 None LOW ''sepolia'']]),
     (''holesky'',
       [mkToken ''0x94373a4919B3240D86eA41593D5eBa789FEF3848'' ''WETH'' 18 True True
          [mkOption ''Holesky Lido'' LIQUID (28/10) (1/1000) None LOW ''holesky'']]),
     (''baseSepolia'',
       [mkToken ''0x036CbD53842c5426634e7929541eC2318f3dCF7e'' ''USDC'' 6 True True
          [mkOption ''Base Sepolia Moonwell'' LIQUID (32/10) 1 None MEDIUM ''baseSepolia'']]),
     (''arbitrumSepolia'',
       [mkToken ''0x75faf114eafb1BDbe2F0316DF893fd58CE46AA4d'' ''USDC'' 6 True True
          [mkOption ''Arbitrum Sepolia Radiant'' LIQUID (38/10) 1 None MEDIUM ''arbitrumSepolia'']]),
     (''polygonAmoy'',
       [mkToken ''0x360ad4f9a9A8EFe9A8DCB5f461c4Cc1047E1Dcf9'' ''WMATIC'' 18 True True
          [mkOption ''Amoy Staking'' LIQUID 6 1 None MEDIUM ''polygonAmoy'']]),
     (''optimismSepolia'',
       [mkToken ''0x5fd84259d66Cd46123540766Be93DFE6D43130D7'' ''USDC'' 6 True True
          [mkOption ''Optimism Sepolia Aave'' LIQUID (35/10) 1 None LOW ''optimismSepolia'']])]"

definition TOKEN_DATABASE :: "(string \<times> TokenConfig list) list" where
  "TOKEN_DATABASE =
    [(''mainnet'',
       [mkToken ''0xA0b86a33E6Db485E0f65b2f8b4b92c0e7b9c2c1e'' ''USDC'' 6 True False
          [mkOption ''Aave'' LIQUID (45/10) 100 None LOW ''mainnet'',
           mkOption ''Compound'' LIQUID (38/10) 50 None LOW ''mainnet''],
        mkToken ''0xdAC17F958D2ee523a2206206994597C13D831ec7'' ''USDT'' 6 True False
          [mkOption ''Aave'' LIQUID (42/10) 100 None LOW ''mainnet''],
        mkToken ''0x6B175474E89094C44Da98b954EedeAC495271d0F'' ''DAI'' 18 True False
          [mkOption ''MakerDAO DSR'' LIQUID 5 1 None LOW ''mainnet'',
           mkOption ''Aave'' LIQUID (43/10) 50 None LOW ''mainnet''],
        mkToken ''0x1f9840a85d5af5bf1d1762f925bdaddc4201f984'' ''UNI'' 18 False False [],
        mkToken ''0xae7ab96520de3a18e5e111b5eaab095312d7fe84'' ''stETH'' 18 False False []]),
     (''base'',
       [mkToken ''0x833589fCD6eDb6E08f4c7C32D4f71b54bdA02913'' ''USDC'' 6 True False
          [mkOption ''Moonwell'' LIQUID (35/10) 50 None MEDIUM ''base''],
        mkToken ''0x4200000000000000000000000000000000000006'' ''WETH'' 18 True False
          [mkOption ''Moonwell'' LIQUID (28/10) (1/10) None MEDIUM ''base'']]),
     (''arbitrum'',
       [mkToken ''0xaf88d065e77c8cC2239327C5EDb3A432268e5831'' ''USDC'' 6 True False
          [mkOption ''Radiant'' LIQUID 4 50 None MEDIUM ''arbitrum''],
        mkToken ''0x82aF49447D8a07e3bd95BD0d56f35241523fBab1'' ''WETH'' 18 True False
          [mkOption ''Radiant'' LIQUID (25/10) (1/10) None MEDIUM ''arbitrum'']])]"

definition TESTNET_ETH_STAKING_OPTIONS :: "StakingOption list" where
  "TESTNET_ETH_STAKING_OPTIONS =
    [mkOption ''Testnet Lido'' LIQUID (25/10) (1/1000) None LOW ''sepolia'',
     mkOption ''Testnet Rocket Pool'' LIQUID (23/10) (1/1000) None LOW ''sepolia'',
     mkOption ''Sepolia Beacon Chain'' LOCKED 3 (1/10) (Some 1) MEDIUM ''sepolia'',
     mkOption ''Testnet Frax'' LIQUID (28/10) (1/1000) None MEDIUM ''sepolia'']"

definition ETH_STAKING_OPTIONS :: "StakingOption list" where
  "ETH_STAKING_OPTIONS =
    [mkOption ''Lido'' LIQUID (32/10) (1/100) None LOW ''mainnet'',
     mkOption ''Rocket Pool'' LIQUID (31/10) (1/100) None LOW ''mainnet'',
     mkOption ''Coinbase Wrapped Staked ETH'' LIQUID 3 (1/1000) None LOW ''mainnet'',
     mkOption ''EigenLayer'' RESTAKING (45/10) 32 (Some 21) HIGH ''mainnet'']"

subsection \<open>Portfolio analyzer and risk profiler\<close>

text \<open>The comparison \<open>x > c\<close> of JavaScript: false on \<open>NaN\<close>.\<close>

fun jsGreater :: "jsnum \<Rightarrow> rat \<Rightarrow> bool" where
  "jsGreater (Finite x) c = (x > c)"
| "jsGreater PosInfinity c = True"
| "jsGreater NaN c = False"

definition analyzeTokenHoldings :: "TokenHolding list \<Rightarrow> TokenAnalysis" where
  "analyzeTokenHoldings hs =
    (let totalValue = foldl (\<lambda>sum t. toDouble (sum + parseFloat (balance t))) 0 hs;
         cr = (if totalValue \<noteq> 0
               then Finite (foldl (\<lambda>risk t.
                                     let share = toDouble (parseFloat (balance t) / totalValue)
                                     in toDouble (risk + toDouble (share * share))) 0 hs)
               else if hs = [] then Finite 0
               else if list_ex (\<lambda>t. parseFloat (balance t) = 0) hs then NaN
               else PosInfinity)
     in \<lparr> totalTokens = length hs,
          majorHoldings = take 5 (sort_key (\<lambda>t. - parseFloat (balance t)) hs),
          stablecoins = filter (\<lambda>t. symbol t \<in> set [''USDC'', ''USDT'', ''DAI'', ''BUSD'', ''FRAX'']) hs,
          defiTokens = filter (\<lambda>t. symbol t \<in> set [''UNI'', ''SUSHI'', ''AAVE'', ''COMP'', ''CRV'', ''YFI'', ''stETH'']) hs,
          governanceTokens = filter (\<lambda>t. symbol t \<in> set [''UNI'', ''COMP'', ''AAVE'', ''YFI'', ''MKR'']) hs,
          stakeableAssets = filter isStakeable hs,
          concentrationRisk = cr,
          diversificationLevel =
            (if jsGreater cr (1/2) then LOW else if jsGreater cr (1/4) then MEDIUM else HIGH) \<rparr>)"

definition tokenType :: "TokenHolding \<Rightarrow> string" where
  "tokenType t =
    (if symbol t \<in> set [''USDC'', ''USDT'', ''DAI''] then ''stablecoin''
     else if symbol t \<in> set [''UNI'', ''SUSHI'', ''AAVE''] then ''defi''
     else ''other'')"

definition calculateDiversificationScore ::
  "TokenHolding list \<Rightarrow> (string \<times> rat) list \<Rightarrow> nat" where
  "calculateDiversificationScore hs nb =
    (let totalAssets = length hs + length nb;
         chainCount = length nb;
         score = min (totalAssets * 5) 50 + min (chainCount * 10) 30
                 + length (remdups (map tokenType hs)) * 5
     in min score 100)"

definition mapRiskScoreToTolerance :: "int \<Rightarrow> RiskTolerance" where
  "mapRiskScoreToTolerance score =
    (if score < 25 then CONSERVATIVE
     else if score < 50 then MODERATE
     else if score < 75 then AGGRESSIVE
     else DEGENERATE)"

definition getMaxPositionRatio :: "int \<Rightarrow> rat" where
  "getMaxPositionRatio score =
    (if score < 25 then 1/10 else if score < 50 then 2/10 else if score < 75 then 4/10 else 6/10)"

definition calculateLockPeriodTolerance :: "int \<Rightarrow> nat" where
  "calculateLockPeriodTolerance score =
    (if score < 25 then 7 else if score < 50 then 30 else if score < 75 then 90 else 365)"

definition calculateLiquidityRisk :: "TokenHolding list \<Rightarrow> rat" where
  "calculateLiquidityRisk hs =
    (let liquidTokens = length (filter (\<lambda>t. symbol t \<in> set [''USDC'', ''USDT'', ''DAI'', ''WETH'', ''UNI'']) hs);
         totalTokens = length hs
     in if totalTokens > 0 then 1 - of_nat liquidTokens / of_nat totalTokens else 0)"

definition assessComprehensiveRisk ::
  "rat \<Rightarrow> TokenHolding list \<Rightarrow> TokenAnalysis \<Rightarrow> WalletRiskProfile" where
  "assessComprehensiveRisk nativeBal hs ta =
    (let size = nativeBal + of_nat (length hs);
         r1 = (if size > 100 then 50 + 15
               else if size > 10 then 50 + 10
               else if size < 1 then 50 - 15
               else 50);
         r2 = r1 + min (int (length hs) * 2) 20;
         stablecoinRatio = (of_nat (length (stablecoins ta)) :: rat) / of_nat (max (length hs) 1);
         r3 = (if stablecoinRatio > 1/2 then r2 - 10
               else if stablecoinRatio < 1/10 then r2 + 10
               else r2);
         r4 = (if jsGreater (concentrationRisk ta) (1/2) then r3 + 15 else r3);
         score = max 0 (min 100 r4)
     in \<lparr> riskScore = score,
          riskTolerance = mapRiskScoreToTolerance score,
          maxSinglePosition = nativeBal * getMaxPositionRatio score,
          rpDiversificationLevel = diversificationLevel ta,
          lockPeriodTolerance = calculateLockPeriodTolerance score,
          rpConcentrationRisk = concentrationRisk ta,
          liquidityRisk = calculateLiquidityRisk hs,
          stakingRiskTolerance = (if score < 30 then LOW else if score > 70 then HIGH else MEDIUM) \<rparr>)"

definition assessLiquidityProfile :: "TokenHolding list \<Rightarrow> rat \<Rightarrow> LiquidityProfile" where
  "assessLiquidityProfile hs nativeBal =
    (let liquidTokens = filter (\<lambda>t. symbol t \<in> set [''USDC'', ''USDT'', ''DAI'', ''WETH''] \<and> balance t > 0) hs;
         stakedTokens = filter (\<lambda>t. symbol t \<in> set [''stETH'', ''rETH'', ''cbETH''] \<and> balance t > 0) hs;
         totalValue = nativeBal + foldl (\<lambda>sum t. sum + balance t) 0 hs;
         ratio = (of_nat (length liquidTokens) :: rat) / of_nat (max (length hs) 1)
     in \<lparr> liquidityRatio = ratio,
          withdrawalFrequency = (if ratio > 1/2 then 4 else 1),
          emergencyBuffer = totalValue * (1/10),
          preferredLockPeriods = (if ratio > 3/10 then [0, 7, 30] else [30, 90, 365]),
          liquidAssets = liquidTokens,
          stakedAssets = stakedTokens,
          stakingCapacity = max 0 (totalValue * (1 - max ratio (2/10))) \<rparr>)"

subsection \<open>Strategy and recommendation generator\<close>

text \<open>The tier table of \<open>generateStakingStrategy\<close>: allocation, protocols, horizon, goal.\<close>

definition tierStrategy ::
  "RiskTolerance \<Rightarrow> rat \<Rightarrow> rat \<times> string list \<times> nat \<times> nat" where
  "tierStrategy tol ratio =
    (case tol of
       CONSERVATIVE \<Rightarrow> (min 40 ((1 - ratio) * 60), [''Lido'', ''Coinbase Wrapped Staked ETH''], 180, 1)
     | MODERATE \<Rightarrow> (min 60 ((1 - ratio) * 70), [''Lido'', ''Rocket Pool'', ''Aave''], 365, 2)
     | AGGRESSIVE \<Rightarrow> (min 80 ((1 - ratio) * 85), [''Lido'', ''Rocket Pool'', ''EigenLayer'', ''Aave''], 730, 3)
     | DEGENERATE \<Rightarrow> (min 90 ((1 - ratio) * 95), [''EigenLayer'', ''Rocket Pool'', ''Radiant'', ''Moonwell''], 1095, 4)
     | UNKNOWN \<Rightarrow> (30, [''Lido''], 365, 2))"

text \<open>\<open>generateStakingStrategy\<close> of the analyzer with testnet support.\<close>

definition generateStakingStrategy ::
  "WalletRiskProfile \<Rightarrow> LiquidityProfile \<Rightarrow> rat \<Rightarrow> bool \<Rightarrow> StakingStrategy" where
  "generateStakingStrategy rp liq totalBal isTest =
    (let (alloc, protos, horizon, goal) =
           (if isTest \<and> totalBal > 1/100 then (40, [], 90, 1)
            else if \<not> isTest then tierStrategy (riskTolerance rp) (liquidityRatio liq)
            else (0, [], 365, 2))
     in \<lparr> recommendedAllocation = alloc,
          preferredProtocols = protos,
          stRiskTolerance = riskTolerance rp,
          liquidityBuffer = liquidityRatio liq * 100,
          stakingHorizon = horizon,
          diversificationGoal = goal \<rparr>)"

text \<open>
  \<open>generateStakingStrategy\<close> of the earlier analyzer (\<open>src/wallet-analyzer.ts\<close>, without
  testnet support): the tier table followed by the portfolio-size adjustment.
\<close>

definition generateStakingStrategy_v1 ::
  "WalletRiskProfile \<Rightarrow> LiquidityProfile \<Rightarrow> rat \<Rightarrow> StakingStrategy" where
  "generateStakingStrategy_v1 rp liq totalBal =
    (let (base, protos, horizon, goal) = tierStrategy (riskTolerance rp) (liquidityRatio liq);
         alloc = (if totalBal < 1 then max (base - 20) 10
                  else if totalBal > 50 then min (base + 10) 90
                  else base)
     in \<lparr> recommendedAllocation = alloc,
          preferredProtocols = protos,
          stRiskTolerance = riskTolerance rp,
          liquidityBuffer = liquidityRatio liq * 100,
          stakingHorizon = horizon,
          diversificationGoal = goal \<rparr>)"

text \<open>
  \<open>Number.prototype.toFixed(6)\<close>, as the number its output denotes: the nearest
  multiple of \<open>10\<^sup>-\<^sup>6\<close>, the larger one on a tie (the sign is treated apart).
\<close>

definition toFixed6 :: "rat \<Rightarrow> rat" where
  "toFixed6 x =
    (if x < 0 then - (of_int \<lfloor>- x * 1000000 + 1/2\<rfloor> / 1000000)
     else of_int \<lfloor>x * 1000000 + 1/2\<rfloor> / 1000000)"

definition riskCompatible :: "RiskTolerance \<Rightarrow> StakingOption \<Rightarrow> bool" where
  "riskCompatible tol opt =
    (if tol = CONSERVATIVE then riskLevel opt = LOW
     else if tol = MODERATE then riskLevel opt \<noteq> HIGH
     else True)"

definition priorityOrder :: "Level \<Rightarrow> int" where
  "priorityOrder p = (case p of HIGH \<Rightarrow> 3 | MEDIUM \<Rightarrow> 2 | LOW \<Rightarrow> 1)"

text \<open>The body of the loop over \<open>Object.entries(nativeBalances)\<close>.\<close>

definition ethRecommendation ::
  "bool \<Rightarrow> StakingStrategy \<Rightarrow> string \<times> rat \<Rightarrow> StakingRecommendation option" where
  "ethRecommendation testnetOnly strategy entry =
    (let chain = fst entry;
         ethBalance = snd entry;
         isTest = isTestnetChain chain
     in if testnetOnly \<and> \<not> isTest then None
        else if \<not> testnetOnly \<and> isTest then None
        else if ethBalance > (if isTest then 1/100 else 1/10) then
          (let amount = (if isTest then ethBalance * (4/10)
                         else ethBalance * (recommendedAllocation strategy / 100))
           in if amount \<ge> (if isTest then 5/1000 else 5/100) then
                (let ethOptions = filter (riskCompatible (stRiskTolerance strategy))
                       (if isTest then TESTNET_ETH_STAKING_OPTIONS else ETH_STAKING_OPTIONS)
                 in if ethOptions \<noteq> [] then
                      Some \<lparr> recommendedAmount = toFixed6 amount,
                             token = ''ETH'',
                             options = ethOptions,
                             expectedReturn =
                               toFixed6 (amount *
                                 (if expectedApr (hd ethOptions) = 0 then 32/10
                                  else expectedApr (hd ethOptions)) / 100),
                             priority = (if ethBalance > 5 then HIGH
                                         else if ethBalance > 1 then MEDIUM else LOW),
                             recIsTestnet = isTest \<rparr>
                    else None)
              else None)
        else None)"

text \<open>The filter that selects \<open>stakeableTokens\<close>.\<close>

definition stakeableToken :: "bool \<Rightarrow> TokenHolding \<Rightarrow> bool" where
  "stakeableToken testnetOnly t =
    (let hasBalance = balance t > 0;
         stakeable = (isStakeable t \<and> stakingOptions t \<noteq> [])
     in if testnetOnly then isTestnet t \<and> hasBalance \<and> stakeable
        else hasBalance \<and> stakeable \<and> \<not> isTestnet t)"

text \<open>The body of the loop over \<open>stakeableTokens\<close>.\<close>

definition tokenRecommendation ::
  "StakingStrategy \<Rightarrow> TokenHolding \<Rightarrow> StakingRecommendation option" where
  "tokenRecommendation strategy t =
    (let bal = balance t;
         minStakeAmount = (case stakingOptions t of [] \<Rightarrow> 0 | opt # _ \<Rightarrow> minAmount opt);
         minRecommendAmount = (if isTestnet t then 1 else 50)
     in if bal > max minStakeAmount (1/10) \<and> bal \<ge> minRecommendAmount then
          (let amount = bal * (7/10);
               suitableOptions = filter (riskCompatible (stRiskTolerance strategy)) (stakingOptions t)
           in if suitableOptions \<noteq> [] then
                Some \<lparr> recommendedAmount = toFixed6 amount,
                       token = symbol t,
                       options = suitableOptions,
                       expectedReturn = toFixed6 (amount * (expectedApr (hd suitableOptions) / 100)),
                       priority = (if bal > 1000 then HIGH else if bal > 100 then MEDIUM else LOW),
                       recIsTestnet = isTestnet t \<rparr>
              else None)
        else None)"

text \<open>
  \<open>generateRealStakingRecommendations\<close>. The risk profile only feeds the reasoning
  text, which the records leave out.
\<close>

definition generateRealStakingRecommendations ::
  "(string \<times> rat) list \<Rightarrow> TokenHolding list \<Rightarrow> StakingStrategy \<Rightarrow> WalletRiskProfile \<Rightarrow> bool
     \<Rightarrow> StakingRecommendation list" where
  "generateRealStakingRecommendations nb hs strategy rp testnetOnly =
    sort_key (\<lambda>r. - priorityOrder (priority r))
      (List.map_filter (ethRecommendation testnetOnly strategy) nb
       @ List.map_filter (tokenRecommendation strategy) (filter (stakeableToken testnetOnly) hs))"

subsection \<open>Balance aggregator\<close>

text \<open>
  The collaborators. A client is asked \<open>getBalance\<close> (native balance of an address, in
  wei) and \<open>readContract\<close> (\<open>balanceOf\<close> of a token contract for an owner). Such a
  query answers with an amount, throws, or hangs (no answer within the 60 seconds of
  the attempt). The wallet provider lists its chains (\<open>Inl\<close>: the call throws;
  \<open>Inr None\<close>: it returns nothing) and hands out clients (\<open>None\<close>: throws); both
  calls are synchronous.
\<close>

datatype reply = Answer nat | Throws | Hangs

record Client =
  getBalance :: "string \<Rightarrow> reply"
  readContract :: "string \<Rightarrow> string \<Rightarrow> reply"

record WalletProvider =
  getSupportedChains :: "string + string list option"
  getPublicClient :: "string \<Rightarrow> Client option"

text \<open>
  The runtime: the \<open>EVM_PRIVATE_KEY\<close> setting, the EVM plugin's \<open>initWalletProvider\<close>
  (\<open>None\<close> when the plugin could not be imported; otherwise its outcome at each
  attempt), the client that \<open>createPublicClient\<close> builds over a configured chain's
  RPC endpoint, and the scheduling of the parallel queries: the arrival rank of the
  snapshot of the \<open>i\<close>-th chain of the fan-out, and for every chain the arrival rank of
  the answer for the \<open>i\<close>-th token of its catalog.
\<close>

record Env =
  evmPrivateKey :: "string option"
  initWalletProvider :: "(nat \<Rightarrow> string + WalletProvider) option"
  rpcClient :: "string \<Rightarrow> Client"
  chainArrival :: "nat \<Rightarrow> nat"
  tokenArrival :: "string \<Rightarrow> nat \<Rightarrow> nat"

datatype error =
    UnsupportedChain string
  | ProviderError string
  | TokenBalanceFetchTimeout
  | TokenBalanceFetchFailed nat error
  | EvmPluginUnavailable
  | PrivateKeyMissing
  | PrivateKeyInvalid
  | WalletProviderInitFailed nat string
  | AnalyzeWalletFailed error

definition formatUnits :: "nat \<Rightarrow> nat \<Rightarrow> rat" where
  "formatUnits v d = of_nat v / 10 ^ d"

definition createPublicClient :: "Env \<Rightarrow> string \<Rightarrow> error + Client" where
  "createPublicClient env c =
    (case map_of CHAIN_CONFIG c of
       None \<Rightarrow> Inl (UnsupportedChain c)
     | Some cfg \<Rightarrow> Inr (rpcClient env c))"

text \<open>
  The order in which parallel queries over the elements of a list complete: the
  elements sorted by the arrival rank of their index (elements of equal rank in list
  order).
\<close>

definition completionOrder :: "(nat \<Rightarrow> nat) \<Rightarrow> 'a list \<Rightarrow> 'a list" where
  "completionOrder arrival xs = map snd (sort_key (\<lambda>p. arrival (fst p)) (enumerate 0 xs))"

text \<open>
  The body of the loop over the chain's catalog tokens, once the token's query has
  settled: a query that throws is logged and gives no holding.
\<close>

definition tokenHoldingOf ::
  "Client \<Rightarrow> string \<Rightarrow> string \<Rightarrow> bool \<Rightarrow> TokenConfig \<Rightarrow> TokenHolding option" where
  "tokenHoldingOf client addr c isTest tc =
    (case readContract client (tcAddress tc) addr of
       Throws \<Rightarrow> None
     | Hangs \<Rightarrow> None
     | Answer bal \<Rightarrow>
         if bal > 0 then
           (let formattedBalance = formatUnits bal (tcDecimals tc);
                minThreshold = (if isTest then 1/100000 else 1/1000)
            in if formattedBalance > minThreshold then
                 Some \<lparr> symbol = tcSymbol tc, address = tcAddress tc, balance = formattedBalance,
                        decimals = tcDecimals tc, chainName = c,
                        isStakeable = tcIsStakeable tc,
                        stakingOptions = tcStakingOptions tc,
                        isTestnet = (tcIsTestnet tc \<or> isTest) \<rparr>
               else None)
         else None)"

definition catalogTokens :: "(string \<times> TokenConfig list) list \<Rightarrow> string \<Rightarrow> TokenConfig list" where
  "catalogTokens db c = (case map_of db c of Some ts \<Rightarrow> ts | None \<Rightarrow> [])"

text \<open>
  \<open>getTokenBalancesForChain\<close>. The result is \<open>None\<close> when the promise never settles:
  the awaited native-balance query hangs, or one of the token queries awaited by
  \<open>Promise.allSettled\<close> does. A native-balance query that throws counts as a zero
  balance. The holdings are pushed in the order in which the token queries complete.
\<close>

definition getTokenBalancesForChain ::
  "WalletProvider \<Rightarrow> Env \<Rightarrow> string \<Rightarrow> string \<Rightarrow> (error + TokenBalanceData) option" where
  "getTokenBalancesForChain wp env addr c =
    (let isTest = isTestnetChain c
     in case (case getPublicClient wp c of
                Some cl \<Rightarrow> Inr cl
              | None \<Rightarrow> createPublicClient env c) of
          Inl e \<Rightarrow> Some (Inl e)
        | Inr client \<Rightarrow>
            if getBalance client addr = Hangs then None
            else
              (let nativeWei = (case getBalance client addr of Answer b \<Rightarrow> b | _ \<Rightarrow> 0);
                   tokens = (if isTest then catalogTokens TESTNET_TOKEN_DATABASE c
                             else catalogTokens TOKEN_DATABASE c)
               in if list_ex (\<lambda>tc. readContract client (tcAddress tc) addr = Hangs) tokens
                  then None
                  else Some (Inr \<lparr> tbAddress = addr, tbChainName = c,
                                    nativeBalance = formatUnits nativeWei 18,
                                    tokenHoldings =
                                      List.map_filter (tokenHoldingOf client addr c isTest)
                                        (completionOrder (tokenArrival env c) tokens),
                                    tbIsTestnet = isTest \<rparr>)))"

text \<open>
  The fan-out of \<open>getTokenBalances\<close> over the chains, taken in the order in which
  their snapshots arrive: a chain whose snapshot throws is logged and skipped, a
  snapshot is pushed when the chain has a holding or a positive native balance or the
  request is for testnets. The result is \<open>None\<close> when \<open>Promise.all\<close> never settles,
  because the snapshot of some chain does not.
\<close>

fun collectChains ::
  "WalletProvider \<Rightarrow> Env \<Rightarrow> string \<Rightarrow> bool \<Rightarrow> string list
     \<Rightarrow> TokenBalanceData list option" where
  "collectChains wp env addr testnetOnly [] = Some []"
| "collectChains wp env addr testnetOnly (c # cs) =
    (case getTokenBalancesForChain wp env addr c of
       None \<Rightarrow> None
     | Some r \<Rightarrow>
         (case collectChains wp env addr testnetOnly cs of
            None \<Rightarrow> None
          | Some tokenBalances \<Rightarrow>
              (case r of
                 Inl e \<Rightarrow> Some tokenBalances
               | Inr chainData \<Rightarrow>
                   if tokenHoldings chainData \<noteq> [] \<or> nativeBalance chainData > 0
                      \<or> testnetOnly
                   then Some (chainData # tokenBalances)
                   else Some tokenBalances)))"

definition balancesCacheKey :: "string \<Rightarrow> bool \<Rightarrow> string" where
  "balancesCacheKey addr testnetOnly =
    addr @ ''_token_balances_'' @ (if testnetOnly then ''testnet'' else ''all'')"

definition chainsToCheck :: "WalletProvider \<Rightarrow> bool \<Rightarrow> error + string list" where
  "chainsToCheck wp testnetOnly =
    (if testnetOnly then Inr getTestnetChains
     else case getSupportedChains wp of
            Inl msg \<Rightarrow> Inl (ProviderError msg)
          | Inr None \<Rightarrow> Inr (map fst CHAIN_CONFIG)
          | Inr (Some cs) \<Rightarrow> Inr cs)"

text \<open>
  \<open>getTokenBalances\<close>: the outcome (\<open>None\<close> when the promise never settles) and the
  balance cache afterwards.
\<close>

definition getTokenBalances ::
  "WalletProvider \<Rightarrow> Env \<Rightarrow> int \<Rightarrow> string \<Rightarrow> bool \<Rightarrow> TokenBalanceData list Cache
     \<Rightarrow> (error + TokenBalanceData list) option \<times> TokenBalanceData list Cache" where
  "getTokenBalances wp env now addr testnetOnly bc =
    (case Cache_get now (balancesCacheKey addr testnetOnly) bc of
       (Some cached, bc') \<Rightarrow> (Some (Inr cached), bc')
     | (None, bc') \<Rightarrow>
         (case chainsToCheck wp testnetOnly of
            Inl e \<Rightarrow> (Some (Inl e), bc')
          | Inr cs \<Rightarrow>
              (case collectChains wp env addr testnetOnly
                      (completionOrder (chainArrival env) cs) of
                 None \<Rightarrow> (None, bc')
               | Some tokenBalances \<Rightarrow>
                   (Some (Inr tokenBalances),
                    Cache_set now (balancesCacheKey addr testnetOnly) tokenBalances bc'))))"

subsection \<open>Wallet analysis orchestrator\<close>

definition isSpace :: "char \<Rightarrow> bool" where
  "isSpace ch = (ch \<in> set [CHR '' '', CHR 0x09, CHR 0x0A, CHR 0x0B, CHR 0x0C, CHR 0x0D])"

definition trim :: "string \<Rightarrow> string" where
  "trim s = rev (dropWhile isSpace (rev (dropWhile isSpace s)))"

definition isHexDigit :: "char \<Rightarrow> bool" where
  "isHexDigit ch = (ch \<in> set ''0123456789abcdefABCDEF'')"

definition normalizePrivateKey :: "string \<Rightarrow> string option" where
  "normalizePrivateKey privateKey =
    (let trimmed = trim privateKey;
         cleanKey = (if take 2 trimmed = ''0x'' then drop 2 trimmed else trimmed)
     in if length cleanKey \<noteq> 64 then None
        else if \<not> list_all isHexDigit cleanKey then None
        else Some (''0x'' @ cleanKey))"

text \<open>
  \<open>validateEvmConfigurationStrict\<close>; writing the normalised key back with
  \<open>setSetting\<close> is not modelled.
\<close>

definition validateEvmConfigurationStrict :: "Env \<Rightarrow> error + unit" where
  "validateEvmConfigurationStrict env =
    (case evmPrivateKey env of
       None \<Rightarrow> Inl PrivateKeyMissing
     | Some k \<Rightarrow>
         if k = [] then Inl PrivateKeyMissing
         else (case normalizePrivateKey k of
                 None \<Rightarrow> Inl PrivateKeyInvalid
               | Some fixedKey \<Rightarrow> Inr ()))"

text \<open>
  The retry loops, from attempt \<open>attempt\<close> on, with the last error seen. The
  back-off delays are not modelled. In \<open>getTokenBalancesWithRetry\<close> every attempt
  races the fetch against a 60 second timer: a fetch that does not settle makes the
  attempt fail with the timeout error.
\<close>

function initWalletProviderLoop ::
  "(nat \<Rightarrow> string + WalletProvider) \<Rightarrow> nat \<Rightarrow> nat \<Rightarrow> string \<Rightarrow> error + WalletProvider" where
  "initWalletProviderLoop init maxRetries attempt lastError =
    (if attempt \<le> maxRetries then
       (case init attempt of
          Inr provider \<Rightarrow> Inr provider
        | Inl msg \<Rightarrow> initWalletProviderLoop init maxRetries (Suc attempt) msg)
     else Inl (WalletProviderInitFailed maxRetries lastError))"
  by pat_completeness auto
termination
  by (relation "measure (\<lambda>(init, maxRetries, attempt, lastError). Suc maxRetries - attempt)") auto

declare initWalletProviderLoop.simps [simp del]

definition initWalletProviderWithRetry ::
  "(nat \<Rightarrow> string + WalletProvider) \<Rightarrow> error + WalletProvider" where
  "initWalletProviderWithRetry init = initWalletProviderLoop init 3 1 []"

function getTokenBalancesLoop ::
  "WalletProvider \<Rightarrow> Env \<Rightarrow> int \<Rightarrow> string \<Rightarrow> bool \<Rightarrow> nat \<Rightarrow> nat \<Rightarrow> error
     \<Rightarrow> TokenBalanceData list Cache
     \<Rightarrow> (error + TokenBalanceData list) \<times> TokenBalanceData list Cache" where
  "getTokenBalancesLoop wp env now addr testnetOnly maxRetries attempt lastError bc =
    (if attempt \<le> maxRetries then
       (case getTokenBalances wp env now addr testnetOnly bc of
          (Some (Inr tokenBalances), bc') \<Rightarrow> (Inr tokenBalances, bc')
        | (Some (Inl e), bc') \<Rightarrow>
            getTokenBalancesLoop wp env now addr testnetOnly maxRetries (Suc attempt) e bc'
        | (None, bc') \<Rightarrow>
            getTokenBalancesLoop wp env now addr testnetOnly maxRetries (Suc attempt)
              TokenBalanceFetchTimeout bc')
     else (Inl (TokenBalanceFetchFailed maxRetries lastError), bc))"
  by pat_completeness auto
termination
  by (relation "measure (\<lambda>(wp, env, now, addr, testnetOnly, maxRetries, attempt, lastError, bc).
                   Suc maxRetries - attempt)") auto

declare getTokenBalancesLoop.simps [simp del]

definition getTokenBalancesWithRetry ::
  "WalletProvider \<Rightarrow> Env \<Rightarrow> int \<Rightarrow> string \<Rightarrow> bool \<Rightarrow> TokenBalanceData list Cache
     \<Rightarrow> (error + TokenBalanceData list) \<times> TokenBalanceData list Cache" where
  "getTokenBalancesWithRetry wp env now addr testnetOnly bc =
    getTokenBalancesLoop wp env now addr testnetOnly 3 1 (ProviderError []) bc"

text \<open>Assignment \<open>obj[key] = value\<close> on a record object: keys keep their first position.\<close>

fun recordSet :: "string \<Rightarrow> 'v \<Rightarrow> (string \<times> 'v) list \<Rightarrow> (string \<times> 'v) list" where
  "recordSet k v [] = [(k, v)]"
| "recordSet k v ((k', v') # r) =
    (if k = k' then (k, v) # r else (k', v') # recordSet k v r)"

definition nativeBalancesOf :: "TokenBalanceData list \<Rightarrow> (string \<times> rat) list" where
  "nativeBalancesOf tbs =
    foldl (\<lambda>nb chain. recordSet (tbChainName chain) (nativeBalance chain) nb) [] tbs"

text \<open>
  The pure part of \<open>performComprehensiveAnalysisWithStaking\<close>: everything after the
  balances have been fetched.
\<close>

definition assembleAnalysis :: "string \<Rightarrow> bool \<Rightarrow> TokenBalanceData list \<Rightarrow> WalletAnalysis" where
  "assembleAnalysis addr testnetOnly tokenBalances =
    (let allTokenHoldings = concat (map tokenHoldings tokenBalances);
         nb = nativeBalancesOf tokenBalances;
         totalNativeBalance = foldl (\<lambda>sum b. sum + b) 0 (map snd nb);
         positions = filter (\<lambda>t. symbol t \<in> set [''stETH'', ''rETH'', ''cbETH'', ''sfrxETH'']
                                  \<and> balance t > 0) allTokenHoldings;
         ta = analyzeTokenHoldings allTokenHoldings;
         score = calculateDiversificationScore allTokenHoldings nb;
         rp = assessComprehensiveRisk totalNativeBalance allTokenHoldings ta;
         liq = assessLiquidityProfile allTokenHoldings totalNativeBalance;
         strategy = generateStakingStrategy rp liq totalNativeBalance testnetOnly;
         recs = generateRealStakingRecommendations nb allTokenHoldings strategy rp testnetOnly
     in \<lparr> waAddress = addr,
          totalBalance = totalNativeBalance,
          waTokenHoldings = allTokenHoldings,
          nativeBalances = nb,
          diversificationScore = score,
          stakingRecommendations = recs,
          currentStakingPositions = positions,
          tokenAnalysis = ta,
          riskProfile = rp,
          stakingStrategy = strategy,
          liquidityNeeds = liq \<rparr>)"

definition performComprehensiveAnalysisWithStaking ::
  "Env \<Rightarrow> int \<Rightarrow> string \<Rightarrow> bool \<Rightarrow> TokenBalanceData list Cache
     \<Rightarrow> (error + WalletAnalysis) \<times> TokenBalanceData list Cache" where
  "performComprehensiveAnalysisWithStaking env now addr testnetOnly bc =
    (case initWalletProvider env of
       None \<Rightarrow> (Inl EvmPluginUnavailable, bc)
     | Some init \<Rightarrow>
         (case validateEvmConfigurationStrict env of
            Inl e \<Rightarrow> (Inl e, bc)
          | Inr u \<Rightarrow>
              (case initWalletProviderWithRetry init of
                 Inl e \<Rightarrow> (Inl e, bc)
               | Inr wp \<Rightarrow>
                   (case getTokenBalancesWithRetry wp env now addr testnetOnly bc of
                      (Inl e, bc') \<Rightarrow> (Inl e, bc')
                    | (Inr tokenBalances, bc') \<Rightarrow>
                        (Inr (assembleAnalysis addr testnetOnly tokenBalances), bc')))))"

text \<open>The analyzer's state: its analysis cache and the balance provider's cache.\<close>

record Analyzer =
  analysisCache :: "WalletAnalysis Cache"
  balanceCache :: "TokenBalanceData list Cache"

definition newAnalyzer :: Analyzer where
  "newAnalyzer = \<lparr> analysisCache = newCache (10 * 60 * 1000),
                   balanceCache = newCache (5 * 60 * 1000) \<rparr>"

definition analysisCacheKey :: "string \<Rightarrow> bool \<Rightarrow> string" where
  "analysisCacheKey addr testnetOnly =
    addr @ ''_analysis_'' @ (if testnetOnly then ''testnet'' else ''all'')"

definition analyzeWallet ::
  "Env \<Rightarrow> int \<Rightarrow> string \<Rightarrow> bool \<Rightarrow> Analyzer \<Rightarrow> (error + WalletAnalysis) \<times> Analyzer" where
  "analyzeWallet env now addr testnetOnly st =
    (case Cache_get now (analysisCacheKey addr testnetOnly) (analysisCache st) of
       (Some cached, ac') \<Rightarrow> (Inr cached, st\<lparr> analysisCache := ac' \<rparr>)
     | (None, ac') \<Rightarrow>
         (case performComprehensiveAnalysisWithStaking env now addr testnetOnly (balanceCache st) of
            (Inr analysis, bc') \<Rightarrow>
              (Inr analysis,
               \<lparr> analysisCache = Cache_set now (analysisCacheKey addr testnetOnly) analysis ac',
                 balanceCache = bc' \<rparr>)
          | (Inl e, bc') \<Rightarrow>
              (Inl (AnalyzeWalletFailed e), \<lparr> analysisCache = ac', balanceCache = bc' \<rparr>)))"

subsection \<open>Auxiliary definitions\<close>

text \<open>The two adjustment steps of \<open>assessComprehensiveRisk\<close>, named for the proofs.\<close>

definition sizeAdjust :: "rat \<Rightarrow> int" where
  "sizeAdjust sz =
    (if sz > 100 then 50 + 15
     else if sz > 10 then 50 + 10
     else if sz < 1 then 50 - 15
     else 50)"

definition stableAdjust :: "rat \<Rightarrow> int \<Rightarrow> int" where
  "stableAdjust stablecoinRatio r2 =
    (if stablecoinRatio > 1/2 then r2 - 10
     else if stablecoinRatio < 1/10 then r2 + 10
     else r2)"

text \<open>
  A sum accumulated in double precision, as \<open>reduce\<close> computes it from 0, and the unit
  roundoff of double precision.
\<close>

definition roundedSum :: "('a \<Rightarrow> rat) \<Rightarrow> 'a list \<Rightarrow> rat" where
  "roundedSum f xs = foldl (\<lambda>s t. toDouble (s + f t)) 0 xs"

definition unitRoundoff :: rat where
  "unitRoundoff = 1 / 2 ^ 53"

text \<open>Example holdings and collaborators, used to exercise the definitions.\<close>

definition exampleUSDC :: TokenHolding where
  "exampleUSDC =
    \<lparr> symbol = ''USDC'', address = ''0xA0b86a33E6Db485E0f65b2f8b4b92c0e7b9c2c1e'',
      balance = 300, decimals = 6, chainName = ''mainnet'', isStakeable = True,
      stakingOptions = [mkOption ''Aave'' LIQUID (45/10) 100 None LOW ''mainnet'',
                        mkOption ''Compound'' LIQUID (38/10) 50 None LOW ''mainnet''],
      isTestnet = False \<rparr>"

definition exampleDAI :: TokenHolding where
  "exampleDAI =
    \<lparr> symbol = ''DAI'', address = ''0x6B175474E89094C44Da98b954EedeAC495271d0F'',
      balance = 100, decimals = 18, chainName = ''mainnet'', isStakeable = True,
      stakingOptions = [mkOption ''MakerDAO DSR'' LIQUID 5 1 None LOW ''mainnet'',
                        mkOption ''Aave'' LIQUID (43/10) 50 None LOW ''mainnet''],
      isTestnet = False \<rparr>"

text \<open>A mainnet holding of the given token with the given balance.\<close>

definition holdingOf :: "string \<Rightarrow> rat \<Rightarrow> TokenHolding" where
  "holdingOf sy b =
    \<lparr> symbol = sy, address = ''0xdAC17F958D2ee523a2206206994597C13D831ec7'', balance = b,
      decimals = 6, chainName = ''mainnet'', isStakeable = False, stakingOptions = [],
      isTestnet = False \<rparr>"

definition exampleRiskProfile :: WalletRiskProfile where
  "exampleRiskProfile =
    \<lparr> riskScore = 45, riskTolerance = MODERATE, maxSinglePosition = 1/10,
      rpDiversificationLevel = HIGH, lockPeriodTolerance = 30,
      rpConcentrationRisk = Finite 0, liquidityRisk = 0, stakingRiskTolerance = MEDIUM \<rparr>"

definition exampleLiquidity :: LiquidityProfile where
  "exampleLiquidity =
    \<lparr> liquidityRatio = 0, withdrawalFrequency = 1, emergencyBuffer = 1/20,
      preferredLockPeriods = [30, 90, 365], liquidAssets = [], stakedAssets = [],
      stakingCapacity = 4/10 \<rparr>"

definition exampleStrategy :: StakingStrategy where
  "exampleStrategy = generateStakingStrategy exampleRiskProfile exampleLiquidity 2 False"

definition exampleRecommendation :: StakingRecommendation where
  "exampleRecommendation =
    \<lparr> recommendedAmount = 12/10, token = ''ETH'',
      options = [mkOption ''Lido'' LIQUID (32/10) (1/100) None LOW ''mainnet'',
                 mkOption ''Rocket Pool'' LIQUID (31/10) (1/100) None LOW ''mainnet'',
                 mkOption ''Coinbase Wrapped Staked ETH'' LIQUID 3 (1/1000) None LOW ''mainnet''],
      expectedReturn = 384/10000, priority = MEDIUM, recIsTestnet = False \<rparr>"

definition clientFor :: "WalletProvider \<Rightarrow> Env \<Rightarrow> string \<Rightarrow> error + Client" where
  "clientFor wp env c =
    (case getPublicClient wp c of Some cl \<Rightarrow> Inr cl | None \<Rightarrow> createPublicClient env c)"

definition nativeWei :: "Client \<Rightarrow> string \<Rightarrow> nat" where
  "nativeWei cl addr = (case getBalance cl addr of Answer b \<Rightarrow> b | _ \<Rightarrow> 0)"

definition dustThreshold :: "string \<Rightarrow> rat" where
  "dustThreshold c = (if isTestnetChain c then 1/100000 else 1/1000)"

definition chainTokens :: "string \<Rightarrow> TokenConfig list" where
  "chainTokens c = (if isTestnetChain c then catalogTokens TESTNET_TOKEN_DATABASE c
                    else catalogTokens TOKEN_DATABASE c)"

definition emptySnapshot :: "string \<Rightarrow> string \<Rightarrow> TokenBalanceData" where
  "emptySnapshot addr c =
    \<lparr> tbAddress = addr, tbChainName = c, nativeBalance = 0, tokenHoldings = [],
      tbIsTestnet = isTestnetChain c \<rparr>"

text \<open>
  The snapshot that the fan-out pushes for a chain whose queries have settled, if any.
\<close>

definition pushedSnapshot ::
  "WalletProvider \<Rightarrow> Env \<Rightarrow> string \<Rightarrow> bool \<Rightarrow> string \<Rightarrow> TokenBalanceData option" where
  "pushedSnapshot wp env addr testnetOnly c =
    (case getTokenBalancesForChain wp env addr c of
       Some (Inr chainData) \<Rightarrow>
         if tokenHoldings chainData \<noteq> [] \<or> nativeBalance chainData > 0 \<or> testnetOnly
         then Some chainData else None
     | _ \<Rightarrow> None)"

definition exampleAddress :: string where
  "exampleAddress = ''0x52908400098527886E0F7030069857D2E4169EE7''"

definition emptyClient :: Client where
  "emptyClient = \<lparr> getBalance = (\<lambda>a. Answer 0), readContract = (\<lambda>tok a. Answer 0) \<rparr>"

definition exampleProvider :: WalletProvider where
  "exampleProvider =
    \<lparr> getSupportedChains = Inr (Some [''mainnet'', ''base'', ''sepolia'']),
      getPublicClient = (\<lambda>c. Some emptyClient) \<rparr>"

text \<open>
  A runtime with a valid key over a given wallet provider and fallback client, in which
  the parallel queries complete in the order in which they were issued.
\<close>

definition envOf :: "WalletProvider \<Rightarrow> Client \<Rightarrow> Env" where
  "envOf wp cl =
    \<lparr> evmPrivateKey = Some (replicate 64 (CHR ''a'')),
      initWalletProvider = Some (\<lambda>attempt. Inr wp),
      rpcClient = (\<lambda>c. cl),
      chainArrival = (\<lambda>i. 0),
      tokenArrival = (\<lambda>c i. 0) \<rparr>"

definition exampleEnv :: Env where
  "exampleEnv = envOf exampleProvider emptyClient"

definition fundedClient :: Client where
  "fundedClient = \<lparr> getBalance = (\<lambda>a. Answer (2 * 10 ^ 18)), readContract = (\<lambda>tok a. Answer 0) \<rparr>"

definition mainnetProvider :: WalletProvider where
  "mainnetProvider =
    \<lparr> getSupportedChains = Inr (Some [''mainnet'']), getPublicClient = (\<lambda>c. Some fundedClient) \<rparr>"

definition fundedSnapshot :: TokenBalanceData where
  "fundedSnapshot =
    \<lparr> tbAddress = exampleAddress, tbChainName = ''mainnet'', nativeBalance = 2,
      tokenHoldings = [], tbIsTestnet = False \<rparr>"


text \<open>
  A chain is down for an address when no client can be obtained for it, or when the
  native-balance query and every token query of its catalog throw. A chain hangs when
  a client is obtained and the native-balance query hangs, or it settles and a token
  query of the catalog hangs.
\<close>

definition chainDown :: "WalletProvider \<Rightarrow> Env \<Rightarrow> string \<Rightarrow> string \<Rightarrow> bool" where
  "chainDown wp env addr c =
    (case clientFor wp env c of
       Inl e \<Rightarrow> True
     | Inr cl \<Rightarrow> getBalance cl addr = Throws
                \<and> list_all (\<lambda>tc. readContract cl (tcAddress tc) addr = Throws) (chainTokens c))"

definition chainHangs :: "WalletProvider \<Rightarrow> Env \<Rightarrow> string \<Rightarrow> string \<Rightarrow> bool" where
  "chainHangs wp env addr c =
    (case clientFor wp env c of
       Inl e \<Rightarrow> False
     | Inr cl \<Rightarrow> getBalance cl addr = Hangs
                \<or> list_ex (\<lambda>tc. readContract cl (tcAddress tc) addr = Hangs) (chainTokens c))"

definition failingClient :: Client where
  "failingClient = \<lparr> getBalance = (\<lambda>a. Throws), readContract = (\<lambda>tok a. Throws) \<rparr>"




definition partialProvider :: WalletProvider where
  "partialProvider =
    \<lparr> getSupportedChains = Inr (Some [''mainnet'', ''base'']),
      getPublicClient = (\<lambda>c. if c = ''mainnet'' then Some fundedClient else Some failingClient) \<rparr>"

definition partialEnv :: Env where
  "partialEnv = envOf partialProvider failingClient"



text \<open>
  Network isolation of results. A holding is a testnet holding when it is flagged so
  and sits on a testnet chain; an analysis is sound for a mode when every
  recommendation is of the mode's network kind and, in testnet mode, every native
  balance entry and holding belongs to a testnet chain. The caches are sound when
  every entry is sound for the mode of its key.
\<close>

definition testnetHolding :: "TokenHolding \<Rightarrow> bool" where
  "testnetHolding t = (isTestnet t \<and> isTestnetChain (chainName t))"

definition testnetSnapshots :: "TokenBalanceData list \<Rightarrow> bool" where
  "testnetSnapshots tbs =
    list_all (\<lambda>d. isTestnetChain (tbChainName d) \<and> list_all testnetHolding (tokenHoldings d)) tbs"

definition modeSound :: "bool \<Rightarrow> WalletAnalysis \<Rightarrow> bool" where
  "modeSound tn wa =
    (list_all (\<lambda>r. recIsTestnet r = tn) (stakingRecommendations wa)
     \<and> (tn \<longrightarrow> list_all (\<lambda>e. isTestnetChain (fst e)) (nativeBalances wa)
               \<and> list_all testnetHolding (waTokenHoldings wa)))"

definition balancesSound :: "TokenBalanceData list Cache \<Rightarrow> bool" where
  "balancesSound bc =
    (\<forall>addr e. cache bc (balancesCacheKey addr True) = Some e \<longrightarrow> testnetSnapshots (data e))"

definition analysesSound :: "WalletAnalysis Cache \<Rightarrow> bool" where
  "analysesSound ac =
    (\<forall>addr tn e. cache ac (analysisCacheKey addr tn) = Some e \<longrightarrow> modeSound tn (data e))"

definition cachesSound :: "Analyzer \<Rightarrow> bool" where
  "cachesSound st = (analysesSound (analysisCache st) \<and> balancesSound (balanceCache st))"

definition mixedProvider :: WalletProvider where
  "mixedProvider =
    \<lparr> getSupportedChains = Inr (Some [''mainnet'', ''sepolia'']),
      getPublicClient = (\<lambda>c. if c = ''sepolia'' then Some fundedClient else Some emptyClient) \<rparr>"

definition mixedEnv :: Env where
  "mixedEnv = envOf mixedProvider emptyClient"

definition sepoliaSnapshot :: TokenBalanceData where
  "sepoliaSnapshot =
    \<lparr> tbAddress = exampleAddress, tbChainName = ''sepolia'', nativeBalance = 2,
      tokenHoldings = [], tbIsTestnet = True \<rparr>"

text \<open>
  The dust rule on results. A snapshot list is sound for a mode when every holding is
  above the dust threshold of its chain, every snapshot of a mainnet-mode list has a
  positive native balance or a holding, and a testnet-mode list has exactly one
  snapshot per testnet chain, in any order.
\<close>

definition snapshotsSound :: "bool \<Rightarrow> TokenBalanceData list \<Rightarrow> bool" where
  "snapshotsSound tn tbs =
    (list_all (\<lambda>d. list_all (\<lambda>t. dustThreshold (tbChainName d) < balance t) (tokenHoldings d)
                  \<and> (tn \<or> 0 < nativeBalance d \<or> tokenHoldings d \<noteq> [])) tbs
     \<and> (tn \<longrightarrow> mset (map tbChainName tbs) = mset getTestnetChains))"

definition dustSound :: "TokenBalanceData list Cache \<Rightarrow> bool" where
  "dustSound bc =
    (\<forall>addr tn e. cache bc (balancesCacheKey addr tn) = Some e \<longrightarrow> snapshotsSound tn (data e))"

text \<open>
  A mainnet client for an address that holds 300 USDC and 0.0005 DAI and nothing else,
  in a runtime where the answers for the catalog tokens arrive in reverse order.
\<close>

definition dustClient :: Client where
  "dustClient =
    \<lparr> getBalance = (\<lambda>a. Answer 0),
      readContract = (\<lambda>tok a.
        if tok = ''0xA0b86a33E6Db485E0f65b2f8b4b92c0e7b9c2c1e'' then Answer 300000000
        else if tok = ''0x6B175474E89094C44Da98b954EedeAC495271d0F'' then Answer 500000000000000
        else Answer 0) \<rparr>"

definition dustProvider :: WalletProvider where
  "dustProvider =
    \<lparr> getSupportedChains = Inr (Some [''mainnet'', ''base'']),
      getPublicClient = (\<lambda>c. if c = ''mainnet'' then Some dustClient else Some emptyClient) \<rparr>"

definition dustEnv :: Env where
  "dustEnv = (envOf dustProvider emptyClient)\<lparr> tokenArrival := (\<lambda>c i. 10 - i) \<rparr>"

definition dustSnapshot :: TokenBalanceData where
  "dustSnapshot =
    \<lparr> tbAddress = exampleAddress, tbChainName = ''mainnet'', nativeBalance = 0,
      tokenHoldings = [exampleUSDC], tbIsTestnet = False \<rparr>"

section \<open>Properties\<close>

subsection \<open>Risk profiler\<close>

lemma stablecoins_analyze:
  "stablecoins (analyzeTokenHoldings hs) =
     filter (\<lambda>t. symbol t \<in> set [''USDC'', ''USDT'', ''DAI'', ''BUSD'', ''FRAX'']) hs"
  by (simp only: analyzeTokenHoldings_def Let_def TokenAnalysis.select_convs)

lemma riskScore_unfold:
  "riskScore (assessComprehensiveRisk nativeBal hs ta) =
     max 0 (min 100
       ((if jsGreater (concentrationRisk ta) (1/2) then
        stableAdjust (of_nat (length (stablecoins ta)) / of_nat (max (length hs) 1))
          (sizeAdjust (nativeBal + of_nat (length hs)) + min (int (length hs) * 2) 20) + 15
        else stableAdjust (of_nat (length (stablecoins ta)) / of_nat (max (length hs) 1))
          (sizeAdjust (nativeBal + of_nat (length hs)) + min (int (length hs) * 2) 20))))"
  by (simp only: assessComprehensiveRisk_def Let_def sizeAdjust_def stableAdjust_def
        WalletRiskProfile.select_convs)

lemma riskTolerance_assess:
  "riskTolerance (assessComprehensiveRisk nativeBal hs ta) =
     mapRiskScoreToTolerance (riskScore (assessComprehensiveRisk nativeBal hs ta))"
  by (simp only: assessComprehensiveRisk_def Let_def WalletRiskProfile.select_convs)

lemma sizeAdjust_ge: "35 \<le> sizeAdjust s" "1 \<le> s \<Longrightarrow> 50 \<le> sizeAdjust s"
  by (simp_all add: sizeAdjust_def)

lemma stableAdjust_ge: "r - 10 \<le> stableAdjust q r" "q \<le> 1/2 \<Longrightarrow> r \<le> stableAdjust q r"
  by (simp_all add: stableAdjust_def)

lemma riskScore_ge_35:
  assumes "0 \<le> nativeBal"
  shows "35 \<le> riskScore (assessComprehensiveRisk nativeBal hs (analyzeTokenHoldings hs))"
proof -
  define n where "n = length hs"
  define k where "k = length (stablecoins (analyzeTokenHoldings hs))"
  define q :: rat where "q = of_nat k / of_nat (max n 1)"
  define r2 where "r2 = sizeAdjust (nativeBal + of_nat n) + min (int n * 2) 20"
  have kn: "k \<le> n" by (simp add: k_def n_def stablecoins_analyze)
  have "35 \<le> stableAdjust q r2"
  proof (cases "q \<le> 1/2")
    case True
    have "35 \<le> r2" using sizeAdjust_ge(1) [of "nativeBal + of_nat n"] by (simp add: r2_def)
    then show ?thesis using stableAdjust_ge(2) [OF True, of r2] by simp
  next
    case False
    then have "k \<noteq> 0" by (auto simp: q_def)
    then have n1: "1 \<le> n" using kn by simp
    then have "(1::rat) \<le> of_nat n" by simp
    then have "1 \<le> nativeBal + of_nat n" using assms by linarith
    then have "50 \<le> sizeAdjust (nativeBal + of_nat n)" by (rule sizeAdjust_ge(2))
    moreover have "2 \<le> min (int n * 2) 20" using n1 by simp
    ultimately have "52 \<le> r2" by (simp add: r2_def)
    then show ?thesis using stableAdjust_ge(1) [of r2 q] by simp
  qed
  then show ?thesis
    unfolding riskScore_unfold n_def [symmetric] k_def [symmetric] q_def [symmetric]
      r2_def [symmetric]
    by simp
qed

subsection \<open>TTL cache\<close>

text \<open>
  C8 (TTL cache, lazy expiry). A \<open>get\<close> on an entry older than the TTL deletes that
  entry and returns absent; a \<open>get\<close> within the TTL returns the stored value, which
  is the one most recently set, and leaves the cache as it is. Nothing else removes an
  entry: a \<open>get\<close> never touches another key and removes its own key only when the
  entry has expired, and a \<open>set\<close> removes nothing.
\<close>

theorem Cache_lazy_expiry:
  fixes c :: "'a Cache"
  shows "(cache c key = Some item \<and> now - timestamp item > ttl c \<longrightarrow>
            fst (Cache_get now key c) = None \<and>
            cache (snd (Cache_get now key c)) key = None)
       \<and> (cache c key = Some item \<and> now - timestamp item \<le> ttl c \<longrightarrow>
            Cache_get now key c = (Some (data item), c))
       \<and> (now' - now \<le> ttl c \<longrightarrow>
            Cache_get now' key (Cache_set now key d c) = (Some d, Cache_set now key d c))
       \<and> (cache c k \<noteq> None \<and> cache (snd (Cache_get now key c)) k = None \<longrightarrow>
            k = key \<and> (\<exists>e. cache c key = Some e \<and> now - timestamp e > ttl c))
       \<and> (cache c k \<noteq> None \<longrightarrow> cache (Cache_set now key d c) k \<noteq> None)
       \<and> ttl (snd (Cache_get now key c)) = ttl c \<and> ttl (Cache_set now key d c) = ttl c"
  by (auto simp: Cache_get_def Cache_set_def split: option.splits if_splits)

theorem Cache_lazy_expiry_witness:
  "fst (Cache_get 700000 ''k'' (Cache_set 0 ''k'' (7::nat) (newCache 600000))) = None
   \<and> Cache_get 600000 ''k'' (Cache_set 0 ''k'' (7::nat) (newCache 600000))
       = (Some 7, Cache_set 0 ''k'' 7 (newCache 600000))"
proof -
  let ?c0 = "newCache 600000 :: nat Cache"
  let ?c1 = "Cache_set 0 ''k'' (7::nat) ?c0"
  have a: "cache ?c1 ''k'' = Some \<lparr> data = 7, timestamp = 0 \<rparr> \<and>
           (700000::int) - timestamp \<lparr> data = 7::nat, timestamp = 0 \<rparr> > ttl ?c1"
    by (simp add: Cache_set_def newCache_def)
  have b: "(600000::int) - 0 \<le> ttl ?c0"
    by (simp add: newCache_def)
  from a Cache_lazy_expiry [of ?c1 "''k''" "\<lparr> data = 7, timestamp = 0 \<rparr>" 700000 0 7 "''k''"]
  have "fst (Cache_get 700000 ''k'' ?c1) = None" by blast
  moreover from b Cache_lazy_expiry [of ?c0 "''k''" "\<lparr> data = 7, timestamp = 0 \<rparr>" 0 600000 7 "''k''"]
  have "Cache_get 600000 ''k'' ?c1 = (Some 7, ?c1)" by blast
  ultimately show ?thesis by blast
qed

subsection \<open>Double precision\<close>

lemma bitlen_pow_bounds:
  fixes p :: int
  assumes "0 < p"
  shows "(2::rat) powi (bitlen p - 1) \<le> of_int p" "(of_int p :: rat) < 2 powi bitlen p"
proof -
  from bitlen_bounds [OF assms] have a: "2 ^ nat (bitlen p - 1) \<le> p" and b: "p < 2 ^ nat (bitlen p)"
    by simp_all
  have b1: "1 \<le> bitlen p" using assms by (auto simp: bitlen_alt_def)
  have "(of_int (2 ^ nat (bitlen p - 1)) :: rat) \<le> of_int p" using a by (simp only: of_int_le_iff)
  then show "(2::rat) powi (bitlen p - 1) \<le> of_int p"
    using b1 by (simp add: power_int_def)
  have "(of_int p :: rat) < of_int (2 ^ nat (bitlen p))" using b by (simp only: of_int_less_iff)
  then show "(of_int p :: rat) < 2 powi bitlen p"
    using b1 by (simp add: power_int_def)
qed

lemma ilog2_bounds:
  assumes "0 < x"
  shows "2 powi ilog2 x \<le> x" "x < 2 powi (ilog2 x + 1)"
proof -
  obtain p q where pq: "quotient_of x = (p, q)" by (cases "quotient_of x")
  have q: "0 < q" using quotient_of_denom_pos [OF pq] .
  have x: "x = of_int p / of_int q" using quotient_of_div [OF pq] .
  have p: "0 < p" using assms q unfolding x by (simp add: zero_less_divide_iff)
  define d where "d = bitlen p - bitlen q"
  note P = bitlen_pow_bounds [OF p] and Q = bitlen_pow_bounds [OF q]
  have qpos: "(0::rat) < of_int q" using q by simp
  have up: "x < 2 powi (d + 1)"
  proof -
    have "of_int p < (2::rat) powi bitlen p" by (rule P(2))
    also have "\<dots> = 2 powi (d + 1) * 2 powi (bitlen q - 1)"
      by (simp add: d_def flip: power_int_add)
    also have "\<dots> \<le> 2 powi (d + 1) * of_int q"
      by (intro mult_left_mono Q(1)) simp
    finally show ?thesis unfolding x using qpos by (simp add: divide_less_eq)
  qed
  have low: "2 powi (d - 1) \<le> x"
  proof -
    have "(2::rat) powi (d - 1) * of_int q \<le> 2 powi (d - 1) * 2 powi bitlen q"
      by (intro mult_left_mono less_imp_le [OF Q(2)]) simp
    also have "\<dots> = 2 powi (bitlen p - 1)"
      by (simp add: d_def flip: power_int_add)
    also have "\<dots> \<le> of_int p" by (rule P(1))
    finally show ?thesis unfolding x using qpos by (simp add: le_divide_eq)
  qed
  have il: "ilog2 x = (if 2 powi d \<le> x then d else d - 1)"
    by (simp add: ilog2_def Let_def pq d_def)
  show "2 powi ilog2 x \<le> x" using low by (simp add: il)
  show "x < 2 powi (ilog2 x + 1)" using up by (auto simp: il not_le)
qed

lemma ilog2_unique:
  assumes "0 < x" "2 powi k \<le> x" "x < 2 powi (k + 1)"
  shows "ilog2 x = k"
proof -
  note B = ilog2_bounds [OF assms(1)]
  have "(2::rat) powi ilog2 x < 2 powi (k + 1)" using B(1) assms(3) by simp
  then have a: "ilog2 x < k + 1"
    by (metis not_less power_int_increasing one_le_numeral)
  have "(2::rat) powi k < 2 powi (ilog2 x + 1)" using B(2) assms(2) by simp
  then have b: "k < ilog2 x + 1"
    by (metis not_less power_int_increasing one_le_numeral)
  from a b show ?thesis by simp
qed

lemma roundTiesToEven_of_int [simp]: "roundTiesToEven (of_int k) = k"
  by (simp add: roundTiesToEven_def)

lemma roundTiesToEven_near:
  assumes "\<bar>q - of_int m\<bar> < 1/2"
  shows "roundTiesToEven q = m"
proof -
  from assms have a: "of_int m - 1/2 < q" "q < of_int m + 1/2" by linarith+
  show ?thesis
  proof (cases "of_int m \<le> q")
    case True
    have "\<lfloor>q\<rfloor> = m" using True a(2) by (intro floor_unique) linarith+
    then show ?thesis using a(2) by (simp add: roundTiesToEven_def)
  next
    case False
    have f: "\<lfloor>q\<rfloor> = m - 1" using False a(1) by (intro floor_unique) (simp, linarith)+
    have "1/2 < q - of_int (m - 1)" using a(1) by simp
    then show ?thesis by (simp add: roundTiesToEven_def f)
  qed
qed

lemma roundTiesToEven_err: "\<bar>of_int (roundTiesToEven q) - q\<bar> \<le> 1/2"
proof -
  have "of_int \<lfloor>q\<rfloor> \<le> q" "q < of_int \<lfloor>q\<rfloor> + 1" by linarith+
  then show ?thesis
    by (auto simp: roundTiesToEven_def Let_def abs_le_iff)
qed

lemma roundTiesToEven_mono_bounds:
  assumes "of_int a \<le> q" "q \<le> of_int b"
  shows "a \<le> roundTiesToEven q" "roundTiesToEven q \<le> b"
proof -
  have fl: "a \<le> \<lfloor>q\<rfloor>" using assms(1) by (simp add: le_floor_iff)
  show "a \<le> roundTiesToEven q" using fl by (simp add: roundTiesToEven_def Let_def)
  show "roundTiesToEven q \<le> b"
  proof (cases "q = of_int b")
    case True
    then show ?thesis by simp
  next
    case False
    then have "q < of_int b" using assms(2) by simp
    then have "\<lfloor>q\<rfloor> < b" by (simp add: floor_less_iff)
    then show ?thesis by (simp add: roundTiesToEven_def Let_def)
  qed
qed

lemma toDouble_pos_unfold:
  assumes "0 < x"
  shows "toDouble x =
           of_int (roundTiesToEven (x / 2 powi max (ilog2 x - 52) (- 1074)))
             * 2 powi max (ilog2 x - 52) (- 1074)"
  using assms by (simp add: toDouble_def Let_def)

lemma toDouble_near:
  assumes "0 < x" "2 powi k \<le> x" "x < 2 powi (k + 1)"
      and "\<bar>x / 2 powi max (k - 52) (- 1074) - of_int m\<bar> < 1/2"
  shows "toDouble x = of_int m * 2 powi max (k - 52) (- 1074)"
  unfolding toDouble_pos_unfold [OF assms(1)] ilog2_unique [OF assms(1-3)]
    roundTiesToEven_near [OF assms(4)] ..

lemma toDouble_rel:
  assumes "2 powi (- 1022) \<le> x"
  shows "\<bar>toDouble x - x\<bar> \<le> x / 2 ^ 53"
proof -
  have x: "0 < x" using assms by (rule less_le_trans [rotated]) simp
  define k where "k = ilog2 x"
  note B = ilog2_bounds [OF x, folded k_def]
  have "(2::rat) powi (- 1022) < 2 powi (k + 1)" using assms B(2) by simp
  then have "- 1022 < k + 1" by (metis not_less power_int_increasing one_le_numeral)
  then have e: "max (k - 52) (- 1074) = k - 52" by simp
  define q where "q = x / 2 powi (k - 52)"
  have td: "toDouble x = of_int (roundTiesToEven q) * 2 powi (k - 52)"
    unfolding toDouble_pos_unfold [OF x] k_def [symmetric] e q_def ..
  have xq: "x = q * 2 powi (k - 52)" by (simp add: q_def)
  have "toDouble x - x = (of_int (roundTiesToEven q) - q) * 2 powi (k - 52)"
    unfolding td left_diff_distrib using xq by simp
  then have "\<bar>toDouble x - x\<bar> = \<bar>of_int (roundTiesToEven q) - q\<bar> * 2 powi (k - 52)"
    by (simp add: abs_mult)
  also have "\<dots> \<le> 1/2 * 2 powi (k - 52)"
    by (intro mult_right_mono roundTiesToEven_err) simp
  also have "\<dots> = 2 powi k / 2 ^ 53"
    by (simp add: power_int_diff)
  also have "\<dots> \<le> x / 2 ^ 53" using B(1) by (simp add: divide_right_mono)
  finally show ?thesis .
qed

lemma toDouble_exact:
  assumes "0 < m" "m \<le> 2 ^ 53" "- 1074 \<le> e"
  shows "toDouble (of_int m * 2 powi e) = of_int m * 2 powi e"
proof -
  define y :: rat where "y = of_int m * 2 powi e"
  have y: "0 < y" using assms(1) by (simp add: y_def)
  define k where "k = ilog2 y"
  define e' where "e' = max (k - 52) (- 1074)"
  note B = ilog2_bounds [OF y, folded k_def]
  have td: "toDouble y = of_int (roundTiesToEven (y / 2 powi e')) * 2 powi e'"
    unfolding toDouble_pos_unfold [OF y] k_def [symmetric] e'_def ..
  have "\<exists>j. y / 2 powi e' = of_int j"
  proof (cases "m = 2 ^ 53")
    case True
    then have y2: "y = 2 powi (e + 53)" by (simp add: y_def power_int_add)
    have "ilog2 y = e + 53"
      by (rule ilog2_unique [OF y]) (simp_all add: y2 power_int_add)
    then have "e' = e + 1" using assms(3) by (simp add: e'_def k_def)
    then have "y / 2 powi e' = of_int (2 ^ 52)"
      by (simp add: y2 power_int_add)
    then show ?thesis by blast
  next
    case False
    then have "m < 2 ^ 53" using assms(2) by simp
    then have "(of_int m :: rat) < of_int (2 ^ 53)" by (simp only: of_int_less_iff)
    then have "y < 2 ^ 53 * 2 powi e" by (simp add: y_def)
    also have "\<dots> = 2 powi (e + 53)" by (simp add: power_int_add)
    finally have "(2::rat) powi k < 2 powi (e + 53)" using B(1) by simp
    then have "k < e + 53" by (metis not_less power_int_increasing one_le_numeral)
    then have le: "e' \<le> e" using assms(3) by (simp add: e'_def)
    have "(2::rat) powi e = 2 powi e' * 2 powi (e - e')" by (simp flip: power_int_add)
    also have "(2::rat) powi (e - e') = of_int (2 ^ nat (e - e'))"
      using le by (simp add: power_int_def)
    finally have "y / 2 powi e' = of_int (m * 2 ^ nat (e - e'))"
      by (simp add: y_def)
    then show ?thesis by blast
  qed
  then obtain j where j: "y / 2 powi e' = of_int j" ..
  then have "of_int j * 2 powi e' = y" by (simp add: field_simps)
  then show ?thesis unfolding y_def [symmetric] td j by simp
qed

lemma toDouble_repr:
  assumes "0 \<le> x"
  shows "\<exists>m e. toDouble x = of_int m * 2 powi e \<and> 0 \<le> m \<and> m \<le> 2 ^ 53 \<and> - 1074 \<le> e"
proof (cases "x = 0")
  case True
  then have "toDouble x = of_int 0 * 2 powi 0" by (simp add: toDouble_def)
  then show ?thesis by (metis order_refl zero_le_numeral zero_le_power neg_numeral_le_zero)
next
  case False
  then have x: "0 < x" using assms by simp
  define k where "k = ilog2 x"
  define e where "e = max (k - 52) (- 1074)"
  define q where "q = x / 2 powi e"
  note B = ilog2_bounds [OF x, folded k_def]
  have td: "toDouble x = of_int (roundTiesToEven q) * 2 powi e"
    unfolding toDouble_pos_unfold [OF x] k_def [symmetric] e_def [symmetric] q_def ..
  have q0: "of_int 0 \<le> q" using x by (simp add: q_def)
  have "k + 1 \<le> e + 53" by (simp add: e_def)
  then have "(2::rat) powi (k + 1) \<le> 2 powi (e + 53)" by (intro power_int_increasing) simp_all
  then have "x < 2 powi (e + 53)" using B(2) by simp
  also have "\<dots> = 2 ^ 53 * 2 powi e" by (simp add: power_int_add)
  finally have "q < 2 ^ 53" by (simp add: q_def divide_less_eq)
  then have q1: "q \<le> of_int (2 ^ 53)" by simp
  from roundTiesToEven_mono_bounds [OF q0 q1] td show ?thesis
    by (intro exI [of _ "roundTiesToEven q"] exI [of _ e]) (simp add: e_def)
qed

lemma toDouble_idem:
  assumes "0 \<le> x"
  shows "toDouble (toDouble x) = toDouble x"
proof -
  from toDouble_repr [OF assms] obtain m e where
    me: "toDouble x = of_int m * 2 powi e" "0 \<le> m" "m \<le> 2 ^ 53" "- 1074 \<le> e" by blast
  show ?thesis
  proof (cases "m = 0")
    case True
    then have z: "toDouble x = 0" using me(1) by simp
    have "toDouble 0 = 0" by (simp add: toDouble_def)
    then show ?thesis unfolding z .
  next
    case False
    then have "0 < m" using me(2) by simp
    from toDouble_exact [OF this me(3,4)] show ?thesis by (simp add: me(1))
  qed
qed

lemma toDouble_nonneg: "0 \<le> x \<Longrightarrow> 0 \<le> toDouble x"
  using toDouble_repr [of x] by auto

lemma toDouble_bounds:
  assumes "2 powi (- 1022) \<le> x"
  shows "(1 - unitRoundoff) * x \<le> toDouble x" "toDouble x * (1 - unitRoundoff) \<le> x"
proof -
  have x: "0 < x" using assms by (rule less_le_trans [rotated]) simp
  from toDouble_rel [OF assms] have a: "x - x / 2 ^ 53 \<le> toDouble x" and b: "toDouble x \<le> x + x / 2 ^ 53"
    by linarith+
  show "(1 - unitRoundoff) * x \<le> toDouble x" using a by (simp add: unitRoundoff_def algebra_simps)
  have "toDouble x * (1 - unitRoundoff) \<le> (x + x / 2 ^ 53) * (1 - unitRoundoff)"
    using b by (intro mult_right_mono) (simp_all add: unitRoundoff_def)
  also have "\<dots> = x * (1 - unitRoundoff * unitRoundoff)"
    by (simp add: unitRoundoff_def algebra_simps)
  also have "\<dots> \<le> x * 1" using x by (intro mult_left_mono) (simp_all add: unitRoundoff_def)
  finally show "toDouble x * (1 - unitRoundoff) \<le> x" by simp
qed

lemma bernoulli_rat:
  fixes u :: rat
  assumes "0 \<le> u" "u \<le> 1"
  shows "1 - of_nat k * u \<le> (1 - u) ^ k"
proof (induction k)
  case 0
  then show ?case by simp
next
  case (Suc k)
  have "1 - of_nat (Suc k) * u \<le> (1 - u) * (1 - of_nat k * u)"
    using assms(1) by (simp add: algebra_simps)
  also have "\<dots> \<le> (1 - u) * (1 - u) ^ k"
    using assms(2) Suc by (intro mult_left_mono) simp_all
  finally show ?case by simp
qed

lemma roundedSum_snoc:
  "roundedSum f (xs @ [x]) = toDouble (roundedSum f xs + f x)"
  by (simp add: roundedSum_def)

lemma roundedSum_bounds:
  assumes "\<forall>t\<in>set xs. 2 powi (- 1022) \<le> f t"
  shows "(1 - unitRoundoff) ^ length xs * sum_list (map f xs) \<le> roundedSum f xs
       \<and> roundedSum f xs * (1 - unitRoundoff) ^ length xs \<le> sum_list (map f xs)"
  using assms
proof (induction xs rule: rev_induct)
  case Nil
  then show ?case by (simp add: roundedSum_def)
next
  case (snoc x xs)
  define d where "d = 1 - unitRoundoff"
  define n where "n = length xs"
  define S where "S = sum_list (map f xs)"
  define F where "F = roundedSum f xs"
  have d: "0 \<le> d" "d \<le> 1" by (simp_all add: d_def unitRoundoff_def)
  have dn: "0 \<le> d ^ n" "d ^ n \<le> 1" using d by (simp_all add: power_le_one)
  have fx: "2 powi (- 1022) \<le> f x" using snoc.prems by simp
  have fx0: "0 \<le> f x" using fx by (rule order_trans [rotated]) simp
  have S0: "0 \<le> S" unfolding S_def
    by (rule sum_list_nonneg) (use snoc.prems in \<open>auto intro: order_trans [rotated]\<close>)
  from snoc have IH: "d ^ n * S \<le> F" "F * d ^ n \<le> S"
    by (simp_all add: d_def n_def S_def F_def)
  have F0: "0 \<le> F" using IH(1) dn(1) S0 by (meson mult_nonneg_nonneg order_trans)
  have arg: "2 powi (- 1022) \<le> F + f x" using fx F0 by linarith
  note R = toDouble_bounds [OF arg, folded d_def]
  have "d ^ Suc n * (S + f x) = d * (d ^ n * S + d ^ n * f x)" by (simp add: algebra_simps)
  also have "\<dots> \<le> d * (F + f x)"
  proof (intro mult_left_mono add_mono IH(1) d(1))
    show "d ^ n * f x \<le> f x" using dn fx0 by (simp add: mult_left_le_one_le)
  qed
  also have "\<dots> \<le> toDouble (F + f x)" by (rule R(1))
  finally have low: "d ^ Suc n * (S + f x) \<le> toDouble (F + f x)" .
  have "toDouble (F + f x) * d ^ Suc n = (toDouble (F + f x) * d) * d ^ n" by simp
  also have "\<dots> \<le> (F + f x) * d ^ n" by (intro mult_right_mono R(2) dn(1))
  also have "\<dots> = F * d ^ n + f x * d ^ n" by (simp add: algebra_simps)
  also have "\<dots> \<le> S + f x"
  proof (intro add_mono IH(2))
    show "f x * d ^ n \<le> f x" using dn fx0 by (simp add: mult_right_le_one_le)
  qed
  finally have up: "toDouble (F + f x) * d ^ Suc n \<le> S + f x" .
  show ?case
    using low up
    by (simp add: roundedSum_snoc d_def [symmetric] n_def [symmetric] S_def [symmetric]
          F_def [symmetric])
qed

lemma roundTiesToEven_tie:
  assumes "q = of_int n + 1/2"
  shows "roundTiesToEven q = (if even n then n else n + 1)"
proof -
  have "\<lfloor>q\<rfloor> = n" unfolding assms by (intro floor_unique) simp_all
  then show ?thesis by (simp add: roundTiesToEven_def assms)
qed

lemma toDouble_cert:
  assumes "0 < x" "2 powi k \<le> x" "x < 2 powi (k + 1)" "- 1022 \<le> k"
      and "\<bar>x / 2 powi (k - 52) - of_int m\<bar> < 1/2"
      and "y = of_int m * 2 powi (k - 52)"
  shows "toDouble x = y"
proof -
  have e: "max (k - 52) (- 1074) = k - 52" using assms(4) by simp
  show ?thesis
    using toDouble_near [OF assms(1-3), of m] assms(5,6) unfolding e by simp
qed

lemma toDouble_cert_tie:
  assumes "0 < x" "2 powi k \<le> x" "x < 2 powi (k + 1)" "- 1022 \<le> k"
      and "x / 2 powi (k - 52) = of_int n + 1/2"
      and "y = of_int (if even n then n else n + 1) * 2 powi (k - 52)"
  shows "toDouble x = y"
proof -
  have e: "max (k - 52) (- 1074) = k - 52" using assms(4) by simp
  show ?thesis
    unfolding toDouble_pos_unfold [OF assms(1)] ilog2_unique [OF assms(1-3)] e
      roundTiesToEven_tie [OF assms(5)] assms(6) ..
qed

lemma toDouble_one: "toDouble 1 = 1"
  using toDouble_exact [of 1 0] by simp

subsection \<open>Portfolio analyzer\<close>

lemma foldl_add_sum_list:
  fixes a :: rat
  shows "foldl (\<lambda>acc t. acc + f t) a xs = a + sum_list (map f xs)"
  by (induction xs arbitrary: a) (simp_all add: add.assoc)

lemma sum_list_pos_gt:
  fixes xs :: "rat list"
  assumes "\<forall>x\<in>set xs. 0 < x" "xs \<noteq> []"
  shows "0 < sum_list xs"
  using assms by (induction xs) (auto intro: add_pos_nonneg sum_list_nonneg less_imp_le)

lemma sum_squares_le_square_sum:
  fixes xs :: "rat list"
  assumes "\<forall>x\<in>set xs. 0 < x"
  shows "sum_list (map (\<lambda>x. x * x) xs) \<le> sum_list xs * sum_list xs
       \<and> (sum_list (map (\<lambda>x. x * x) xs) = sum_list xs * sum_list xs \<longleftrightarrow> length xs \<le> 1)"
  using assms
proof (induction xs)
  case Nil
  then show ?case by simp
next
  case (Cons x xs)
  let ?S = "sum_list xs" and ?Q = "sum_list (map (\<lambda>x. x * x) xs)"
  have x: "0 < x" using Cons.prems by simp
  have IH: "?Q \<le> ?S * ?S" "?Q = ?S * ?S \<longleftrightarrow> length xs \<le> 1"
    using Cons by simp_all
  have S0: "0 \<le> ?S" using Cons.prems by (intro sum_list_nonneg) (auto intro: less_imp_le)
  have expand: "(x + ?S) * (x + ?S) = x * x + 2 * x * ?S + ?S * ?S"
    by (simp add: algebra_simps)
  have xS: "0 \<le> 2 * x * ?S" using x S0 by simp
  show ?case
  proof (cases "xs = []")
    case True
    then show ?thesis by simp
  next
    case False
    then have "0 < ?S" using Cons.prems sum_list_pos_gt [of xs] by simp
    then have "0 < 2 * x * ?S" using x by simp
    then have "x * x + ?Q < (x + ?S) * (x + ?S)" using IH(1) expand by linarith
    moreover have "\<not> length (x # xs) \<le> 1" using False by (cases xs) auto
    ultimately show ?thesis by simp
  qed
qed

lemma sum_sq_dev:
  fixes xs :: "rat list"
  shows "sum_list (map (\<lambda>x. (x - m) * (x - m)) xs)
       = sum_list (map (\<lambda>x. x * x) xs) - 2 * m * sum_list xs + of_nat (length xs) * (m * m)"
  by (induction xs) (simp_all add: algebra_simps)

lemma sum_squares_ge:
  fixes xs :: "rat list"
  assumes "sum_list xs = 1" "xs \<noteq> []"
  shows "1 / of_nat (length xs) \<le> sum_list (map (\<lambda>x. x * x) xs)"
proof -
  define n :: rat where "n = of_nat (length xs)"
  have n: "0 < n" using assms(2) by (simp add: n_def)
  have "0 \<le> sum_list (map (\<lambda>x. (x - 1/n) * (x - 1/n)) xs)"
    by (intro sum_list_nonneg) auto
  then have "0 \<le> sum_list (map (\<lambda>x. x * x) xs) - 2 * (1/n) * 1 + n * ((1/n) * (1/n))"
    unfolding sum_sq_dev assms(1) n_def [symmetric] .
  moreover have "n * ((1/n) * (1/n)) = 1/n" using n by simp
  ultimately show ?thesis unfolding n_def [symmetric] by simp
qed

lemma herfindahl_exact:
  fixes a :: "'a \<Rightarrow> rat"
  assumes ne: "hs \<noteq> []" and pos: "\<forall>t\<in>set hs. 0 < a t"
  shows "1 / of_nat (length hs) \<le> sum_list (map (\<lambda>t. a t / sum_list (map a hs) * (a t / sum_list (map a hs))) hs)"
    "sum_list (map (\<lambda>t. a t / sum_list (map a hs) * (a t / sum_list (map a hs))) hs) \<le> 1"
proof -
  define T where "T = sum_list (map a hs)"
  define xs where "xs = map (\<lambda>t. a t / T) hs"
  have T: "0 < T"
    unfolding T_def using sum_list_pos_gt [of "map a hs"] ne pos by simp
  have sq: "sum_list (map (\<lambda>t. a t / T * (a t / T)) hs) = sum_list (map (\<lambda>x. x * x) xs)"
    by (simp add: xs_def comp_def)
  have xpos: "\<forall>x\<in>set xs. 0 < x" using pos T by (auto simp: xs_def)
  have "sum_list xs = sum_list (map a hs) / T"
    unfolding xs_def by (induction hs) (simp_all add: add_divide_distrib)
  then have one: "sum_list xs = 1" using T by (simp add: T_def)
  have len: "length xs = length hs" by (simp add: xs_def)
  have xne: "xs \<noteq> []" using ne by (simp add: xs_def)
  from sum_squares_le_square_sum [OF xpos] one
  show "sum_list (map (\<lambda>t. a t / sum_list (map a hs) * (a t / sum_list (map a hs))) hs) \<le> 1"
    unfolding T_def [symmetric] sq by simp
  from sum_squares_ge [OF one xne]
  show "1 / of_nat (length hs) \<le> sum_list (map (\<lambda>t. a t / sum_list (map a hs) * (a t / sum_list (map a hs))) hs)"
    unfolding T_def [symmetric] sq by (simp add: len)
qed

lemma sum_list_bounded_above:
  fixes f :: "'a \<Rightarrow> rat"
  assumes "\<forall>t\<in>set xs. f t \<le> c"
  shows "sum_list (map f xs) \<le> of_nat (length xs) * c"
  using assms by (induction xs) (auto simp: algebra_simps)

lemma sum_list_ge_member:
  fixes f :: "'a \<Rightarrow> rat"
  assumes "\<forall>t\<in>set xs. 0 \<le> f t" "x \<in> set xs"
  shows "f x \<le> sum_list (map f xs)"
  using assms
proof (induction xs)
  case Nil
  then show ?case by simp
next
  case (Cons y ys)
  have "0 \<le> sum_list (map f ys)" using Cons.prems(1) by (intro sum_list_nonneg) auto
  then show ?case using Cons by auto
qed

lemma rounded_herfindahl_bounds:
  fixes b :: "'a \<Rightarrow> rat"
  assumes ne: "hs \<noteq> []"
      and range: "\<forall>t\<in>set hs. 2 powi (- 60) \<le> b t \<and> b t \<le> 2 ^ 256"
      and len: "length hs \<le> 2 ^ 32"
  shows "0 < roundedSum (\<lambda>t. toDouble (b t)) hs"
    "(1 - of_nat (3 * length hs + 3) / 2 ^ 52) / of_nat (length hs)
       \<le> roundedSum (\<lambda>t. toDouble (toDouble (toDouble (b t) / roundedSum (\<lambda>t. toDouble (b t)) hs)
                                  * toDouble (toDouble (b t) / roundedSum (\<lambda>t. toDouble (b t)) hs))) hs"
    "roundedSum (\<lambda>t. toDouble (toDouble (toDouble (b t) / roundedSum (\<lambda>t. toDouble (b t)) hs)
                                  * toDouble (toDouble (b t) / roundedSum (\<lambda>t. toDouble (b t)) hs))) hs
       \<le> 1 + of_nat (3 * length hs + 3) / 2 ^ 52"
proof -
  define u where "u = unitRoundoff"
  define d where "d = 1 - u"
  define n where "n = length hs"
  define a where "a = (\<lambda>t. toDouble (b t))"
  define T where "T = sum_list (map a hs)"
  define T' where "T' = roundedSum a hs"
  define s where "s = (\<lambda>t. toDouble (a t / T'))"
  define g where "g = (\<lambda>t. toDouble (s t * s t))"
  define x where "x = (\<lambda>t. a t / T)"
  define H where "H = sum_list (map (\<lambda>t. x t * x t) hs)"
  define R where "R = roundedSum g hs"
  have n1: "1 \<le> n" using ne by (cases hs) (simp_all add: n_def)
  have nn: "(of_nat n :: rat) \<le> 2 ^ 32"
  proof -
    have "(of_nat n :: rat) \<le> of_nat (2 ^ 32)" using len unfolding n_def by (rule of_nat_mono)
    then show ?thesis by simp
  qed
  have u: "u = 1 / 2 ^ 53" by (simp add: u_def unitRoundoff_def)
  have d: "1/2 \<le> d" "d \<le> 1" "0 \<le> d" by (simp_all add: d_def u)
  have bern: "1 - of_nat k * u \<le> d ^ k" for k
    unfolding d_def by (rule bernoulli_rat) (simp_all add: u)
  have dk: "0 \<le> d ^ k" "d ^ k \<le> 1" for k using d by (simp_all add: power_le_one)
  have dn: "1/2 \<le> d ^ n"
  proof -
    have "of_nat n * u \<le> 2 ^ 32 * u" using nn by (intro mult_right_mono) (simp_all add: u)
    also have "\<dots> \<le> 1/2" by (simp add: u)
    finally show ?thesis using bern [of n] by linarith
  qed
  have m0: "(2::rat) powi (- 1022) \<le> 2 powi (- 705)" by (intro power_int_increasing) simp_all
  have m1: "(2::rat) powi (- 705) \<le> 2 powi (- 60)" by (intro power_int_increasing) simp_all
  have a: "2 powi (- 61) \<le> a t" "a t \<le> 2 ^ 257" "2 powi (- 1022) \<le> a t" if "t \<in> set hs" for t
  proof -
    from range that have b: "2 powi (- 60) \<le> b t" "b t \<le> 2 ^ 256" by auto
    have "2 powi (- 1022) \<le> b t" using m0 m1 b(1) by linarith
    note Rb = toDouble_bounds [OF this, folded u_def, folded d_def]
    have "(2::rat) powi (- 61) = 1/2 * 2 powi (- 60)" by (simp add: power_int_minus)
    also have "\<dots> \<le> d * b t" using d(1) b(1)
      by (intro mult_mono) simp_all
    also have "\<dots> \<le> a t" using Rb(1) by (simp add: a_def)
    finally show lo: "2 powi (- 61) \<le> a t" .
    have "a t * (1/2) \<le> a t * d" using lo d(1)
      by (intro mult_left_mono) (auto intro: order_trans [rotated])
    also have "\<dots> \<le> b t" using Rb(2) by (simp add: a_def)
    finally show "a t \<le> 2 ^ 257" using b(2) by simp
    have "(2::rat) powi (- 1022) \<le> 2 powi (- 61)" by (intro power_int_increasing) simp_all
    then show "2 powi (- 1022) \<le> a t" using lo by linarith
  qed
  have apos: "0 < a t" if "t \<in> set hs" for t
    using a(1) [OF that] by (rule less_le_trans [rotated]) simp
  obtain t0 where t0: "t0 \<in> set hs" using ne by (cases hs) auto
  have Tlow: "2 powi (- 61) \<le> T"
  proof -
    have "a t0 \<le> T" unfolding T_def
      by (rule sum_list_ge_member) (use apos t0 in \<open>auto intro: less_imp_le\<close>)
    then show ?thesis using a(1) [OF t0] by linarith
  qed
  have Tpos: "0 < T" using Tlow by (rule less_le_trans [rotated]) simp
  have Tup: "T \<le> 2 ^ 289"
  proof -
    have "T \<le> of_nat (length hs) * 2 ^ 257" unfolding T_def
      by (rule sum_list_bounded_above) (use a(2) in blast)
    also have "\<dots> \<le> 2 ^ 32 * 2 ^ 257" using nn unfolding n_def by (intro mult_right_mono) simp_all
    finally show ?thesis by simp
  qed
  have Tb: "d ^ n * T \<le> T'" "T' * d ^ n \<le> T"
    using roundedSum_bounds [of hs a] a(3)
    by (simp_all add: T_def T'_def n_def d_def u_def)
  have T'pos: "0 < T'"
  proof -
    have "0 < d ^ n * T" using dn Tpos by (intro mult_pos_pos) (auto intro: less_le_trans [rotated])
    then show ?thesis using Tb(1) by linarith
  qed
  have T'up: "T' \<le> 2 ^ 290"
  proof -
    have "T' * (1/2) \<le> T' * d ^ n" using dn T'pos by (intro mult_left_mono) simp_all
    then show ?thesis using Tb(2) Tup by simp
  qed
  have q: "2 powi (- 351) \<le> a t / T'" if "t \<in> set hs" for t
  proof -
    have "(2::rat) powi (- 351) * T' \<le> 2 powi (- 351) * 2 ^ 290"
      using T'up by (intro mult_left_mono) simp_all
    also have "\<dots> = 2 powi (- 61)" by (simp add: power_int_minus field_simps)
    also have "\<dots> \<le> a t" by (rule a(1) [OF that])
    finally show ?thesis using T'pos by (simp add: le_divide_eq)
  qed
  have sb: "d * (a t / T') \<le> s t" "s t * d \<le> a t / T'" "2 powi (- 352) \<le> s t" if "t \<in> set hs" for t
  proof -
    have "(2::rat) powi (- 1022) \<le> 2 powi (- 351)" by (intro power_int_increasing) simp_all
    then have "2 powi (- 1022) \<le> a t / T'" using q [OF that] by linarith
    note Rq = toDouble_bounds [OF this, folded u_def, folded d_def]
    show "d * (a t / T') \<le> s t" "s t * d \<le> a t / T'" using Rq by (simp_all add: s_def)
    have "(2::rat) powi (- 352) = 1/2 * 2 powi (- 351)" by (simp add: power_int_minus)
    also have "\<dots> \<le> d * (a t / T')" using d(1) q [OF that] by (intro mult_mono) simp_all
    also have "\<dots> \<le> s t" unfolding s_def by (rule Rq(1))
    finally show "2 powi (- 352) \<le> s t" .
  qed
  have spos: "0 < s t" if "t \<in> set hs" for t
    using sb(3) [OF that] by (rule less_le_trans [rotated]) simp
  have sx: "d ^ (n + 1) * x t \<le> s t" "s t * d ^ (n + 1) \<le> x t" if "t \<in> set hs" for t
  proof -
    have at: "0 < a t" by (rule apos [OF that])
    have "d ^ n * x t = a t * (d ^ n / T)" by (simp add: x_def)
    also have "\<dots> \<le> a t * (1 / T')"
    proof (intro mult_left_mono)
      show "d ^ n / T \<le> 1 / T'" using Tb(2) Tpos T'pos by (simp add: field_simps)
      show "0 \<le> a t" using at by simp
    qed
    finally have "d ^ n * x t \<le> a t / T'" by simp
    then have "d * (d ^ n * x t) \<le> d * (a t / T')" using d(3) by (rule mult_left_mono)
    then show "d ^ (n + 1) * x t \<le> s t" using sb(1) [OF that] by (simp add: algebra_simps)
    have "s t * d ^ (n + 1) = (s t * d) * d ^ n" by simp
    also have "\<dots> \<le> (a t / T') * d ^ n" by (intro mult_right_mono sb(2) [OF that] dk(1))
    also have "\<dots> = a t * (d ^ n / T')" by simp
    also have "\<dots> \<le> a t * (1 / T)"
    proof (intro mult_left_mono)
      show "d ^ n / T' \<le> 1 / T" using Tb(1) Tpos T'pos by (simp add: field_simps)
      show "0 \<le> a t" using at by simp
    qed
    finally show "s t * d ^ (n + 1) \<le> x t" by (simp add: x_def)
  qed
  have xpos: "0 < x t" if "t \<in> set hs" for t
    using apos [OF that] Tpos by (simp add: x_def)
  have p23: "d ^ (2 * n + 3) = d * (d ^ (n + 1) * d ^ (n + 1))"
  proof -
    have "2 * n + 3 = 1 + ((n + 1) + (n + 1))" by simp
    then show ?thesis by (simp only: power_add power_one_right)
  qed
  have p33: "d ^ (3 * n + 3) = d ^ n * d ^ (2 * n + 3)"
  proof -
    have "3 * n + 3 = n + (2 * n + 3)" by simp
    then show ?thesis by (simp only: power_add)
  qed
  have gb: "d ^ (2 * n + 3) * (x t * x t) \<le> g t" "g t * d ^ (2 * n + 3) \<le> x t * x t"
      "2 powi (- 1022) \<le> g t" if "t \<in> set hs" for t
  proof -
    note s3 = sb(3) [OF that] and sp = spos [OF that] and xp = xpos [OF that]
    have "(2::rat) powi (- 704) = 2 powi (- 352) * 2 powi (- 352)"
      by (simp flip: power_int_add)
    also have "\<dots> \<le> s t * s t" by (intro mult_mono s3) (use sp in simp_all)
    finally have ss: "2 powi (- 704) \<le> s t * s t" .
    have "(2::rat) powi (- 1022) \<le> 2 powi (- 704)" by (intro power_int_increasing) simp_all
    then have "2 powi (- 1022) \<le> s t * s t" using ss by linarith
    note Rg0 = toDouble_bounds [OF this, folded u_def, folded d_def]
    have Rg: "d * (s t * s t) \<le> g t" "g t * d \<le> s t * s t" using Rg0 by (simp_all add: g_def)
    have "(2::rat) powi (- 705) = 1/2 * 2 powi (- 704)" by (simp add: power_int_minus)
    also have "\<dots> \<le> d * (s t * s t)" using d(1) ss by (intro mult_mono) simp_all
    finally have "2 powi (- 705) \<le> g t" using Rg(1) by linarith
    then show "2 powi (- 1022) \<le> g t" using m0 by linarith
    have lo: "0 \<le> d ^ (n + 1) * x t" using dk(1) [of "n + 1"] xp by (intro mult_nonneg_nonneg) simp_all
    have "d ^ (2 * n + 3) * (x t * x t) = d * ((d ^ (n + 1) * x t) * (d ^ (n + 1) * x t))"
      unfolding p23 by (simp only: mult_ac)
    also have "\<dots> \<le> d * (s t * s t)"
      by (intro mult_left_mono mult_mono sx(1) [OF that] lo d(3)) (use sp in simp)
    also have "\<dots> \<le> g t" using Rg(1) by simp
    finally show "d ^ (2 * n + 3) * (x t * x t) \<le> g t" .
    have "g t * d ^ (2 * n + 3) = (g t * d) * ((d ^ (n + 1)) * (d ^ (n + 1)))"
      unfolding p23 by (simp only: mult_ac)
    also have "\<dots> \<le> (s t * s t) * ((d ^ (n + 1)) * (d ^ (n + 1)))"
      by (intro mult_right_mono Rg(2)) (simp add: dk(1))
    also have "\<dots> = (s t * d ^ (n + 1)) * (s t * d ^ (n + 1))" by (simp only: mult_ac)
    also have "\<dots> \<le> x t * x t"
    proof -
      have "0 \<le> s t * d ^ (n + 1)" using sp dk(1) [of "n + 1"]
        by (intro mult_nonneg_nonneg) simp_all
      moreover have "0 \<le> x t" using xp by simp
      ultimately show ?thesis by (intro mult_mono sx(2) [OF that])
    qed
    finally show "g t * d ^ (2 * n + 3) \<le> x t * x t" .
  qed
  have G: "d ^ (2 * n + 3) * H \<le> sum_list (map g hs)" "sum_list (map g hs) * d ^ (2 * n + 3) \<le> H"
  proof -
    have "d ^ (2 * n + 3) * H = sum_list (map (\<lambda>t. d ^ (2 * n + 3) * (x t * x t)) hs)"
      unfolding H_def by (simp add: sum_list_const_mult)
    also have "\<dots> \<le> sum_list (map g hs)" by (rule sum_list_mono) (rule gb(1))
    finally show "d ^ (2 * n + 3) * H \<le> sum_list (map g hs)" .
    have "sum_list (map g hs) * d ^ (2 * n + 3) = sum_list (map (\<lambda>t. g t * d ^ (2 * n + 3)) hs)"
      by (simp add: sum_list_mult_const)
    also have "\<dots> \<le> H" unfolding H_def by (rule sum_list_mono) (rule gb(2))
    finally show "sum_list (map g hs) * d ^ (2 * n + 3) \<le> H" .
  qed
  have Rb: "d ^ n * sum_list (map g hs) \<le> R" "R * d ^ n \<le> sum_list (map g hs)"
    using roundedSum_bounds [of hs g] gb(3)
    by (simp_all add: R_def n_def d_def u_def)
  have Hb: "1 / of_nat n \<le> H" "H \<le> 1"
    using herfindahl_exact [OF ne, of a] apos
    by (simp_all add: H_def x_def T_def n_def)
  define D where "D = d ^ (3 * n + 3)"
  define dl where "dl = (of_nat (3 * n + 3) :: rat) * u"
  have D1: "1 - dl \<le> D" "D \<le> 1" "0 \<le> D" unfolding D_def dl_def
    by (rule bern, rule dk(2), rule dk(1))
  have dl: "0 \<le> dl" "dl \<le> 1/2"
  proof -
    show "0 \<le> dl" by (simp add: dl_def u)
    have "(of_nat (3 * n + 3) :: rat) = 3 * of_nat n + 3" by simp
    also have "\<dots> \<le> 3 * 2 ^ 32 + 3" using nn by simp
    finally have "dl \<le> (3 * 2 ^ 32 + 3) * u" unfolding dl_def by (intro mult_right_mono) (simp_all add: u)
    also have "\<dots> \<le> 1/2" by (simp add: u)
    finally show "dl \<le> 1/2" .
  qed
  have Dpos: "0 < D" using D1(1) dl(2) by linarith
  have H0: "0 \<le> H" using Hb(1) by (rule order_trans [rotated]) simp
  have low: "D * H \<le> R"
  proof -
    have "D * H = d ^ n * (d ^ (2 * n + 3) * H)" unfolding D_def p33 by (simp only: mult_ac)
    also have "\<dots> \<le> d ^ n * sum_list (map g hs)" by (intro mult_left_mono G(1) dk(1))
    also have "\<dots> \<le> R" by (rule Rb(1))
    finally show ?thesis .
  qed
  have up: "R * D \<le> H"
  proof -
    have "R * D = (R * d ^ n) * d ^ (2 * n + 3)" unfolding D_def p33 by (simp only: mult_ac)
    also have "\<dots> \<le> sum_list (map g hs) * d ^ (2 * n + 3)" by (intro mult_right_mono Rb(2) dk(1))
    also have "\<dots> \<le> H" by (rule G(2))
    finally show ?thesis .
  qed
  have eps: "of_nat (3 * n + 3) / 2 ^ 52 = 2 * dl" by (simp add: dl_def u)
  have herf: "roundedSum (\<lambda>t. toDouble (toDouble (toDouble (b t) / roundedSum (\<lambda>t. toDouble (b t)) hs)
                                  * toDouble (toDouble (b t) / roundedSum (\<lambda>t. toDouble (b t)) hs))) hs = R"
    by (simp only: R_def g_def s_def T'_def a_def)
  show "0 < roundedSum (\<lambda>t. toDouble (b t)) hs" using T'pos by (simp add: T'_def a_def)
  show "(1 - of_nat (3 * length hs + 3) / 2 ^ 52) / of_nat (length hs)
       \<le> roundedSum (\<lambda>t. toDouble (toDouble (toDouble (b t) / roundedSum (\<lambda>t. toDouble (b t)) hs)
                                  * toDouble (toDouble (b t) / roundedSum (\<lambda>t. toDouble (b t)) hs))) hs"
  proof -
    have "(1 - 2 * dl) / of_nat n \<le> (1 - dl) * (1 / of_nat n)" using dl(1) n1
      by (simp add: divide_right_mono)
    also have "\<dots> \<le> D * H" using D1(1) Hb(1) dl(2) by (intro mult_mono) simp_all
    also have "\<dots> \<le> R" by (rule low)
    finally show ?thesis unfolding herf n_def [symmetric] eps .
  qed
  show "roundedSum (\<lambda>t. toDouble (toDouble (toDouble (b t) / roundedSum (\<lambda>t. toDouble (b t)) hs)
                                  * toDouble (toDouble (b t) / roundedSum (\<lambda>t. toDouble (b t)) hs))) hs
       \<le> 1 + of_nat (3 * length hs + 3) / 2 ^ 52"
  proof -
    have R0: "0 \<le> R" using low D1(3) H0 by (meson mult_nonneg_nonneg order_trans)
    have "R * (1 - dl) \<le> R * D" using D1(1) R0 by (intro mult_left_mono)
    also have "\<dots> \<le> 1" using up Hb(2) by linarith
    finally have r: "R * (1 - dl) \<le> 1" .
    have "1 \<le> (1 + 2 * dl) * (1 - dl)"
    proof -
      have "(1 + 2 * dl) * (1 - dl) = 1 + dl * (1 - 2 * dl)" by (simp add: algebra_simps)
      moreover have "0 \<le> dl * (1 - 2 * dl)" using dl by (intro mult_nonneg_nonneg) simp_all
      ultimately show ?thesis by simp
    qed
    with r have "R * (1 - dl) \<le> (1 + 2 * dl) * (1 - dl)" by linarith
    moreover have "0 < 1 - dl" using dl(2) by linarith
    ultimately have "R \<le> 1 + 2 * dl" by (simp only: mult_le_cancel_right_pos)
    then show ?thesis unfolding herf n_def [symmetric] eps .
  qed
qed

lemma concentrationRisk_analyze:
  "concentrationRisk (analyzeTokenHoldings hs) =
     (if roundedSum (\<lambda>t. toDouble (balance t)) hs \<noteq> 0
      then Finite
        (roundedSum (\<lambda>t. toDouble (toDouble (toDouble (balance t) / roundedSum (\<lambda>t. toDouble (balance t)) hs)
                                  * toDouble (toDouble (balance t) / roundedSum (\<lambda>t. toDouble (balance t)) hs))) hs)
      else if hs = [] then Finite 0
      else if list_ex (\<lambda>t. toDouble (balance t) = 0) hs then NaN
      else PosInfinity)"
  by (simp only: analyzeTokenHoldings_def Let_def TokenAnalysis.select_convs roundedSum_def
        parseFloat_def)

lemma concentrationRisk_single:
  assumes "2 powi (- 1022) \<le> balance t"
  shows "concentrationRisk (analyzeTokenHoldings [t]) = Finite 1"
proof -
  define a where "a = toDouble (balance t)"
  have b: "0 < balance t" using assms by (rule less_le_trans [rotated]) simp
  have "0 < (1 - unitRoundoff) * balance t" using b by (simp add: unitRoundoff_def)
  then have a: "0 < a" using toDouble_bounds(1) [OF assms] unfolding a_def by linarith
  have idem: "toDouble a = a" unfolding a_def by (rule toDouble_idem) (use b in simp)
  have total: "roundedSum (\<lambda>t. toDouble (balance t)) [t] = a"
    by (simp add: roundedSum_def a_def [symmetric] idem)
  show ?thesis
    unfolding concentrationRisk_analyze total using a
    by (simp add: roundedSum_def a_def [symmetric] toDouble_one)
qed

lemma balance_holdingOf: "balance (holdingOf sy b) = b"
  by (simp add: holdingOf_def)

lemma balance_examples: "balance exampleUSDC = 300" "balance exampleDAI = 100"
  by (simp_all add: exampleUSDC_def exampleDAI_def)

lemma dblA_1: "toDouble (10000000000000000) = 10000000000000000"
  by (rule toDouble_cert [where k = "53" and m = "5000000000000000"]) simp_all

lemma dblA_2: "toDouble (2 / 1000) = 1152921504606847 / 2 ^ 59"
  by (rule toDouble_cert [where k = "-9" and m = "4611686018427388"]) simp_all

lemma dblA_3: "toDouble (0 + 10000000000000000) = 10000000000000000"
  by (rule toDouble_cert [where k = "53" and m = "5000000000000000"]) simp_all

lemma dblA_4: "toDouble (10000000000000000 + (1152921504606847 / 2 ^ 59)) = 10000000000000000"
  by (rule toDouble_cert [where k = "53" and m = "5000000000000000"]) simp_all

lemma dblA_5: "toDouble (10000000000000000 / 10000000000000000) = 1"
  by (rule toDouble_cert [where k = "0" and m = "4503599627370496"]) simp_all

lemma dblA_6: "toDouble (1 * 1) = 1"
  by (rule toDouble_cert [where k = "0" and m = "4503599627370496"]) simp_all

lemma dblA_7: "toDouble (0 + 1) = 1"
  by (rule toDouble_cert [where k = "0" and m = "4503599627370496"]) simp_all

lemma dblA_8: "toDouble ((1152921504606847 / 2 ^ 59) / 10000000000000000) = 2076918743413931 / 2 ^ 113"
  by (rule toDouble_cert [where k = "-63" and m = "8307674973655724"]) simp_all

lemma dblA_9: "toDouble ((2076918743413931 / 2 ^ 113) * (2076918743413931 / 2 ^ 113)) = 1915619426082361 / 2 ^ 175"
  by (rule toDouble_cert [where k = "-125" and m = "7662477704329444"]) simp_all

lemma dblA_10: "toDouble (1 + (1915619426082361 / 2 ^ 175)) = 1"
  by (rule toDouble_cert [where k = "0" and m = "4503599627370496"]) simp_all
lemma dblA_total:
  "roundedSum (\<lambda>t. toDouble (balance t)) [holdingOf ''USDT'' 10000000000000000, holdingOf ''USDC'' (2 / 1000)] = 10000000000000000"
  by (simp only: roundedSum_def foldl.simps balance_holdingOf dblA_1 dblA_2 dblA_3 dblA_4 dblA_5 dblA_6 dblA_7 dblA_8 dblA_9 dblA_10)

lemma dblA_risk:
  "concentrationRisk (analyzeTokenHoldings [holdingOf ''USDT'' 10000000000000000, holdingOf ''USDC'' (2 / 1000)]) = Finite (1)"
proof -
  have nz: "(10000000000000000 :: rat) \<noteq> 0" by simp
  show ?thesis
    unfolding concentrationRisk_analyze dblA_total
    by (simp only: nz not_False_eq_True if_True roundedSum_def foldl.simps balance_holdingOf dblA_1 dblA_2 dblA_3 dblA_4 dblA_5 dblA_6 dblA_7 dblA_8 dblA_9 dblA_10)
qed

lemma dblB_1: "toDouble (3 / 10) = 5404319552844595 / 2 ^ 54"
  by (rule toDouble_cert [where k = "-2" and m = "5404319552844595"]) simp_all

lemma dblB_2: "toDouble (0 + (5404319552844595 / 2 ^ 54)) = 5404319552844595 / 2 ^ 54"
  by (rule toDouble_cert [where k = "-2" and m = "5404319552844595"]) simp_all

lemma dblB_3: "toDouble (5404319552844595 / 2 ^ 54 + (5404319552844595 / 2 ^ 54)) = 5404319552844595 / 2 ^ 53"
  by (rule toDouble_cert [where k = "-1" and m = "5404319552844595"]) simp_all

lemma dblB_4: "toDouble (5404319552844595 / 2 ^ 53 + (5404319552844595 / 2 ^ 54)) = 2026619832316723 / 2 ^ 51"
  by (rule toDouble_cert_tie [where k = "-1" and n = "8106479329266892"]) simp_all

lemma dblB_5: "toDouble (2026619832316723 / 2 ^ 51 + (5404319552844595 / 2 ^ 54)) = 5404319552844595 / 2 ^ 52"
  by (rule toDouble_cert [where k = "0" and m = "5404319552844595"]) simp_all

lemma dblB_6: "toDouble (5404319552844595 / 2 ^ 52 + (5404319552844595 / 2 ^ 54)) = 3 / 2"
  by (rule toDouble_cert [where k = "0" and m = "6755399441055744"]) simp_all

lemma dblB_7: "toDouble ((5404319552844595 / 2 ^ 54) / (3 / 2)) = 7205759403792793 / 2 ^ 55"
  by (rule toDouble_cert [where k = "-3" and m = "7205759403792793"]) simp_all

lemma dblB_8: "toDouble ((7205759403792793 / 2 ^ 55) * (7205759403792793 / 2 ^ 55)) = 2882303761517117 / 2 ^ 56"
  by (rule toDouble_cert [where k = "-5" and m = "5764607523034234"]) simp_all

lemma dblB_9: "toDouble (0 + (2882303761517117 / 2 ^ 56)) = 2882303761517117 / 2 ^ 56"
  by (rule toDouble_cert [where k = "-5" and m = "5764607523034234"]) simp_all

lemma dblB_10: "toDouble (2882303761517117 / 2 ^ 56 + (2882303761517117 / 2 ^ 56)) = 2882303761517117 / 2 ^ 55"
  by (rule toDouble_cert [where k = "-4" and m = "5764607523034234"]) simp_all

lemma dblB_11: "toDouble (2882303761517117 / 2 ^ 55 + (2882303761517117 / 2 ^ 56)) = 8646911284551351 / 2 ^ 56"
  by (rule toDouble_cert [where k = "-4" and m = "8646911284551351"]) simp_all

lemma dblB_12: "toDouble (8646911284551351 / 2 ^ 56 + (2882303761517117 / 2 ^ 56)) = 2882303761517117 / 2 ^ 54"
  by (rule toDouble_cert [where k = "-3" and m = "5764607523034234"]) simp_all

lemma dblB_13: "toDouble (2882303761517117 / 2 ^ 54 + (2882303761517117 / 2 ^ 56)) = 900719925474099 / 2 ^ 52"
  by (rule toDouble_cert_tie [where k = "-3" and n = "7205759403792792"]) simp_all
lemma dblB_total:
  "roundedSum (\<lambda>t. toDouble (balance t)) [holdingOf ''USDC'' (3 / 10), holdingOf ''USDT'' (3 / 10), holdingOf ''DAI'' (3 / 10), holdingOf ''UNI'' (3 / 10), holdingOf ''stETH'' (3 / 10)] = 3 / 2"
  by (simp only: roundedSum_def foldl.simps balance_holdingOf dblB_1 dblB_2 dblB_3 dblB_4 dblB_5 dblB_6 dblB_7 dblB_8 dblB_9 dblB_10 dblB_11 dblB_12 dblB_13)

lemma dblB_risk:
  "concentrationRisk (analyzeTokenHoldings [holdingOf ''USDC'' (3 / 10), holdingOf ''USDT'' (3 / 10), holdingOf ''DAI'' (3 / 10), holdingOf ''UNI'' (3 / 10), holdingOf ''stETH'' (3 / 10)]) = Finite (900719925474099 / 2 ^ 52)"
proof -
  have nz: "(3 / 2 :: rat) \<noteq> 0" by simp
  show ?thesis
    unfolding concentrationRisk_analyze dblB_total
    by (simp only: nz not_False_eq_True if_True roundedSum_def foldl.simps balance_holdingOf dblB_1 dblB_2 dblB_3 dblB_4 dblB_5 dblB_6 dblB_7 dblB_8 dblB_9 dblB_10 dblB_11 dblB_12 dblB_13)
qed

lemma dblW_1: "toDouble (300) = 300"
  by (rule toDouble_cert [where k = "8" and m = "5277655813324800"]) simp_all

lemma dblW_2: "toDouble (100) = 100"
  by (rule toDouble_cert [where k = "6" and m = "7036874417766400"]) simp_all

lemma dblW_3: "toDouble (0 + 300) = 300"
  by (rule toDouble_cert [where k = "8" and m = "5277655813324800"]) simp_all

lemma dblW_4: "toDouble (300 + 100) = 400"
  by (rule toDouble_cert [where k = "8" and m = "7036874417766400"]) simp_all

lemma dblW_5: "toDouble (300 / 400) = 3 / 2 ^ 2"
  by (rule toDouble_cert [where k = "-1" and m = "6755399441055744"]) simp_all

lemma dblW_6: "toDouble ((3 / 2 ^ 2) * (3 / 2 ^ 2)) = 9 / 2 ^ 4"
  by (rule toDouble_cert [where k = "-1" and m = "5066549580791808"]) simp_all

lemma dblW_7: "toDouble (0 + (9 / 2 ^ 4)) = 9 / 2 ^ 4"
  by (rule toDouble_cert [where k = "-1" and m = "5066549580791808"]) simp_all

lemma dblW_8: "toDouble (100 / 400) = 1 / 2 ^ 2"
  by (rule toDouble_cert [where k = "-2" and m = "4503599627370496"]) simp_all

lemma dblW_9: "toDouble ((1 / 2 ^ 2) * (1 / 2 ^ 2)) = 1 / 2 ^ 4"
  by (rule toDouble_cert [where k = "-4" and m = "4503599627370496"]) simp_all

lemma dblW_10: "toDouble (9 / 2 ^ 4 + (1 / 2 ^ 4)) = 5 / 2 ^ 3"
  by (rule toDouble_cert [where k = "-1" and m = "5629499534213120"]) simp_all
lemma dblW_total:
  "roundedSum (\<lambda>t. toDouble (balance t)) [exampleUSDC, exampleDAI] = 400"
  by (simp only: roundedSum_def foldl.simps balance_examples dblW_1 dblW_2 dblW_3 dblW_4 dblW_5 dblW_6 dblW_7 dblW_8 dblW_9 dblW_10)

lemma dblW_risk:
  "concentrationRisk (analyzeTokenHoldings [exampleUSDC, exampleDAI]) = Finite (5 / 2 ^ 3)"
proof -
  have nz: "(400 :: rat) \<noteq> 0" by simp
  show ?thesis
    unfolding concentrationRisk_analyze dblW_total
    by (simp only: nz not_False_eq_True if_True roundedSum_def foldl.simps balance_examples dblW_1 dblW_2 dblW_3 dblW_4 dblW_5 dblW_6 dblW_7 dblW_8 dblW_9 dblW_10)
qed

text \<open>
  C5 (Herfindahl bounds), as the code has it. The concentration risk is computed in
  double precision, so it lies in \<open>[1/n, 1]\<close> only up to rounding. For a non-empty list
  of \<open>n\<close> holdings (at most \<open>2\<^sup>3\<^sup>2\<close>, the longest array) whose balances are
  between \<open>10\<^sup>-\<^sup>1\<^sup>8\<close> and \<open>2\<^sup>2\<^sup>5\<^sup>6\<close>, as \<open>formatUnits\<close> produces them from a
  positive \<open>uint256\<close> amount with at most 18 decimals, the value is a finite number
  between \<open>(1 - \<epsilon>) / n\<close> and \<open>1 + \<epsilon>\<close>, where \<open>\<epsilon> = (3 n + 3) \<sqdot> 2\<^sup>-\<^sup>5\<^sup>2\<close>. For a single
  holding it is exactly 1; the converse does not hold.
\<close>

theorem herfindahl_bounds:
  assumes ne: "hs \<noteq> []"
      and range: "\<forall>t\<in>set hs. 1 / 10 ^ 18 \<le> balance t \<and> balance t \<le> 2 ^ 256"
      and len: "length hs \<le> 2 ^ 32"
  shows "\<exists>h. concentrationRisk (analyzeTokenHoldings hs) = Finite h
           \<and> (1 - of_nat (3 * length hs + 3) / 2 ^ 52) / of_nat (length hs) \<le> h
           \<and> h \<le> 1 + of_nat (3 * length hs + 3) / 2 ^ 52
           \<and> (length hs = 1 \<longrightarrow> h = 1)"
proof -
  have lo: "(2::rat) powi (- 60) \<le> 1 / 10 ^ 18" by (simp add: power_int_minus)
  have r: "\<forall>t\<in>set hs. 2 powi (- 60) \<le> balance t \<and> balance t \<le> 2 ^ 256"
    using range lo by (meson order_trans)
  note B = rounded_herfindahl_bounds [OF ne r len]
  have nz: "roundedSum (\<lambda>t. toDouble (balance t)) hs \<noteq> 0" using B(1) by simp
  define h where "h = roundedSum (\<lambda>t. toDouble (toDouble (toDouble (balance t) / roundedSum (\<lambda>t. toDouble (balance t)) hs)
                                  * toDouble (toDouble (balance t) / roundedSum (\<lambda>t. toDouble (balance t)) hs))) hs"
  have cr: "concentrationRisk (analyzeTokenHoldings hs) = Finite h"
    unfolding concentrationRisk_analyze h_def using nz by simp
  have one: "h = 1" if "length hs = 1"
  proof -
    from that obtain t where t: "hs = [t]" by (cases hs) auto
    have "(2::rat) powi (- 1022) \<le> 2 powi (- 60)" by (intro power_int_increasing) simp_all
    then have "2 powi (- 1022) \<le> balance t" using r t by (auto intro: order_trans)
    from concentrationRisk_single [OF this] cr show ?thesis by (simp add: t)
  qed
  show ?thesis using cr B(2,3) one unfolding h_def [symmetric] by blast
qed

theorem herfindahl_bounds_witness:
  "[exampleUSDC, exampleDAI] \<noteq> []
   \<and> 1 / 10 ^ 18 \<le> balance exampleUSDC \<and> balance exampleUSDC \<le> 2 ^ 256
   \<and> 1 / 10 ^ 18 \<le> balance exampleDAI \<and> balance exampleDAI \<le> 2 ^ 256
   \<and> length [exampleUSDC, exampleDAI] \<le> 2 ^ 32
   \<and> concentrationRisk (analyzeTokenHoldings [exampleUSDC, exampleDAI]) = Finite (5 / 2 ^ 3)
   \<and> (1 - of_nat (3 * length [exampleUSDC, exampleDAI] + 3) / 2 ^ 52)
        / of_nat (length [exampleUSDC, exampleDAI]) \<le> (5 / 2 ^ 3 :: rat)
   \<and> (5 / 2 ^ 3 :: rat) \<le> 1 + of_nat (3 * length [exampleUSDC, exampleDAI] + 3) / 2 ^ 52"
proof -
  have ne: "[exampleUSDC, exampleDAI] \<noteq> []" by simp
  have b: "1 / 10 ^ 18 \<le> balance exampleUSDC" "balance exampleUSDC \<le> 2 ^ 256"
    "1 / 10 ^ 18 \<le> balance exampleDAI" "balance exampleDAI \<le> 2 ^ 256"
    by (simp_all add: balance_examples)
  then have range: "\<forall>t\<in>set [exampleUSDC, exampleDAI]. 1 / 10 ^ 18 \<le> balance t \<and> balance t \<le> 2 ^ 256"
    by simp
  have len: "length [exampleUSDC, exampleDAI] \<le> 2 ^ 32" by simp
  from herfindahl_bounds [OF ne range len] obtain h where
    h: "concentrationRisk (analyzeTokenHoldings [exampleUSDC, exampleDAI]) = Finite h"
      "(1 - of_nat (3 * length [exampleUSDC, exampleDAI] + 3) / 2 ^ 52)
         / of_nat (length [exampleUSDC, exampleDAI]) \<le> h"
      "h \<le> 1 + of_nat (3 * length [exampleUSDC, exampleDAI] + 3) / 2 ^ 52"
    by blast
  from h(1) have "h = 5 / 2 ^ 3" unfolding dblW_risk by simp
  with h ne b len show ?thesis unfolding dblW_risk by blast
qed

text \<open>
  The claim as first stated fails in both directions. Five holdings of 0.3 units each
  have a concentration risk of 0.19999999999999996, below \<open>1/5\<close>; the two positive
  balances \<open>10\<^sup>1\<^sup>6\<close> and 0.002 have a concentration risk of exactly 1.
\<close>

theorem herfindahl_exact_counterexample:
  "length [holdingOf ''USDC'' (3 / 10), holdingOf ''USDT'' (3 / 10), holdingOf ''DAI'' (3 / 10),
           holdingOf ''UNI'' (3 / 10), holdingOf ''stETH'' (3 / 10)] = 5
   \<and> 0 < balance (holdingOf ''USDC'' (3 / 10))
   \<and> concentrationRisk (analyzeTokenHoldings
        [holdingOf ''USDC'' (3 / 10), holdingOf ''USDT'' (3 / 10), holdingOf ''DAI'' (3 / 10),
         holdingOf ''UNI'' (3 / 10), holdingOf ''stETH'' (3 / 10)])
       = Finite (900719925474099 / 2 ^ 52)
   \<and> (900719925474099 / 2 ^ 52 :: rat) < 1 / 5
   \<and> length [holdingOf ''USDT'' 10000000000000000, holdingOf ''USDC'' (2 / 1000)] = 2
   \<and> 0 < balance (holdingOf ''USDT'' 10000000000000000)
   \<and> 0 < balance (holdingOf ''USDC'' (2 / 1000))
   \<and> concentrationRisk (analyzeTokenHoldings
        [holdingOf ''USDT'' 10000000000000000, holdingOf ''USDC'' (2 / 1000)]) = Finite 1"
  unfolding dblA_risk dblB_risk by (simp add: balance_holdingOf)

subsection \<open>Staking strategy\<close>

lemma recommendedAllocation_strategy:
  "recommendedAllocation (generateStakingStrategy rp liq totalBal isTest) =
     (if isTest \<and> totalBal > 1/100 then 40
      else if \<not> isTest then fst (tierStrategy (riskTolerance rp) (liquidityRatio liq))
      else 0)"
  by (simp add: generateStakingStrategy_def Let_def split_beta)

lemma recommendedAllocation_strategy_v1:
  "recommendedAllocation (generateStakingStrategy_v1 rp liq totalBal) =
     (if totalBal < 1 then max (fst (tierStrategy (riskTolerance rp) (liquidityRatio liq)) - 20) 10
      else if totalBal > 50 then min (fst (tierStrategy (riskTolerance rp) (liquidityRatio liq)) + 10) 90
      else fst (tierStrategy (riskTolerance rp) (liquidityRatio liq)))"
  by (simp add: generateStakingStrategy_v1_def Let_def split_beta)

lemma tierStrategy_le_90: "fst (tierStrategy tol r) \<le> 90"
  by (cases tol) (simp_all add: tierStrategy_def)

lemma tierStrategy_nonneg: "r \<le> 1 \<Longrightarrow> 0 \<le> fst (tierStrategy tol r)"
  by (cases tol) (simp_all add: tierStrategy_def)

lemma liquidityRatio_assess:
  "liquidityRatio (assessLiquidityProfile hs nativeBal) =
     of_nat (length (filter (\<lambda>t. symbol t \<in> set [''USDC'', ''USDT'', ''DAI'', ''WETH''] \<and> balance t > 0) hs))
       / of_nat (max (length hs) 1)"
  by (simp only: assessLiquidityProfile_def Let_def LiquidityProfile.select_convs)

lemma liquidityRatio_le_1: "liquidityRatio (assessLiquidityProfile hs nativeBal) \<le> 1"
proof -
  have "length (filter (\<lambda>t. symbol t \<in> set [''USDC'', ''USDT'', ''DAI'', ''WETH''] \<and> balance t > 0) hs)
          \<le> max (length hs) 1"
    using length_filter_le [of _ hs] by (meson le_max_iff_disj order_trans)
  then have "(of_nat (length (filter (\<lambda>t. symbol t \<in> set [''USDC'', ''USDT'', ''DAI'', ''WETH''] \<and> balance t > 0) hs)) :: rat)
          \<le> of_nat (max (length hs) 1)"
    by (rule of_nat_mono)
  moreover have "(0::rat) < of_nat (max (length hs) 1)" by simp
  ultimately show ?thesis
    unfolding liquidityRatio_assess by (simp only: divide_le_eq_1_pos)
qed

text \<open>
  C7 (portfolio-size adjustment), as the code has it. The earlier analyzer adjusts the
  tier's base allocation by portfolio size: below 1 unit it becomes
  \<open>max (base - 20) 10\<close>, above 50 units \<open>min (base + 10) 90\<close>, otherwise it is the
  base. The analyzer with testnet support applies no size adjustment: on mainnet the
  allocation is the tier's base, on testnet it is 40 when the total exceeds 0.01 and 0
  otherwise. With a liquidity ratio of at most 1 every one of these allocations lies
  in \<open>[0, 100]\<close>.
\<close>

theorem allocation_adjustment:
  assumes "liquidityRatio liq \<le> 1"
  shows "recommendedAllocation (generateStakingStrategy_v1 rp liq totalBal) =
           (if totalBal < 1
            then max (fst (tierStrategy (riskTolerance rp) (liquidityRatio liq)) - 20) 10
            else if totalBal > 50
            then min (fst (tierStrategy (riskTolerance rp) (liquidityRatio liq)) + 10) 90
            else fst (tierStrategy (riskTolerance rp) (liquidityRatio liq)))
       \<and> 0 \<le> recommendedAllocation (generateStakingStrategy_v1 rp liq totalBal)
       \<and> recommendedAllocation (generateStakingStrategy_v1 rp liq totalBal) \<le> 100
       \<and> recommendedAllocation (generateStakingStrategy rp liq totalBal False) =
           fst (tierStrategy (riskTolerance rp) (liquidityRatio liq))
       \<and> recommendedAllocation (generateStakingStrategy rp liq totalBal True) =
           (if totalBal > 1/100 then 40 else 0)
       \<and> 0 \<le> recommendedAllocation (generateStakingStrategy rp liq totalBal isTest)
       \<and> recommendedAllocation (generateStakingStrategy rp liq totalBal isTest) \<le> 100"
proof -
  let ?b = "fst (tierStrategy (riskTolerance rp) (liquidityRatio liq))"
  have b: "0 \<le> ?b" "?b \<le> 90"
    using tierStrategy_nonneg [OF assms] tierStrategy_le_90 by simp_all
  have v1: "0 \<le> recommendedAllocation (generateStakingStrategy_v1 rp liq totalBal)"
      "recommendedAllocation (generateStakingStrategy_v1 rp liq totalBal) \<le> 100"
    unfolding recommendedAllocation_strategy_v1 using b by (simp_all add: max_def min_def)
  have v2: "0 \<le> recommendedAllocation (generateStakingStrategy rp liq totalBal isTest)"
      "recommendedAllocation (generateStakingStrategy rp liq totalBal isTest) \<le> 100"
    unfolding recommendedAllocation_strategy using b by simp_all
  show ?thesis
    using v1 v2 by (simp add: recommendedAllocation_strategy recommendedAllocation_strategy_v1)
qed

theorem allocation_adjustment_witness:
  "liquidityRatio exampleLiquidity \<le> 1
   \<and> recommendedAllocation (generateStakingStrategy_v1 exampleRiskProfile exampleLiquidity (1/2)) = 40
   \<and> recommendedAllocation (generateStakingStrategy exampleRiskProfile exampleLiquidity (1/2) False) = 60"
proof -
  have h: "liquidityRatio exampleLiquidity \<le> 1" by (simp add: exampleLiquidity_def)
  have b: "fst (tierStrategy (riskTolerance exampleRiskProfile) (liquidityRatio exampleLiquidity)) = 60"
    by (simp add: tierStrategy_def exampleRiskProfile_def exampleLiquidity_def)
  show ?thesis
    using h allocation_adjustment [OF h, of exampleRiskProfile "1/2" False] by (simp add: b)
qed

lemma example_profiles:
  "assessComprehensiveRisk (1/2) [] (analyzeTokenHoldings []) = exampleRiskProfile"
  "assessLiquidityProfile [] (1/2) = exampleLiquidity"
  by (simp_all add: assessComprehensiveRisk_def analyzeTokenHoldings_def Let_def
        mapRiskScoreToTolerance_def getMaxPositionRatio_def calculateLockPeriodTolerance_def
        calculateLiquidityRisk_def assessLiquidityProfile_def exampleRiskProfile_def
        exampleLiquidity_def)

lemma liquid_only:
  "liquidityRatio (assessLiquidityProfile [exampleUSDC] (1/2)) = 1"
  by (simp add: liquidityRatio_assess exampleUSDC_def)

lemma stable_only:
  "riskTolerance (assessComprehensiveRisk (1/2) [exampleUSDC] (analyzeTokenHoldings [exampleUSDC]))
     = AGGRESSIVE"
proof -
  have "(2::rat) powi (- 1022) \<le> 1" by (simp add: power_int_minus inverse_eq_divide)
  then have "2 powi (- 1022) \<le> balance exampleUSDC" by (simp add: balance_examples)
  from concentrationRisk_single [OF this] show ?thesis
    by (simp add: riskTolerance_assess riskScore_unfold stablecoins_analyze sizeAdjust_def
          stableAdjust_def mapRiskScoreToTolerance_def exampleUSDC_def)
qed

text \<open>
  The claim as first stated fails on both analyzers. With testnet support, a total of
  0.5 units (below 1) leaves the allocation at the tier's base, 60. In the earlier
  analyzer, a portfolio of one stablecoin holding has a liquidity ratio of 1, hence a
  base allocation of 0, and a total below 1 raises it to 10.
\<close>

theorem allocation_adjustment_counterexample:
  "(1/2 :: rat) < 1
   \<and> \<not> recommendedAllocation (generateStakingStrategy exampleRiskProfile exampleLiquidity (1/2) False)
        < fst (tierStrategy (riskTolerance exampleRiskProfile) (liquidityRatio exampleLiquidity))
   \<and> fst (tierStrategy
        (riskTolerance (assessComprehensiveRisk (1/2) [exampleUSDC] (analyzeTokenHoldings [exampleUSDC])))
        (liquidityRatio (assessLiquidityProfile [exampleUSDC] (1/2)))) = 0
   \<and> recommendedAllocation
        (generateStakingStrategy_v1
           (assessComprehensiveRisk (1/2) [exampleUSDC] (analyzeTokenHoldings [exampleUSDC]))
           (assessLiquidityProfile [exampleUSDC] (1/2)) (1/2)) = 10"
  by (simp add: recommendedAllocation_strategy recommendedAllocation_strategy_v1 liquid_only
        stable_only tierStrategy_def)


subsection \<open>Recommendation generator\<close>

lemma toFixed6_upper:
  assumes "0 \<le> x"
  shows "toFixed6 x \<le> x + 1/2000000"
proof -
  have "of_int \<lfloor>x * 1000000 + 1/2\<rfloor> \<le> x * 1000000 + 1/2" by (rule of_int_floor_le)
  then have "of_int \<lfloor>x * 1000000 + 1/2\<rfloor> / 1000000 \<le> (x * 1000000 + 1/2) / 1000000"
    by (simp add: divide_right_mono)
  then show ?thesis using assms by (simp add: toFixed6_def add_divide_distrib)
qed

lemma toFixed6_lower:
  assumes "0 \<le> x" "of_int k / 1000000 \<le> x"
  shows "of_int k / 1000000 \<le> toFixed6 x"
proof -
  have "of_int k \<le> x * 1000000" using assms(2) by (simp add: divide_le_eq)
  then have "of_int k \<le> x * 1000000 + 1/2" by linarith
  then have "k \<le> \<lfloor>x * 1000000 + 1/2\<rfloor>" by (simp add: le_floor_iff)
  then have "(of_int k :: rat) \<le> of_int \<lfloor>x * 1000000 + 1/2\<rfloor>" by simp
  then have "(of_int k :: rat) / 1000000 \<le> of_int \<lfloor>x * 1000000 + 1/2\<rfloor> / 1000000"
    by (simp add: divide_right_mono)
  then show ?thesis using assms(1) by (simp add: toFixed6_def)
qed

lemma map_filter_mem:
  "r \<in> set (List.map_filter f xs) \<longleftrightarrow> (\<exists>x\<in>set xs. f x = Some r)"
  by (induction xs) (auto split: option.splits)

lemma ethRecommendation_bounds:
  assumes some: "ethRecommendation testnetOnly strategy (c, b) = Some r"
      and alloc: "recommendedAllocation strategy \<le> 90"
  shows "token r = ''ETH'' \<and> recIsTestnet r = isTestnetChain c \<and> isTestnetChain c = testnetOnly
       \<and> recommendedAmount r \<le> b
       \<and> (if testnetOnly then 5/1000 else 5/100) \<le> recommendedAmount r"
proof (cases "isTestnetChain c")
  case True
  let ?a = "b * (4/10)"
  from some True have t: "testnetOnly" and b: "b > 1/100" and a: "5/1000 \<le> ?a"
    and r: "recommendedAmount r = toFixed6 ?a" "token r = ''ETH''" "recIsTestnet r = True"
    by (auto simp: ethRecommendation_def Let_def split: if_splits)
  have a0: "0 \<le> ?a" using a by linarith
  have "toFixed6 ?a \<le> ?a + 1/2000000" by (rule toFixed6_upper [OF a0])
  then have up: "toFixed6 ?a \<le> b" using b by linarith
  have "of_int 5000 / 1000000 \<le> toFixed6 ?a"
    by (rule toFixed6_lower [OF a0]) (use a in simp)
  then have "5/1000 \<le> toFixed6 ?a" by simp
  then show ?thesis using True t r up by simp
next
  case False
  let ?a = "b * (recommendedAllocation strategy / 100)"
  from some False have t: "\<not> testnetOnly" and b: "b > 1/10" and a: "5/100 \<le> ?a"
    and r: "recommendedAmount r = toFixed6 ?a" "token r = ''ETH''" "recIsTestnet r = False"
    by (auto simp: ethRecommendation_def Let_def split: if_splits)
  have a0: "0 \<le> ?a" using a by linarith
  have "recommendedAllocation strategy / 100 \<le> 9/10" using alloc by simp
  then have "?a \<le> b * (9/10)" using b by (intro mult_left_mono) simp_all
  moreover have "toFixed6 ?a \<le> ?a + 1/2000000" by (rule toFixed6_upper [OF a0])
  ultimately have up: "toFixed6 ?a \<le> b" using b by linarith
  have "of_int 50000 / 1000000 \<le> toFixed6 ?a"
    by (rule toFixed6_lower [OF a0]) (use a in simp)
  then have "5/100 \<le> toFixed6 ?a" by simp
  then show ?thesis using False t r up by simp
qed

lemma tokenRecommendation_bounds:
  assumes some: "tokenRecommendation strategy t = Some r"
  shows "token r = symbol t \<and> recIsTestnet r = isTestnet t \<and> recommendedAmount r \<le> balance t"
proof -
  let ?a = "balance t * (7/10)"
  from some have b: "balance t > 1/10"
    and r: "recommendedAmount r = toFixed6 ?a" "token r = symbol t" "recIsTestnet r = isTestnet t"
    by (auto simp: tokenRecommendation_def Let_def split: if_splits)
  have a0: "0 \<le> ?a" using b by simp
  have "toFixed6 ?a \<le> ?a + 1/2000000" by (rule toFixed6_upper [OF a0])
  then have "toFixed6 ?a \<le> balance t" using b by linarith
  then show ?thesis using r by simp
qed

lemma isTestnetChain_mainnet: "isTestnetChain ''mainnet'' = False"
  by (simp add: isTestnetChain_def CHAIN_CONFIG_def)

lemma exampleStrategy_fields:
  "recommendedAllocation exampleStrategy = 60" "stRiskTolerance exampleStrategy = MODERATE"
  by (simp_all add: exampleStrategy_def generateStakingStrategy_def tierStrategy_def
        exampleRiskProfile_def exampleLiquidity_def)

lemma floor_rat_numeral:
  "\<lfloor>(numeral a :: rat) / numeral b\<rfloor> = numeral a div numeral b"
  using floor_divide_of_int_eq [of "numeral a" "numeral b", where ?'a = rat] by simp

lemma toFixed6_examples: "toFixed6 (12/10) = 12/10" "toFixed6 (384/10000) = 384/10000"
  by (simp_all add: toFixed6_def floor_rat_numeral)

lemma example_eth:
  "ethRecommendation False exampleStrategy (''mainnet'', 2) = Some exampleRecommendation"
  by (simp add: ethRecommendation_def Let_def isTestnetChain_mainnet exampleStrategy_fields
        ETH_STAKING_OPTIONS_def riskCompatible_def exampleRecommendation_def)
     (simp add: toFixed6_examples [simplified])

lemma example_recs:
  "generateRealStakingRecommendations [(''mainnet'', 2)] [] exampleStrategy exampleRiskProfile False
     = [exampleRecommendation]"
  by (simp add: generateRealStakingRecommendations_def example_eth)

lemma strategy_allocation_le_90:
  "recommendedAllocation (generateStakingStrategy rp liq totalBal isTest) \<le> 90"
  using tierStrategy_le_90 [of "riskTolerance rp" "liquidityRatio liq"]
  by (simp add: recommendedAllocation_strategy)

text \<open>
  C4 (recommendation amount bounds). Every recommendation emitted by
  \<open>generateRealStakingRecommendations\<close> under a strategy produced by
  \<open>generateStakingStrategy\<close> is either the native recommendation of some chain's
  balance entry, with an amount that is at most that chain's native balance and at
  least the floor (0.005 on testnet, 0.05 on mainnet), or the token recommendation of
  some holding, with an amount that is at most the held balance of that token.
\<close>

theorem recommendation_amount_bounds:
  assumes "r \<in> set (generateRealStakingRecommendations nb hs
                      (generateStakingStrategy rp liq totalBal testnetOnly) rp testnetOnly)"
  shows "(\<exists>(c, b) \<in> set nb.
            ethRecommendation testnetOnly
              (generateStakingStrategy rp liq totalBal testnetOnly) (c, b) = Some r
            \<and> token r = ''ETH'' \<and> isTestnetChain c = testnetOnly
            \<and> recommendedAmount r \<le> b
            \<and> (if testnetOnly then 5/1000 else 5/100) \<le> recommendedAmount r)
       \<or> (\<exists>t \<in> set hs.
            tokenRecommendation (generateStakingStrategy rp liq totalBal testnetOnly) t = Some r
            \<and> token r = symbol t \<and> recommendedAmount r \<le> balance t)"
proof -
  let ?s = "generateStakingStrategy rp liq totalBal testnetOnly"
  from assms have
    "r \<in> set (List.map_filter (ethRecommendation testnetOnly ?s) nb)
     \<or> r \<in> set (List.map_filter (tokenRecommendation ?s) (filter (stakeableToken testnetOnly) hs))"
    by (simp add: generateRealStakingRecommendations_def)
  then show ?thesis
  proof
    assume "r \<in> set (List.map_filter (ethRecommendation testnetOnly ?s) nb)"
    then obtain c b where cb: "(c, b) \<in> set nb" "ethRecommendation testnetOnly ?s (c, b) = Some r"
      by (auto simp: map_filter_mem)
    from ethRecommendation_bounds [OF cb(2) strategy_allocation_le_90] cb
    show ?thesis by blast
  next
    assume "r \<in> set (List.map_filter (tokenRecommendation ?s) (filter (stakeableToken testnetOnly) hs))"
    then obtain t where t: "t \<in> set hs" "tokenRecommendation ?s t = Some r"
      by (auto simp: map_filter_mem)
    from tokenRecommendation_bounds [OF t(2)] t show ?thesis by blast
  qed
qed

theorem recommendation_amount_bounds_witness:
  "exampleRecommendation \<in> set (generateRealStakingRecommendations [(''mainnet'', 2)] []
       (generateStakingStrategy exampleRiskProfile exampleLiquidity 2 False) exampleRiskProfile False)
   \<and> token exampleRecommendation = ''ETH''
   \<and> recommendedAmount exampleRecommendation \<le> 2
   \<and> 5/100 \<le> recommendedAmount exampleRecommendation"
proof -
  have mem: "exampleRecommendation \<in> set (generateRealStakingRecommendations [(''mainnet'', 2)] []
       (generateStakingStrategy exampleRiskProfile exampleLiquidity 2 False) exampleRiskProfile False)"
    using example_recs by (simp add: exampleStrategy_def)
  show ?thesis using mem recommendation_amount_bounds [OF mem] by simp
qed

subsection \<open>Balance aggregator\<close>

lemma completionOrder_mset: "mset (completionOrder arrival xs) = mset xs"
proof -
  have "mset (completionOrder arrival xs)
          = image_mset snd (mset (sort_key (\<lambda>p. arrival (fst p)) (enumerate 0 xs)))"
    by (simp add: completionOrder_def)
  also have "\<dots> = mset (map snd (enumerate 0 xs))" by (simp only: mset_sort mset_map)
  finally show ?thesis by (simp only: map_snd_enumerate)
qed

lemma completionOrder_set: "set (completionOrder arrival xs) = set xs"
  using completionOrder_mset [of arrival xs] by (metis set_mset_mset)

lemma completionOrder_length: "length (completionOrder arrival xs) = length xs"
  by (simp add: completionOrder_def)

lemma completionOrder_issue_order: "completionOrder (\<lambda>i. k) xs = xs"
  by (simp add: completionOrder_def sort_key_const)

lemma getTokenBalancesForChain_client:
  "getTokenBalancesForChain wp env addr c =
     (case clientFor wp env c of
        Inl e \<Rightarrow> Some (Inl e)
      | Inr client \<Rightarrow>
          if getBalance client addr = Hangs
             \<or> list_ex (\<lambda>tc. readContract client (tcAddress tc) addr = Hangs) (chainTokens c)
          then None
          else Some (Inr \<lparr> tbAddress = addr, tbChainName = c,
                nativeBalance = formatUnits (nativeWei client addr) 18,
                tokenHoldings = List.map_filter (tokenHoldingOf client addr c (isTestnetChain c))
                                  (completionOrder (tokenArrival env c) (chainTokens c)),
                tbIsTestnet = isTestnetChain c \<rparr>))"
  by (simp add: getTokenBalancesForChain_def clientFor_def nativeWei_def chainTokens_def Let_def
        split: sum.splits option.splits)

lemma chainHangs_iff:
  "getTokenBalancesForChain wp env addr c = None \<longleftrightarrow> chainHangs wp env addr c"
  unfolding getTokenBalancesForChain_client chainHangs_def by (auto split: sum.splits)

lemma formatUnits_nonneg: "0 \<le> formatUnits v d"
  by (simp add: formatUnits_def)

lemma formatUnits_pos_iff: "0 < formatUnits v d \<longleftrightarrow> 0 < v"
  by (simp add: formatUnits_def zero_less_divide_iff)

lemma tokenHoldingOf_Some:
  assumes "tokenHoldingOf client addr c isTest tc = Some t"
  shows "\<exists>v. readContract client (tcAddress tc) addr = Answer v
             \<and> balance t = formatUnits v (tcDecimals tc)
             \<and> (if isTest then 1/100000 else 1/1000) < balance t
             \<and> chainName t = c \<and> symbol t = tcSymbol tc \<and> address t = tcAddress tc
             \<and> isTestnet t = (tcIsTestnet tc \<or> isTest)"
  using assms
  by (auto simp: tokenHoldingOf_def Let_def split: reply.splits if_splits)

lemma snapshot_props:
  assumes "getTokenBalancesForChain wp env addr c = Some (Inr d)"
  shows "tbChainName d = c" "tbIsTestnet d = isTestnetChain c" "0 \<le> nativeBalance d"
    "t \<in> set (tokenHoldings d) \<Longrightarrow>
       \<exists>tc\<in>set (chainTokens c). \<exists>cl. clientFor wp env c = Inr cl
          \<and> tokenHoldingOf cl addr c (isTestnetChain c) tc = Some t"
proof -
  from assms obtain cl where cl: "clientFor wp env c = Inr cl"
    and d: "d = \<lparr> tbAddress = addr, tbChainName = c,
                nativeBalance = formatUnits (nativeWei cl addr) 18,
                tokenHoldings = List.map_filter (tokenHoldingOf cl addr c (isTestnetChain c))
                                  (completionOrder (tokenArrival env c) (chainTokens c)),
                tbIsTestnet = isTestnetChain c \<rparr>"
    unfolding getTokenBalancesForChain_client by (auto split: sum.splits if_splits)
  show "tbChainName d = c" "tbIsTestnet d = isTestnetChain c" "0 \<le> nativeBalance d"
    by (simp_all add: d formatUnits_nonneg)
  show "\<exists>tc\<in>set (chainTokens c). \<exists>cl. clientFor wp env c = Inr cl
          \<and> tokenHoldingOf cl addr c (isTestnetChain c) tc = Some t"
    if "t \<in> set (tokenHoldings d)"
    using that cl by (auto simp: d map_filter_mem completionOrder_set)
qed

lemma pushedSnapshot_Some:
  "pushedSnapshot wp env addr tn c = Some d \<longleftrightarrow>
     getTokenBalancesForChain wp env addr c = Some (Inr d)
     \<and> (tokenHoldings d \<noteq> [] \<or> nativeBalance d > 0 \<or> tn)"
  by (auto simp: pushedSnapshot_def split: option.splits sum.splits if_splits)

lemma map_filter_Cons:
  "List.map_filter f (x # xs) =
     (case f x of None \<Rightarrow> List.map_filter f xs | Some y \<Rightarrow> y # List.map_filter f xs)"
  by (simp add: List.map_filter_simps split: option.splits)

lemma collectChains_eq:
  "collectChains wp env addr tn cs =
     (if \<exists>c\<in>set cs. chainHangs wp env addr c then None
      else Some (List.map_filter (pushedSnapshot wp env addr tn) cs))"
proof (induction cs)
  case Nil
  then show ?case by (simp add: List.map_filter_simps)
next
  case (Cons c cs)
  show ?case
  proof (cases "getTokenBalancesForChain wp env addr c")
    case None
    then show ?thesis using chainHangs_iff [of wp env addr c] by simp
  next
    case (Some r)
    then have nh: "\<not> chainHangs wp env addr c" using chainHangs_iff [of wp env addr c] by simp
    show ?thesis
    proof (cases "\<exists>c\<in>set cs. chainHangs wp env addr c")
      case True
      then show ?thesis using Cons.IH Some by auto
    next
      case False
      then have IH: "collectChains wp env addr tn cs
                       = Some (List.map_filter (pushedSnapshot wp env addr tn) cs)"
        using Cons.IH by simp
      show ?thesis using False nh
        by (cases r) (simp_all add: Some IH map_filter_Cons pushedSnapshot_def)
    qed
  qed
qed

lemma collectChains_mem:
  assumes "collectChains wp env addr tn cs = Some tbs"
  shows "d \<in> set tbs \<longleftrightarrow>
     (\<exists>c\<in>set cs. getTokenBalancesForChain wp env addr c = Some (Inr d)
        \<and> (tokenHoldings d \<noteq> [] \<or> nativeBalance d > 0 \<or> tn))"
proof -
  from assms have "tbs = List.map_filter (pushedSnapshot wp env addr tn) cs"
    unfolding collectChains_eq by (simp split: if_splits)
  then show ?thesis by (auto simp: map_filter_mem pushedSnapshot_Some)
qed

lemma collectChains_hang:
  "collectChains wp env addr tn cs = None \<longleftrightarrow> (\<exists>c\<in>set cs. chainHangs wp env addr c)"
  unfolding collectChains_eq by simp

lemma getTestnetChains_eq:
  "getTestnetChains =
     [''sepolia'', ''holesky'', ''baseSepolia'', ''arbitrumSepolia'', ''polygonAmoy'', ''optimismSepolia'']"
  by (simp add: getTestnetChains_def CHAIN_CONFIG_def)

lemma isTestnetChain_iff: "isTestnetChain c \<longleftrightarrow> c \<in> set getTestnetChains"
  unfolding getTestnetChains_eq by (simp add: isTestnetChain_def CHAIN_CONFIG_def)

lemma testnet_chain_configured:
  "c \<in> set getTestnetChains \<Longrightarrow> \<exists>cfg. map_of CHAIN_CONFIG c = Some cfg"
  unfolding getTestnetChains_eq by (auto simp: CHAIN_CONFIG_def)

lemma clientFor_testnet:
  assumes "c \<in> set getTestnetChains"
  shows "\<exists>cl. clientFor wp env c = Inr cl"
  using testnet_chain_configured [OF assms]
  by (auto simp: clientFor_def createPublicClient_def split: option.splits)

lemma catalog_mem:
  "tc \<in> set (catalogTokens db c) \<Longrightarrow> tc \<in> set (concat (map snd db))"
proof -
  assume a: "tc \<in> set (catalogTokens db c)"
  then obtain ts where ts: "map_of db c = Some ts" "tc \<in> set ts"
    by (cases "map_of db c") (auto simp: catalogTokens_def)
  from map_of_SomeD [OF ts(1)] have "(c, ts) \<in> set db" .
  with ts(2) show ?thesis by force
qed

lemma mainnet_catalog_flags: "list_all (\<lambda>tc. \<not> tcIsTestnet tc) (concat (map snd TOKEN_DATABASE))"
  by (simp add: TOKEN_DATABASE_def)

lemma holding_testnet_flag:
  assumes "getTokenBalancesForChain wp env addr c = Some (Inr d)" "t \<in> set (tokenHoldings d)"
  shows "isTestnet t = isTestnetChain c" "chainName t = c" "dustThreshold c < balance t"
proof -
  from snapshot_props(4) [OF assms] obtain tc cl where
    tc: "tc \<in> set (chainTokens c)" and t: "tokenHoldingOf cl addr c (isTestnetChain c) tc = Some t"
    by blast
  from tokenHoldingOf_Some [OF t] show "chainName t = c" "dustThreshold c < balance t"
    by (auto simp: dustThreshold_def)
  show "isTestnet t = isTestnetChain c"
  proof (cases "isTestnetChain c")
    case True
    then show ?thesis using tokenHoldingOf_Some [OF t] by auto
  next
    case False
    then have "tc \<in> set (concat (map snd TOKEN_DATABASE))"
      using tc catalog_mem by (simp add: chainTokens_def)
    then have "\<not> tcIsTestnet tc" using mainnet_catalog_flags unfolding list_all_iff by blast
    then show ?thesis using False tokenHoldingOf_Some [OF t] by auto
  qed
qed

lemma getTokenBalances_miss:
  assumes "fst (Cache_get now (balancesCacheKey addr testnetOnly) bc) = None"
  shows "getTokenBalances wp env now addr testnetOnly bc =
     (case chainsToCheck wp testnetOnly of
        Inl e \<Rightarrow> (Some (Inl e), snd (Cache_get now (balancesCacheKey addr testnetOnly) bc))
      | Inr cs \<Rightarrow>
          (case collectChains wp env addr testnetOnly (completionOrder (chainArrival env) cs) of
             None \<Rightarrow> (None, snd (Cache_get now (balancesCacheKey addr testnetOnly) bc))
           | Some tokenBalances \<Rightarrow>
               (Some (Inr tokenBalances),
                Cache_set now (balancesCacheKey addr testnetOnly) tokenBalances
                  (snd (Cache_get now (balancesCacheKey addr testnetOnly) bc)))))"
  using assms
  by (cases "Cache_get now (balancesCacheKey addr testnetOnly) bc")
     (simp add: getTokenBalances_def split: sum.splits option.splits)

lemma no_holdings:
  assumes "\<forall>tok. readContract cl tok addr = Throws \<or> readContract cl tok addr = Answer 0"
  shows "List.map_filter (tokenHoldingOf cl addr c isTest) tcs = []"
proof -
  have "tokenHoldingOf cl addr c isTest tc = None" for tc
    using assms [rule_format, of "tcAddress tc"]
    by (auto simp: tokenHoldingOf_def split: reply.splits)
  then show ?thesis by (induction tcs) (simp_all add: map_filter_Cons List.map_filter_simps)
qed

lemma empty_snapshot:
  assumes "clientFor wp env c = Inr cl"
    "getBalance cl addr = Answer 0 \<or> getBalance cl addr = Throws"
    "\<forall>tok. readContract cl tok addr = Throws \<or> readContract cl tok addr = Answer 0"
  shows "getTokenBalancesForChain wp env addr c = Some (Inr (emptySnapshot addr c))"
proof -
  have nh: "\<not> list_ex (\<lambda>tc. readContract cl (tcAddress tc) addr = Hangs) (chainTokens c)"
  proof -
    have "readContract cl (tcAddress tc) addr \<noteq> Hangs" for tc
      using assms(3) [rule_format, of "tcAddress tc"] by auto
    then show ?thesis unfolding list_ex_iff by blast
  qed
  have nb: "getBalance cl addr \<noteq> Hangs" "nativeWei cl addr = 0"
    using assms(2) by (auto simp: nativeWei_def)
  show ?thesis
    unfolding getTokenBalancesForChain_client
    by (simp add: assms(1) nh nb no_holdings [OF assms(3)] emptySnapshot_def formatUnits_def)
qed

lemma Cache_get_new: "Cache_get now key (newCache t) = (None, newCache t)"
  by (simp add: Cache_get_def newCache_def)

lemma envOf_fields:
  "evmPrivateKey (envOf wp cl) = Some (replicate 64 (CHR ''a''))"
  "initWalletProvider (envOf wp cl) = Some (\<lambda>attempt. Inr wp)"
  "rpcClient (envOf wp cl) = (\<lambda>c. cl)"
  "chainArrival (envOf wp cl) = (\<lambda>i. 0)"
  "tokenArrival (envOf wp cl) = (\<lambda>c i. 0)"
  by (simp_all add: envOf_def)

lemma example_snapshots:
  "getTokenBalancesForChain exampleProvider exampleEnv addr c = Some (Inr (emptySnapshot addr c))"
  by (rule empty_snapshot [where cl = emptyClient])
     (simp_all add: clientFor_def exampleProvider_def emptyClient_def)

lemma funded_snapshot:
  "getTokenBalancesForChain mainnetProvider exampleEnv exampleAddress ''mainnet''
     = Some (Inr fundedSnapshot)"
proof -
  have cl: "clientFor mainnetProvider exampleEnv ''mainnet'' = Inr fundedClient"
    by (simp add: clientFor_def mainnetProvider_def)
  have nat: "formatUnits (nativeWei fundedClient exampleAddress) 18 = 2"
    by (simp add: nativeWei_def fundedClient_def formatUnits_def)
  have tok: "\<forall>tok. readContract fundedClient tok exampleAddress = Throws
                 \<or> readContract fundedClient tok exampleAddress = Answer 0"
    by (simp add: fundedClient_def)
  have nh: "\<not> list_ex (\<lambda>tc. readContract fundedClient (tcAddress tc) exampleAddress = Hangs)
                 (chainTokens ''mainnet'')"
    by (simp add: fundedClient_def list_ex_iff)
  have nb: "getBalance fundedClient exampleAddress \<noteq> Hangs" by (simp add: fundedClient_def)
  show ?thesis
    unfolding getTokenBalancesForChain_client
    by (simp add: cl nat nh nb no_holdings [OF tok] fundedSnapshot_def isTestnetChain_mainnet)
qed

lemma pushed_empty_testnet:
  assumes "getTokenBalancesForChain wp env addr c = Some (Inr (emptySnapshot addr c))"
  shows "pushedSnapshot wp env addr True c = Some (emptySnapshot addr c)"
  by (simp add: pushedSnapshot_def assms)

lemma pushed_empty_mainnet:
  assumes "getTokenBalancesForChain wp env addr c = Some (Inr (emptySnapshot addr c))
           \<or> (\<exists>e. getTokenBalancesForChain wp env addr c = Some (Inl e))"
  shows "pushedSnapshot wp env addr False c = None"
  using assms by (auto simp: pushedSnapshot_def emptySnapshot_def)

lemma map_filter_None:
  assumes "\<forall>x\<in>set xs. f x = None"
  shows "List.map_filter f xs = []"
  using assms by (induction xs) (simp_all add: map_filter_Cons List.map_filter_simps)

lemma map_filter_Some:
  assumes "\<forall>x\<in>set xs. f x = Some (g x)"
  shows "List.map_filter f xs = map g xs"
  using assms by (induction xs) (simp_all add: map_filter_Cons List.map_filter_simps)

lemma collectChains_empty:
  assumes "\<forall>c\<in>set cs. getTokenBalancesForChain wp env addr c = Some (Inr (emptySnapshot addr c))
                        \<or> (\<exists>e. getTokenBalancesForChain wp env addr c = Some (Inl e))"
  shows "collectChains wp env addr False cs = Some []"
proof -
  have "\<forall>c\<in>set cs. \<not> chainHangs wp env addr c"
    using assms chainHangs_iff [of wp env addr] by force
  moreover have "\<forall>c\<in>set cs. pushedSnapshot wp env addr False c = None"
    using assms pushed_empty_mainnet by blast
  ultimately show ?thesis
    unfolding collectChains_eq by (simp add: map_filter_None)
qed

lemma collectChains_empty_testnet:
  assumes "\<forall>c\<in>set cs. getTokenBalancesForChain wp env addr c = Some (Inr (emptySnapshot addr c))"
  shows "collectChains wp env addr True cs = Some (map (emptySnapshot addr) cs)"
proof -
  have "\<forall>c\<in>set cs. \<not> chainHangs wp env addr c"
    using assms chainHangs_iff [of wp env addr] by force
  moreover have "\<forall>c\<in>set cs. pushedSnapshot wp env addr True c = Some (emptySnapshot addr c)"
    using assms pushed_empty_testnet by blast
  ultimately show ?thesis
    unfolding collectChains_eq by (simp add: map_filter_Some)
qed

lemma example_testnet_balances:
  "getTokenBalances exampleProvider exampleEnv now addr True (newCache t) =
     (Some (Inr (map (emptySnapshot addr) getTestnetChains)),
      Cache_set now (balancesCacheKey addr True) (map (emptySnapshot addr) getTestnetChains)
        (newCache t))"
proof -
  have miss: "fst (Cache_get now (balancesCacheKey addr True) (newCache t :: TokenBalanceData list Cache)) = None"
    by (simp add: Cache_get_new)
  have order: "completionOrder (chainArrival exampleEnv) getTestnetChains = getTestnetChains"
    by (simp add: exampleEnv_def envOf_fields completionOrder_issue_order)
  have "collectChains exampleProvider exampleEnv addr True getTestnetChains
          = Some (map (emptySnapshot addr) getTestnetChains)"
    by (rule collectChains_empty_testnet) (simp add: example_snapshots)
  then show ?thesis
    unfolding getTokenBalances_miss [OF miss] by (simp add: chainsToCheck_def Cache_get_new order)
qed

subsection \<open>Wallet analysis orchestrator\<close>

lemma initWalletProviderWithRetry_first:
  "init 1 = Inr wp \<Longrightarrow> initWalletProviderWithRetry init = Inr wp"
  by (simp add: initWalletProviderWithRetry_def initWalletProviderLoop.simps)

lemma getTokenBalancesWithRetry_first:
  "getTokenBalances wp env now addr testnetOnly bc = (Some (Inr tbs), bc') \<Longrightarrow>
   getTokenBalancesWithRetry wp env now addr testnetOnly bc = (Inr tbs, bc')"
  by (simp add: getTokenBalancesWithRetry_def getTokenBalancesLoop.simps)

lemma Cache_get_cases:
  "Cache_get now key c = (None, c) \<and> cache c key = None
   \<or> (\<exists>e. cache c key = Some e \<and> now - timestamp e > ttl c
          \<and> Cache_get now key c = (None, c\<lparr> cache := (cache c)(key := None) \<rparr>))
   \<or> (\<exists>e. cache c key = Some e \<and> \<not> now - timestamp e > ttl c
          \<and> Cache_get now key c = (Some (data e), c))"
  by (cases "cache c key") (auto simp: Cache_get_def)





lemma perform_success:
  assumes "initWalletProvider env = Some init"
      and "validateEvmConfigurationStrict env = Inr ()"
      and "initWalletProviderWithRetry init = Inr wp"
      and "getTokenBalances wp env now addr testnetOnly bc = (Some (Inr tbs), bc')"
  shows "performComprehensiveAnalysisWithStaking env now addr testnetOnly bc =
           (Inr (assembleAnalysis addr testnetOnly tbs), bc')"
  by (simp add: performComprehensiveAnalysisWithStaking_def assms(1-3)
        getTokenBalancesWithRetry_first [OF assms(4)])

lemma analyzeWallet_miss:
  assumes "fst (Cache_get now (analysisCacheKey addr testnetOnly) (analysisCache st)) = None"
  shows "analyzeWallet env now addr testnetOnly st =
     (case performComprehensiveAnalysisWithStaking env now addr testnetOnly (balanceCache st) of
        (Inr analysis, bc') \<Rightarrow>
          (Inr analysis,
           \<lparr> analysisCache = Cache_set now (analysisCacheKey addr testnetOnly) analysis
                               (snd (Cache_get now (analysisCacheKey addr testnetOnly) (analysisCache st))),
             balanceCache = bc' \<rparr>)
      | (Inl e, bc') \<Rightarrow>
          (Inl (AnalyzeWalletFailed e),
           \<lparr> analysisCache = snd (Cache_get now (analysisCacheKey addr testnetOnly) (analysisCache st)),
             balanceCache = bc' \<rparr>))"
proof -
  obtain a b where eq: "Cache_get now (analysisCacheKey addr testnetOnly) (analysisCache st) = (a, b)"
    by (cases "Cache_get now (analysisCacheKey addr testnetOnly) (analysisCache st)")
  with assms have a: "a = None" by simp
  show ?thesis
    unfolding analyzeWallet_def eq a by (simp split: prod.splits sum.splits)
qed

lemma fetch_fresh:
  assumes chains: "chainsToCheck wp testnetOnly = Inr cs"
      and miss: "fst (Cache_get now (balancesCacheKey addr testnetOnly) bc) = None"
      and collect: "collectChains wp env addr testnetOnly (completionOrder (chainArrival env) cs)
                      = Some tbs"
  shows "getTokenBalances wp env now addr testnetOnly bc =
           (Some (Inr tbs),
            Cache_set now (balancesCacheKey addr testnetOnly) tbs
              (snd (Cache_get now (balancesCacheKey addr testnetOnly) bc)))"
  unfolding getTokenBalances_miss [OF miss] by (simp add: chains collect)

lemma analyzeWallet_fresh:
  assumes ready: "initWalletProvider env = Some init"
      "validateEvmConfigurationStrict env = Inr ()"
      "initWalletProviderWithRetry init = Inr wp"
    and chains: "chainsToCheck wp testnetOnly = Inr cs"
    and miss: "fst (Cache_get now (analysisCacheKey addr testnetOnly) (analysisCache st)) = None"
      "fst (Cache_get now (balancesCacheKey addr testnetOnly) (balanceCache st)) = None"
    and collect: "collectChains wp env addr testnetOnly (completionOrder (chainArrival env) cs)
                    = Some tbs"
  shows "fst (analyzeWallet env now addr testnetOnly st) =
           Inr (assembleAnalysis addr testnetOnly tbs)"
    "snd (analyzeWallet env now addr testnetOnly st) =
           \<lparr> analysisCache =
               Cache_set now (analysisCacheKey addr testnetOnly)
                 (assembleAnalysis addr testnetOnly tbs)
                 (snd (Cache_get now (analysisCacheKey addr testnetOnly) (analysisCache st))),
             balanceCache =
               Cache_set now (balancesCacheKey addr testnetOnly) tbs
                 (snd (Cache_get now (balancesCacheKey addr testnetOnly) (balanceCache st))) \<rparr>"
proof -
  note p = perform_success [OF ready fetch_fresh [OF chains miss(2) collect]]
  show "fst (analyzeWallet env now addr testnetOnly st) =
           Inr (assembleAnalysis addr testnetOnly tbs)"
    unfolding analyzeWallet_miss [OF miss(1)] p by simp
  show "snd (analyzeWallet env now addr testnetOnly st) =
           \<lparr> analysisCache =
               Cache_set now (analysisCacheKey addr testnetOnly)
                 (assembleAnalysis addr testnetOnly tbs)
                 (snd (Cache_get now (analysisCacheKey addr testnetOnly) (analysisCache st))),
             balanceCache =
               Cache_set now (balancesCacheKey addr testnetOnly) tbs
                 (snd (Cache_get now (balancesCacheKey addr testnetOnly) (balanceCache st))) \<rparr>"
    unfolding analyzeWallet_miss [OF miss(1)] p by simp
qed


lemma assembleAnalysis_fields:
  "waTokenHoldings (assembleAnalysis addr tn tbs) = concat (map tokenHoldings tbs)"
  "nativeBalances (assembleAnalysis addr tn tbs) = nativeBalancesOf tbs"
  "totalBalance (assembleAnalysis addr tn tbs) = foldl (\<lambda>sum b. sum + b) 0 (map snd (nativeBalancesOf tbs))"
  "diversificationScore (assembleAnalysis addr tn tbs) =
     calculateDiversificationScore (concat (map tokenHoldings tbs)) (nativeBalancesOf tbs)"
  "riskProfile (assembleAnalysis addr tn tbs) =
     assessComprehensiveRisk (foldl (\<lambda>sum b. sum + b) 0 (map snd (nativeBalancesOf tbs)))
       (concat (map tokenHoldings tbs)) (analyzeTokenHoldings (concat (map tokenHoldings tbs)))"
  "stakingStrategy (assembleAnalysis addr tn tbs) =
     generateStakingStrategy
       (assessComprehensiveRisk (foldl (\<lambda>sum b. sum + b) 0 (map snd (nativeBalancesOf tbs)))
          (concat (map tokenHoldings tbs)) (analyzeTokenHoldings (concat (map tokenHoldings tbs))))
       (assessLiquidityProfile (concat (map tokenHoldings tbs))
          (foldl (\<lambda>sum b. sum + b) 0 (map snd (nativeBalancesOf tbs))))
       (foldl (\<lambda>sum b. sum + b) 0 (map snd (nativeBalancesOf tbs))) tn"
  "stakingRecommendations (assembleAnalysis addr tn tbs) =
     generateRealStakingRecommendations (nativeBalancesOf tbs) (concat (map tokenHoldings tbs))
       (stakingStrategy (assembleAnalysis addr tn tbs)) (riskProfile (assembleAnalysis addr tn tbs)) tn"
  by (simp_all only: assembleAnalysis_def Let_def WalletAnalysis.select_convs)

lemma zero_snapshot:
  assumes zero: "\<forall>c cl. clientFor wp env c = Inr cl \<longrightarrow>
             (getBalance cl addr = Answer 0 \<or> getBalance cl addr = Throws)
             \<and> (\<forall>tok. readContract cl tok addr = Throws \<or> readContract cl tok addr = Answer 0)"
  shows "getTokenBalancesForChain wp env addr c = Some (Inr (emptySnapshot addr c))
         \<or> (\<exists>e. getTokenBalancesForChain wp env addr c = Some (Inl e))"
proof (cases "clientFor wp env c")
  case (Inl e)
  then show ?thesis by (simp add: getTokenBalancesForChain_client)
next
  case (Inr cl)
  with zero have "getBalance cl addr = Answer 0 \<or> getBalance cl addr = Throws"
    "\<forall>tok. readContract cl tok addr = Throws \<or> readContract cl tok addr = Answer 0"
    by blast+
  from empty_snapshot [OF Inr this] show ?thesis by simp
qed

lemma zero_collect_mainnet:
  assumes "\<forall>c cl. clientFor wp env c = Inr cl \<longrightarrow>
             (getBalance cl addr = Answer 0 \<or> getBalance cl addr = Throws)
             \<and> (\<forall>tok. readContract cl tok addr = Throws \<or> readContract cl tok addr = Answer 0)"
  shows "collectChains wp env addr False cs = Some []"
  by (rule collectChains_empty) (use zero_snapshot [OF assms] in blast)

lemma zero_collect_testnet:
  assumes zero: "\<forall>c cl. clientFor wp env c = Inr cl \<longrightarrow>
             (getBalance cl addr = Answer 0 \<or> getBalance cl addr = Throws)
             \<and> (\<forall>tok. readContract cl tok addr = Throws \<or> readContract cl tok addr = Answer 0)"
      and sub: "set cs \<subseteq> set getTestnetChains"
  shows "collectChains wp env addr True cs = Some (map (emptySnapshot addr) cs)"
proof (rule collectChains_empty_testnet, rule ballI)
  fix c assume "c \<in> set cs"
  then have "c \<in> set getTestnetChains" using sub by blast
  then obtain cl where cl: "clientFor wp env c = Inr cl" using clientFor_testnet by blast
  then have "\<not> (\<exists>e. getTokenBalancesForChain wp env addr c = Some (Inl e))"
    by (simp add: getTokenBalancesForChain_client)
  with zero_snapshot [OF zero, of c]
  show "getTokenBalancesForChain wp env addr c = Some (Inr (emptySnapshot addr c))" by blast
qed

lemma holdings_empty_snapshots: "concat (map tokenHoldings (map (emptySnapshot addr) cs)) = []"
  by (induction cs) (simp_all add: emptySnapshot_def)

lemma recordSet_fresh: "k \<notin> fst ` set r \<Longrightarrow> recordSet k v r = r @ [(k, v)]"
  by (induction r) auto

lemma nativeBalances_fold_distinct:
  "distinct (map fst acc @ map tbChainName tbs) \<Longrightarrow>
   foldl (\<lambda>nb chain. recordSet (tbChainName chain) (nativeBalance chain) nb) acc tbs
     = acc @ map (\<lambda>d. (tbChainName d, nativeBalance d)) tbs"
proof (induction tbs arbitrary: acc)
  case Nil
  then show ?case by simp
next
  case (Cons d tbs)
  from Cons.prems have fresh: "tbChainName d \<notin> fst ` set acc" by auto
  have "distinct (map fst (acc @ [(tbChainName d, nativeBalance d)]) @ map tbChainName tbs)"
    using Cons.prems by auto
  from Cons.IH [OF this] show ?case by (simp add: recordSet_fresh [OF fresh])
qed

lemma nativeBalancesOf_distinct:
  "distinct (map tbChainName tbs) \<Longrightarrow>
   nativeBalancesOf tbs = map (\<lambda>d. (tbChainName d, nativeBalance d)) tbs"
  unfolding nativeBalancesOf_def using nativeBalances_fold_distinct [of "[]" tbs] by simp

lemma nativeBalances_empty_testnet:
  assumes "mset cs = mset getTestnetChains"
  shows "nativeBalancesOf (map (emptySnapshot addr) cs) = map (\<lambda>c. (c, 0)) cs"
proof -
  have "distinct getTestnetChains" by (simp add: getTestnetChains_eq)
  then have "distinct cs" using assms by (metis mset_eq_imp_distinct_iff)
  then have "distinct (map tbChainName (map (emptySnapshot addr) cs))"
    by (simp add: comp_def emptySnapshot_def)
  from nativeBalancesOf_distinct [OF this] show ?thesis
    by (simp add: comp_def emptySnapshot_def)
qed

lemma risk_no_holdings:
  "riskScore (assessComprehensiveRisk 0 [] (analyzeTokenHoldings [])) = 45"
  by (simp add: riskScore_unfold stablecoins_analyze concentrationRisk_analyze sizeAdjust_def
        stableAdjust_def roundedSum_def)

lemma ethRecommendation_small:
  "b \<le> 1/100 \<Longrightarrow> ethRecommendation testnetOnly strategy (c, b) = None"
  by (simp add: ethRecommendation_def Let_def)

lemma no_recommendations:
  assumes "\<forall>(c, b)\<in>set nb. b \<le> 1/100"
  shows "generateRealStakingRecommendations nb [] strategy rp testnetOnly = []"
proof -
  have "List.map_filter (ethRecommendation testnetOnly strategy) nb = []"
    using assms
    by (induction nb) (auto simp: ethRecommendation_small map_filter_Cons List.map_filter_simps)
  then show ?thesis by (simp add: generateRealStakingRecommendations_def List.map_filter_simps)
qed

lemma zero_analysis_mainnet:
  "waTokenHoldings (assembleAnalysis addr False []) = []"
  "nativeBalances (assembleAnalysis addr False []) = []"
  "stakingRecommendations (assembleAnalysis addr False []) = []"
  "riskScore (riskProfile (assembleAnalysis addr False [])) = 45"
  "diversificationScore (assembleAnalysis addr False []) = 0"
proof -
  have nb: "nativeBalancesOf [] = []" by (simp add: nativeBalancesOf_def)
  show "waTokenHoldings (assembleAnalysis addr False []) = []"
    "nativeBalances (assembleAnalysis addr False []) = []"
    by (simp_all add: assembleAnalysis_fields nb)
  show "stakingRecommendations (assembleAnalysis addr False []) = []"
    unfolding assembleAnalysis_fields(7) nb by (simp add: no_recommendations)
  show "riskScore (riskProfile (assembleAnalysis addr False [])) = 45"
    unfolding assembleAnalysis_fields(5) nb by (simp add: risk_no_holdings)
  show "diversificationScore (assembleAnalysis addr False []) = 0"
    unfolding assembleAnalysis_fields(4) nb by (simp add: calculateDiversificationScore_def)
qed

lemma foldl_zero_balances:
  "foldl (\<lambda>sum b. sum + b) 0 (map snd (map (\<lambda>c. (c, 0 :: rat)) cs)) = 0"
  by (induction cs) simp_all

lemma zero_analysis_testnet:
  assumes "mset cs = mset getTestnetChains"
  shows "waTokenHoldings (assembleAnalysis addr True (map (emptySnapshot addr) cs)) = []"
    "stakingRecommendations (assembleAnalysis addr True (map (emptySnapshot addr) cs)) = []"
    "riskScore (riskProfile (assembleAnalysis addr True (map (emptySnapshot addr) cs))) = 45"
    "diversificationScore (assembleAnalysis addr True (map (emptySnapshot addr) cs)) = 60"
proof -
  let ?tbs = "map (emptySnapshot addr) cs"
  note nb = nativeBalances_empty_testnet [OF assms]
  have "length cs = length getTestnetChains" using assms by (metis size_mset)
  then have len: "length cs = 6" by (simp add: getTestnetChains_eq)
  show "waTokenHoldings (assembleAnalysis addr True ?tbs) = []"
    unfolding assembleAnalysis_fields(1) by (rule holdings_empty_snapshots)
  show "stakingRecommendations (assembleAnalysis addr True ?tbs) = []"
    unfolding assembleAnalysis_fields(7) holdings_empty_snapshots nb
    by (rule no_recommendations) auto
  show "riskScore (riskProfile (assembleAnalysis addr True ?tbs)) = 45"
    unfolding assembleAnalysis_fields(5) holdings_empty_snapshots nb foldl_zero_balances
    by (rule risk_no_holdings)
  show "diversificationScore (assembleAnalysis addr True ?tbs) = 60"
    unfolding assembleAnalysis_fields(4) holdings_empty_snapshots nb
    by (simp add: calculateDiversificationScore_def len)
qed

lemma trim_replicate: "\<not> isSpace ch \<Longrightarrow> trim (replicate n ch) = replicate n ch"
  by (simp add: trim_def)

lemma validate_envOf: "validateEvmConfigurationStrict (envOf wp cl) = Inr ()"
proof -
  have sp: "\<not> isSpace (CHR ''a'')" by (simp add: isSpace_def)
  have hex: "isHexDigit (CHR ''a'')" by (simp add: isHexDigit_def)
  have "take 2 (replicate 64 (CHR ''a'')) \<noteq> ''0x''"
    by (simp add: numeral_2_eq_2)
  then have "normalizePrivateKey (replicate 64 (CHR ''a'')) = Some (''0x'' @ replicate 64 (CHR ''a''))"
    by (simp add: normalizePrivateKey_def trim_replicate [OF sp] Let_def list_all_iff hex)
  moreover have "replicate 64 (CHR ''a'') \<noteq> []"
    by (metis length_replicate list.size(3) zero_neq_numeral)
  ultimately show ?thesis
    by (simp add: validateEvmConfigurationStrict_def envOf_fields)
qed

lemma ready_envOf:
  "initWalletProvider (envOf wp cl) = Some (\<lambda>attempt. Inr wp)"
  "initWalletProviderWithRetry (\<lambda>attempt. Inr wp) = Inr wp"
  by (simp_all add: envOf_fields initWalletProviderWithRetry_first)

lemma order_envOf: "completionOrder (chainArrival (envOf wp cl)) cs = cs"
  by (simp add: envOf_fields completionOrder_issue_order)

lemma example_key_valid: "validateEvmConfigurationStrict exampleEnv = Inr ()"
  unfolding exampleEnv_def by (rule validate_envOf)

lemma newAnalyzer_miss:
  "fst (Cache_get now key (analysisCache newAnalyzer)) = None"
  "fst (Cache_get now key (balanceCache newAnalyzer)) = None"
  by (simp_all add: newAnalyzer_def Cache_get_new)

lemma example_ready:
  "initWalletProvider exampleEnv = Some (\<lambda>attempt. Inr exampleProvider)"
  "initWalletProviderWithRetry (\<lambda>attempt. Inr exampleProvider) = Inr exampleProvider"
  unfolding exampleEnv_def by (rule ready_envOf)+

lemma example_zero:
  "\<forall>c cl. clientFor exampleProvider exampleEnv c = Inr cl \<longrightarrow>
      (getBalance cl addr = Answer 0 \<or> getBalance cl addr = Throws)
      \<and> (\<forall>tok. readContract cl tok addr = Throws \<or> readContract cl tok addr = Answer 0)"
  by (auto simp: clientFor_def exampleProvider_def emptyClient_def)

text \<open>
  C3 (zero-holdings baseline), as the code has it. For an address whose native balance
  is zero on every chain and that holds no tokens, a freshly computed \<open>analyzeWallet\<close>
  returns an analysis with no token holdings, no staking recommendation and a risk
  score of 45: the base 50, minus 15 for the very small portfolio, plus 10 because the
  stablecoin share is below 0.1. The diversification score is 0 in mainnet mode and 60
  in testnet mode, where the six testnet chains are included with zero balances.
\<close>

theorem zero_holdings_baseline:
  assumes ready: "initWalletProvider env = Some init"
      "validateEvmConfigurationStrict env = Inr ()"
      "initWalletProviderWithRetry init = Inr wp"
    and chains: "chainsToCheck wp testnetOnly = Inr cs"
    and miss: "fst (Cache_get now (analysisCacheKey addr testnetOnly) (analysisCache st)) = None"
      "fst (Cache_get now (balancesCacheKey addr testnetOnly) (balanceCache st)) = None"
    and zero: "\<forall>c cl. clientFor wp env c = Inr cl \<longrightarrow>
             (getBalance cl addr = Answer 0 \<or> getBalance cl addr = Throws)
             \<and> (\<forall>tok. readContract cl tok addr = Throws \<or> readContract cl tok addr = Answer 0)"
  shows "\<exists>wa. fst (analyzeWallet env now addr testnetOnly st) = Inr wa
           \<and> waTokenHoldings wa = []
           \<and> stakingRecommendations wa = []
           \<and> riskScore (riskProfile wa) = 45
           \<and> diversificationScore wa = (if testnetOnly then 60 else 0)"
proof (cases testnetOnly)
  case True
  then have cs: "cs = getTestnetChains" using chains by (simp add: chainsToCheck_def)
  let ?cs = "completionOrder (chainArrival env) cs"
  have m: "mset ?cs = mset getTestnetChains" by (simp add: completionOrder_mset cs)
  have "set ?cs \<subseteq> set getTestnetChains" by (simp add: completionOrder_set cs)
  from zero_collect_testnet [OF zero this]
  have "collectChains wp env addr testnetOnly ?cs = Some (map (emptySnapshot addr) ?cs)"
    using True by simp
  from analyzeWallet_fresh(1) [OF ready chains miss this]
  show ?thesis using True zero_analysis_testnet [OF m, of addr] by simp
next
  case False
  have "collectChains wp env addr testnetOnly (completionOrder (chainArrival env) cs) = Some []"
    using zero_collect_mainnet [OF zero] False by simp
  from analyzeWallet_fresh(1) [OF ready chains miss this]
  show ?thesis using False zero_analysis_mainnet [of addr] by simp
qed

lemma example_analysis_mainnet:
  "fst (analyzeWallet exampleEnv 0 exampleAddress False newAnalyzer)
     = Inr (assembleAnalysis exampleAddress False [])"
proof -
  have chains: "chainsToCheck exampleProvider False = Inr [''mainnet'', ''base'', ''sepolia'']"
    by (simp add: chainsToCheck_def exampleProvider_def)
  show ?thesis
    by (rule analyzeWallet_fresh(1) [OF example_ready(1) example_key_valid example_ready(2) chains
          newAnalyzer_miss zero_collect_mainnet [OF example_zero]])
qed

text \<open>
  The claim as first stated fails: for an address that holds nothing, the mainnet
  analysis has no holdings and no native balance, and its risk score is 45, not 35.
\<close>

theorem zero_holdings_baseline_counterexample:
  "fst (analyzeWallet exampleEnv 0 exampleAddress False newAnalyzer)
     = Inr (assembleAnalysis exampleAddress False [])
   \<and> waTokenHoldings (assembleAnalysis exampleAddress False []) = []
   \<and> nativeBalances (assembleAnalysis exampleAddress False []) = []
   \<and> riskScore (riskProfile (assembleAnalysis exampleAddress False [])) = 45
   \<and> riskScore (riskProfile (assembleAnalysis exampleAddress False [])) \<noteq> 50 - 15"
  by (simp add: example_analysis_mainnet zero_analysis_mainnet)

theorem zero_holdings_baseline_witness:
  "initWalletProvider exampleEnv = Some (\<lambda>attempt. Inr exampleProvider)
   \<and> validateEvmConfigurationStrict exampleEnv = Inr ()
   \<and> initWalletProviderWithRetry (\<lambda>attempt. Inr exampleProvider) = Inr exampleProvider
   \<and> chainsToCheck exampleProvider True = Inr getTestnetChains
   \<and> fst (Cache_get 0 (analysisCacheKey exampleAddress True) (analysisCache newAnalyzer)) = None
   \<and> fst (Cache_get 0 (balancesCacheKey exampleAddress True) (balanceCache newAnalyzer)) = None
   \<and> (\<exists>wa. fst (analyzeWallet exampleEnv 0 exampleAddress True newAnalyzer) = Inr wa
           \<and> waTokenHoldings wa = []
           \<and> stakingRecommendations wa = []
           \<and> riskScore (riskProfile wa) = 45
           \<and> diversificationScore wa = 60)"
proof -
  have chains: "chainsToCheck exampleProvider True = Inr getTestnetChains"
    by (simp add: chainsToCheck_def)
  from zero_holdings_baseline [OF example_ready(1) example_key_valid example_ready(2) chains
      newAnalyzer_miss example_zero]
  have "\<exists>wa. fst (analyzeWallet exampleEnv 0 exampleAddress True newAnalyzer) = Inr wa
           \<and> waTokenHoldings wa = []
           \<and> stakingRecommendations wa = []
           \<and> riskScore (riskProfile wa) = 45
           \<and> diversificationScore wa = 60"
    by simp
  then show ?thesis
    using example_ready example_key_valid chains newAnalyzer_miss by simp
qed






lemma no_holdings_catalog:
  assumes "list_all (\<lambda>tc. readContract cl (tcAddress tc) addr = Throws) tcs"
  shows "List.map_filter (tokenHoldingOf cl addr c isTest) tcs = []"
  using assms
  by (induction tcs) (simp_all add: tokenHoldingOf_def map_filter_Cons List.map_filter_simps)

lemma down_snapshot:
  assumes "chainDown wp env addr c"
  shows "getTokenBalancesForChain wp env addr c = Some (Inr (emptySnapshot addr c))
         \<or> (\<exists>e. getTokenBalancesForChain wp env addr c = Some (Inl e))"
proof (cases "clientFor wp env c")
  case (Inl e)
  then show ?thesis by (simp add: getTokenBalancesForChain_client)
next
  case (Inr cl)
  with assms have b: "getBalance cl addr = Throws"
    and t: "list_all (\<lambda>tc. readContract cl (tcAddress tc) addr = Throws) (chainTokens c)"
    by (simp_all add: chainDown_def)
  have t': "list_all (\<lambda>tc. readContract cl (tcAddress tc) addr = Throws)
              (completionOrder (tokenArrival env c) (chainTokens c))"
    using t by (simp add: list_all_iff completionOrder_set)
  have nh: "\<not> list_ex (\<lambda>tc. readContract cl (tcAddress tc) addr = Hangs) (chainTokens c)"
    using t by (auto simp: list_all_iff list_ex_iff)
  show ?thesis
    unfolding getTokenBalancesForChain_client
    by (simp add: Inr b nh no_holdings_catalog [OF t'] nativeWei_def formatUnits_def emptySnapshot_def)
qed

lemma down_not_hanging: "chainDown wp env addr c \<Longrightarrow> \<not> chainHangs wp env addr c"
  using down_snapshot [of wp env addr c] chainHangs_iff [of wp env addr c] by auto

lemma recordSet_mem: "(c, b) \<in> set (recordSet k v r) \<Longrightarrow> (c, b) = (k, v) \<or> (c, b) \<in> set r"
  by (induction r) (auto split: if_splits)

lemma nativeBalances_fold_mem:
  "(c, b) \<in> set (foldl (\<lambda>nb chain. recordSet (tbChainName chain) (nativeBalance chain) nb) acc tbs)
   \<Longrightarrow> (c, b) \<in> set acc \<or> (\<exists>d\<in>set tbs. tbChainName d = c \<and> nativeBalance d = b)"
proof (induction tbs arbitrary: acc)
  case Nil
  then show ?case by simp
next
  case (Cons d tbs)
  from Cons.IH [OF Cons.prems [simplified]]
  show ?case using recordSet_mem [of c b "tbChainName d" "nativeBalance d" acc] by auto
qed

lemma nativeBalancesOf_mem:
  "(c, b) \<in> set (nativeBalancesOf tbs) \<Longrightarrow> \<exists>d\<in>set tbs. tbChainName d = c \<and> nativeBalance d = b"
  unfolding nativeBalancesOf_def using nativeBalances_fold_mem [of c b "[]" tbs] by simp



lemma snapshot_cong:
  assumes "clientFor wp env c = clientFor wp' env' c"
      and "tokenArrival env c = tokenArrival env' c"
  shows "getTokenBalancesForChain wp env addr c = getTokenBalancesForChain wp' env' addr c"
  unfolding getTokenBalancesForChain_client assms ..

lemma partial_down: "chainDown partialProvider partialEnv addr ''base''"
  by (simp add: chainDown_def clientFor_def partialProvider_def failingClient_def list_all_iff)

lemma partial_mainnet:
  "getTokenBalancesForChain partialProvider partialEnv exampleAddress ''mainnet''
     = Some (Inr fundedSnapshot)"
  using snapshot_cong [of partialProvider partialEnv "''mainnet''" mainnetProvider exampleEnv]
    funded_snapshot
  by (simp add: clientFor_def partialProvider_def mainnetProvider_def partialEnv_def
        exampleEnv_def envOf_fields)

lemma partial_collect:
  "collectChains partialProvider partialEnv exampleAddress False [''mainnet'', ''base'']
     = Some [fundedSnapshot]"
proof -
  have nh: "\<not> (\<exists>c\<in>set [''mainnet'', ''base'']. chainHangs partialProvider partialEnv exampleAddress c)"
    using partial_mainnet chainHangs_iff [of partialProvider partialEnv exampleAddress "''mainnet''"]
      down_not_hanging [OF partial_down, of exampleAddress]
    by auto
  have m: "pushedSnapshot partialProvider partialEnv exampleAddress False ''mainnet''
             = Some fundedSnapshot"
    by (simp add: pushedSnapshot_def partial_mainnet) (simp add: fundedSnapshot_def)
  have b: "pushedSnapshot partialProvider partialEnv exampleAddress False ''base'' = None"
    by (rule pushed_empty_mainnet) (rule down_snapshot [OF partial_down])
  show ?thesis
    unfolding collectChains_eq using nh
    by (simp add: map_filter_Cons List.map_filter_simps m b)
qed






subsection \<open>Testnet isolation\<close>

lemma analysisCacheKey_mode:
  "analysisCacheKey addr tn = analysisCacheKey addr' tn' \<Longrightarrow> tn = tn'"
proof -
  assume eq: "analysisCacheKey addr tn = analysisCacheKey addr' tn'"
  have "last (analysisCacheKey a m) = (if m then CHR ''t'' else CHR ''l'')" for a m
    by (simp add: analysisCacheKey_def)
  with eq have "(if tn then CHR ''t'' else CHR ''l'') = (if tn' then CHR ''t'' else CHR ''l'')"
    by metis
  then show ?thesis by (auto split: if_splits)
qed

lemma balancesCacheKey_mode:
  "balancesCacheKey addr tn = balancesCacheKey addr' tn' \<Longrightarrow> tn = tn'"
proof -
  assume eq: "balancesCacheKey addr tn = balancesCacheKey addr' tn'"
  have "last (balancesCacheKey a m) = (if m then CHR ''t'' else CHR ''l'')" for a m
    by (simp add: balancesCacheKey_def)
  with eq have "(if tn then CHR ''t'' else CHR ''l'') = (if tn' then CHR ''t'' else CHR ''l'')"
    by metis
  then show ?thesis by (auto split: if_splits)
qed

lemma Cache_get_sound:
  assumes "\<forall>k e. cache c k = Some e \<longrightarrow> P k (data e)"
  shows "\<forall>k e. cache (snd (Cache_get now key c)) k = Some e \<longrightarrow> P k (data e)"
    "fst (Cache_get now key c) = Some v \<Longrightarrow> P key v"
  using assms Cache_get_cases [of now key c] by (auto split: if_splits)

lemma Cache_set_sound:
  assumes "\<forall>k e. cache c k = Some e \<longrightarrow> P k (data e)" "P key v"
  shows "\<forall>k e. cache (Cache_set now key v c) k = Some e \<longrightarrow> P k (data e)"
  using assms by (auto simp: Cache_set_def)

lemma testnet_collect:
  assumes c: "collectChains wp env addr True cs = Some tbs"
      and sub: "set cs \<subseteq> set getTestnetChains"
  shows "testnetSnapshots tbs"
proof -
  have "isTestnetChain (tbChainName d) \<and> list_all testnetHolding (tokenHoldings d)"
    if "d \<in> set tbs" for d
  proof -
    from that obtain c where c: "c \<in> set cs"
      "getTokenBalancesForChain wp env addr c = Some (Inr d)"
      unfolding collectChains_mem [OF c] by blast
    have t: "isTestnetChain c" using c(1) sub by (auto simp: isTestnetChain_iff)
    have "tbChainName d = c" by (rule snapshot_props(1) [OF c(2)])
    moreover have "testnetHolding h" if "h \<in> set (tokenHoldings d)" for h
      using holding_testnet_flag(1,2) [OF c(2) that] t by (simp add: testnetHolding_def)
    ultimately show ?thesis using t by (simp add: list_all_iff)
  qed
  then show ?thesis by (simp add: testnetSnapshots_def list_all_iff)
qed

lemma getTokenBalances_cases:
  "(\<exists>cached. fst (Cache_get now (balancesCacheKey addr tn) bc) = Some cached
      \<and> getTokenBalances wp env now addr tn bc
          = (Some (Inr cached), snd (Cache_get now (balancesCacheKey addr tn) bc)))
   \<or> (fst (Cache_get now (balancesCacheKey addr tn) bc) = None
      \<and> (\<exists>r. fst (getTokenBalances wp env now addr tn bc) = r
              \<and> (\<forall>tbs. r \<noteq> Some (Inr tbs))
              \<and> snd (getTokenBalances wp env now addr tn bc)
                   = snd (Cache_get now (balancesCacheKey addr tn) bc)))
   \<or> (fst (Cache_get now (balancesCacheKey addr tn) bc) = None
      \<and> (\<exists>cs tbs. chainsToCheck wp tn = Inr cs
            \<and> collectChains wp env addr tn (completionOrder (chainArrival env) cs) = Some tbs
            \<and> getTokenBalances wp env now addr tn bc
                 = (Some (Inr tbs),
                    Cache_set now (balancesCacheKey addr tn) tbs
                      (snd (Cache_get now (balancesCacheKey addr tn) bc)))))"
proof (cases "fst (Cache_get now (balancesCacheKey addr tn) bc)")
  case (Some cached)
  then obtain bc' where g: "Cache_get now (balancesCacheKey addr tn) bc = (Some cached, bc')"
    by (cases "Cache_get now (balancesCacheKey addr tn) bc") simp
  have "getTokenBalances wp env now addr tn bc = (Some (Inr cached), bc')"
    by (simp add: getTokenBalances_def g)
  then show ?thesis using Some g by simp
next
  case None
  show ?thesis
  proof (cases "chainsToCheck wp tn")
    case (Inl e)
    then show ?thesis unfolding getTokenBalances_miss [OF None] using None by simp
  next
    case (Inr cs)
    show ?thesis
    proof (cases "collectChains wp env addr tn (completionOrder (chainArrival env) cs)")
      case n: None
      then show ?thesis unfolding getTokenBalances_miss [OF None] using None Inr by simp
    next
      case (Some tbs)
      then show ?thesis unfolding getTokenBalances_miss [OF None] using None Inr by simp
    qed
  qed
qed

lemma getTokenBalances_sound:
  assumes "balancesSound bc"
  shows "balancesSound (snd (getTokenBalances wp env now addr tn bc))
       \<and> (tn \<longrightarrow> (\<forall>tbs. fst (getTokenBalances wp env now addr tn bc) = Some (Inr tbs)
                      \<longrightarrow> testnetSnapshots tbs))"
proof -
  let ?key = "balancesCacheKey addr tn"
  let ?P = "\<lambda>k v. (\<forall>a. k = balancesCacheKey a True \<longrightarrow> testnetSnapshots v)"
  have inv: "\<forall>k e. cache bc k = Some e \<longrightarrow> ?P k (data e)"
    using assms by (auto simp: balancesSound_def)
  have inv1: "\<forall>k e. cache (snd (Cache_get now ?key bc)) k = Some e \<longrightarrow> ?P k (data e)"
    by (rule Cache_get_sound(1) [OF inv])
  have s1: "balancesSound (snd (Cache_get now ?key bc))"
    using inv1 by (auto simp: balancesSound_def)
  from getTokenBalances_cases [of now addr tn bc wp env]
  consider (hit) cached where "fst (Cache_get now ?key bc) = Some cached"
      "getTokenBalances wp env now addr tn bc = (Some (Inr cached), snd (Cache_get now ?key bc))"
    | (fail) "\<forall>tbs. fst (getTokenBalances wp env now addr tn bc) \<noteq> Some (Inr tbs)"
      "snd (getTokenBalances wp env now addr tn bc) = snd (Cache_get now ?key bc)"
    | (fresh) cs tbs where "chainsToCheck wp tn = Inr cs"
      "collectChains wp env addr tn (completionOrder (chainArrival env) cs) = Some tbs"
      "getTokenBalances wp env now addr tn bc
         = (Some (Inr tbs), Cache_set now ?key tbs (snd (Cache_get now ?key bc)))"
    by blast
  then show ?thesis
  proof cases
    case hit
    have "?P ?key cached" by (rule Cache_get_sound(2) [OF inv hit(1)])
    then show ?thesis unfolding hit(2) using s1 by auto
  next
    case fail
    show ?thesis unfolding fail(2) using s1 fail(1) by blast
  next
    case fresh
    have new: "?P ?key tbs"
    proof (intro allI impI)
      fix a assume "?key = balancesCacheKey a True"
      then have tn using balancesCacheKey_mode by blast
      then have cs: "cs = getTestnetChains" using fresh(1) by (simp add: chainsToCheck_def)
      have "set (completionOrder (chainArrival env) cs) \<subseteq> set getTestnetChains"
        by (simp add: completionOrder_set cs)
      from testnet_collect [OF _ this] fresh(2) \<open>tn\<close> show "testnetSnapshots tbs" by simp
    qed
    have "\<forall>k e. cache (Cache_set now ?key tbs (snd (Cache_get now ?key bc))) k = Some e
                  \<longrightarrow> ?P k (data e)"
      by (rule Cache_set_sound [OF inv1 new])
    then show ?thesis unfolding fresh(3) using new by (auto simp: balancesSound_def)
  qed
qed

lemma getTokenBalancesLoop_sound:
  assumes "balancesSound bc"
  shows "balancesSound (snd (getTokenBalancesLoop wp env now addr tn maxRetries attempt lastError bc))
       \<and> (tn \<longrightarrow> (\<forall>tbs. fst (getTokenBalancesLoop wp env now addr tn maxRetries attempt lastError bc)
                        = Inr tbs \<longrightarrow> testnetSnapshots tbs))"
  using assms
proof (induction wp env now addr tn maxRetries attempt lastError bc
    rule: getTokenBalancesLoop.induct)
  case (1 wp env now addr tn maxRetries attempt lastError bc)
  show ?case
  proof (cases "attempt \<le> maxRetries")
    case False
    then have eq: "getTokenBalancesLoop wp env now addr tn maxRetries attempt lastError bc
              = (Inl (TokenBalanceFetchFailed maxRetries lastError), bc)"
      by (subst getTokenBalancesLoop.simps) simp
    show ?thesis unfolding eq using "1.prems" by auto
  next
    case True
    obtain r bc' where g: "getTokenBalances wp env now addr tn bc = (r, bc')"
      by (cases "getTokenBalances wp env now addr tn bc")
    from getTokenBalances_sound [OF "1.prems", of wp env now addr tn]
    have s: "balancesSound bc'" "tn \<longrightarrow> (\<forall>tbs. r = Some (Inr tbs) \<longrightarrow> testnetSnapshots tbs)"
      unfolding g by auto
    show ?thesis
    proof (cases r)
      case None
      have eq: "getTokenBalancesLoop wp env now addr tn maxRetries attempt lastError bc
              = getTokenBalancesLoop wp env now addr tn maxRetries (Suc attempt)
                  TokenBalanceFetchTimeout bc'"
        by (subst getTokenBalancesLoop.simps) (simp add: True g None)
      show ?thesis unfolding eq by (rule "1.IH"(1) [OF True g [symmetric] None s(1)])
    next
      case (Some x)
      show ?thesis
      proof (cases x)
        case (Inr tbs)
        have eq: "getTokenBalancesLoop wp env now addr tn maxRetries attempt lastError bc
                = (Inr tbs, bc')"
          by (subst getTokenBalancesLoop.simps) (simp add: True g Some Inr)
        show ?thesis unfolding eq using s Some Inr by auto
      next
        case (Inl e)
        have eq: "getTokenBalancesLoop wp env now addr tn maxRetries attempt lastError bc
                = getTokenBalancesLoop wp env now addr tn maxRetries (Suc attempt) e bc'"
          by (subst getTokenBalancesLoop.simps) (simp add: True g Some Inl)
        show ?thesis unfolding eq by (rule "1.IH"(2) [OF True g [symmetric] Some Inl s(1)])
      qed
    qed
  qed
qed

lemma ethRecommendation_flag:
  "ethRecommendation tn strategy entry = Some r \<Longrightarrow> recIsTestnet r = tn"
  by (auto simp: ethRecommendation_def Let_def split: if_splits)

lemma recommendations_flag:
  assumes "r \<in> set (generateRealStakingRecommendations nb hs strategy rp tn)"
  shows "recIsTestnet r = tn"
proof -
  from assms have
    "r \<in> set (List.map_filter (ethRecommendation tn strategy) nb)
     \<or> r \<in> set (List.map_filter (tokenRecommendation strategy) (filter (stakeableToken tn) hs))"
    by (simp add: generateRealStakingRecommendations_def)
  then show ?thesis
  proof
    assume "r \<in> set (List.map_filter (ethRecommendation tn strategy) nb)"
    then show ?thesis using ethRecommendation_flag by (auto simp: map_filter_mem)
  next
    assume "r \<in> set (List.map_filter (tokenRecommendation strategy) (filter (stakeableToken tn) hs))"
    then obtain t where t: "stakeableToken tn t" "tokenRecommendation strategy t = Some r"
      by (auto simp: map_filter_mem)
    from t(1) have "isTestnet t = tn" by (auto simp: stakeableToken_def Let_def split: if_splits)
    with tokenRecommendation_bounds [OF t(2)] show ?thesis by simp
  qed
qed

lemma assemble_sound:
  assumes "tn \<longrightarrow> testnetSnapshots tbs"
  shows "modeSound tn (assembleAnalysis addr tn tbs)"
proof -
  let ?wa = "assembleAnalysis addr tn tbs"
  have recs: "list_all (\<lambda>r. recIsTestnet r = tn) (stakingRecommendations ?wa)"
    unfolding assembleAnalysis_fields(7) list_all_iff using recommendations_flag by blast
  have nb: "list_all (\<lambda>e. isTestnetChain (fst e)) (nativeBalances ?wa)" if tn
  proof -
    have "isTestnetChain c" if "(c, b) \<in> set (nativeBalancesOf tbs)" for c b
    proof -
      from nativeBalancesOf_mem [OF that] obtain d where "d \<in> set tbs" "tbChainName d = c"
        by blast
      then show ?thesis using assms \<open>tn\<close> by (auto simp: testnetSnapshots_def list_all_iff)
    qed
    then show ?thesis unfolding assembleAnalysis_fields(2) list_all_iff by auto
  qed
  have hs: "list_all testnetHolding (waTokenHoldings ?wa)" if tn
    unfolding assembleAnalysis_fields(1) list_all_iff
    using assms that by (auto simp: testnetSnapshots_def list_all_iff)
  show ?thesis unfolding modeSound_def using recs nb hs by blast
qed

lemma perform_sound:
  assumes "balancesSound bc"
  shows "balancesSound (snd (performComprehensiveAnalysisWithStaking env now addr tn bc))
       \<and> (\<forall>wa. fst (performComprehensiveAnalysisWithStaking env now addr tn bc) = Inr wa
              \<longrightarrow> modeSound tn wa)"
proof (cases "initWalletProvider env")
  case None
  then show ?thesis using assms by (simp add: performComprehensiveAnalysisWithStaking_def)
next
  case (Some init)
  show ?thesis
  proof (cases "validateEvmConfigurationStrict env")
    case (Inl e)
    then show ?thesis using assms Some by (simp add: performComprehensiveAnalysisWithStaking_def)
  next
    case (Inr u)
    show ?thesis
    proof (cases "initWalletProviderWithRetry init")
      case (Inl e)
      then show ?thesis
        using assms Some Inr by (simp add: performComprehensiveAnalysisWithStaking_def)
    next
      case wp: (Inr wp)
      obtain r bc' where g: "getTokenBalancesWithRetry wp env now addr tn bc = (r, bc')"
        by (cases "getTokenBalancesWithRetry wp env now addr tn bc")
      from getTokenBalancesLoop_sound [OF assms, of wp env now addr tn 3 1 "ProviderError []"]
      have s: "balancesSound bc'" "tn \<longrightarrow> (\<forall>tbs. r = Inr tbs \<longrightarrow> testnetSnapshots tbs)"
        unfolding getTokenBalancesWithRetry_def [symmetric] g by auto
      show ?thesis
      proof (cases r)
        case (Inl e)
        have "performComprehensiveAnalysisWithStaking env now addr tn bc = (Inl e, bc')"
          by (simp add: performComprehensiveAnalysisWithStaking_def Some Inr wp g Inl)
        then show ?thesis using s(1) by simp
      next
        case tbs: (Inr tbs)
        have eq: "performComprehensiveAnalysisWithStaking env now addr tn bc
                = (Inr (assembleAnalysis addr tn tbs), bc')"
          by (simp add: performComprehensiveAnalysisWithStaking_def Some Inr wp g tbs)
        have "modeSound tn (assembleAnalysis addr tn tbs)"
          by (rule assemble_sound) (use s(2) tbs in blast)
        then show ?thesis unfolding eq using s(1) by simp
      qed
    qed
  qed
qed

lemma analyzeWallet_sound:
  assumes "cachesSound st"
  shows "cachesSound (snd (analyzeWallet env now addr tn st))
       \<and> (\<forall>wa. fst (analyzeWallet env now addr tn st) = Inr wa \<longrightarrow> modeSound tn wa)"
proof -
  let ?key = "analysisCacheKey addr tn"
  let ?P = "\<lambda>k v. (\<forall>a m. k = analysisCacheKey a m \<longrightarrow> modeSound m v)"
  from assms have ac: "analysesSound (analysisCache st)" and bc: "balancesSound (balanceCache st)"
    by (simp_all add: cachesSound_def)
  have inv: "\<forall>k e. cache (analysisCache st) k = Some e \<longrightarrow> ?P k (data e)"
    using ac by (auto simp: analysesSound_def)
  have inv1: "\<forall>k e. cache (snd (Cache_get now ?key (analysisCache st))) k = Some e
                 \<longrightarrow> ?P k (data e)"
    by (rule Cache_get_sound(1) [OF inv])
  show ?thesis
  proof (cases "fst (Cache_get now ?key (analysisCache st))")
    case (Some cached)
    then obtain ac' where g: "Cache_get now ?key (analysisCache st) = (Some cached, ac')"
      by (cases "Cache_get now ?key (analysisCache st)") simp
    then have ac': "ac' = snd (Cache_get now ?key (analysisCache st))" by simp
    have r: "analyzeWallet env now addr tn st = (Inr cached, st\<lparr> analysisCache := ac' \<rparr>)"
      by (simp add: analyzeWallet_def g)
    have "?P ?key cached" by (rule Cache_get_sound(2) [OF inv Some])
    then have "modeSound tn cached" by blast
    moreover have "analysesSound ac'" using inv1 ac' by (auto simp: analysesSound_def)
    ultimately show ?thesis unfolding r using bc by (simp add: cachesSound_def)
  next
    case None
    obtain r bc' where p: "performComprehensiveAnalysisWithStaking env now addr tn (balanceCache st)
                             = (r, bc')"
      by (cases "performComprehensiveAnalysisWithStaking env now addr tn (balanceCache st)")
    from perform_sound [OF bc, of env now addr tn]
    have s: "balancesSound bc'" "\<forall>wa. r = Inr wa \<longrightarrow> modeSound tn wa"
      unfolding p by simp_all
    show ?thesis
    proof (cases r)
      case (Inl e)
      have "analysesSound (snd (Cache_get now ?key (analysisCache st)))"
        using inv1 by (auto simp: analysesSound_def)
      then show ?thesis
        unfolding analyzeWallet_miss [OF None] p using s(1) Inl by (simp add: cachesSound_def)
    next
      case (Inr wa)
      then have m: "modeSound tn wa" using s(2) by blast
      have new: "?P ?key wa"
      proof (intro allI impI)
        fix a m assume "?key = analysisCacheKey a m"
        then have "m = tn" using analysisCacheKey_mode by blast
        then show "modeSound m wa" using m by simp
      qed
      have "\<forall>k e. cache (Cache_set now ?key wa (snd (Cache_get now ?key (analysisCache st)))) k
                     = Some e \<longrightarrow> ?P k (data e)"
        by (rule Cache_set_sound [OF inv1 new])
      then have "analysesSound (Cache_set now ?key wa (snd (Cache_get now ?key (analysisCache st))))"
        by (auto simp: analysesSound_def)
      then show ?thesis
        unfolding analyzeWallet_miss [OF None] p using s(1) Inr m by (simp add: cachesSound_def)
    qed
  qed
qed

lemma newAnalyzer_sound: "cachesSound newAnalyzer"
  by (simp add: cachesSound_def analysesSound_def balancesSound_def newAnalyzer_def newCache_def)

text \<open>
  C1 (testnet isolation), as the code has it. From caches whose entries are sound for
  the mode of their keys (as the caches of a new analyzer are), every call of
  \<open>analyzeWallet\<close> leaves the caches sound, and every analysis it returns, computed or
  cached, has only recommendations of the requested network kind; with
  \<open>testnetOnly\<close> set, every native-balance entry and every token holding of the
  analysis belongs to a testnet chain. Nothing is claimed about the native balances and
  holdings of a mainnet analysis: it covers every chain the wallet provider supports.
\<close>

theorem testnet_isolation:
  assumes "cachesSound st"
  shows "cachesSound (snd (analyzeWallet env now addr tn st))
       \<and> (\<forall>wa. fst (analyzeWallet env now addr tn st) = Inr wa \<longrightarrow>
             (\<forall>r\<in>set (stakingRecommendations wa). recIsTestnet r = tn)
             \<and> (tn \<longrightarrow> (\<forall>(c, b)\<in>set (nativeBalances wa). isTestnetChain c)
                      \<and> (\<forall>t\<in>set (waTokenHoldings wa).
                            isTestnet t \<and> isTestnetChain (chainName t))))"
proof -
  from analyzeWallet_sound [OF assms, of env now addr tn]
  have s: "cachesSound (snd (analyzeWallet env now addr tn st))"
    and m: "\<forall>wa. fst (analyzeWallet env now addr tn st) = Inr wa \<longrightarrow> modeSound tn wa"
    by blast+
  have "(\<forall>r\<in>set (stakingRecommendations wa). recIsTestnet r = tn)
        \<and> (tn \<longrightarrow> (\<forall>(c, b)\<in>set (nativeBalances wa). isTestnetChain c)
                 \<and> (\<forall>t\<in>set (waTokenHoldings wa). isTestnet t \<and> isTestnetChain (chainName t)))"
    if "modeSound tn wa" for wa
    using that by (auto simp: modeSound_def list_all_iff testnetHolding_def)
  with s m show ?thesis by blast
qed

lemma isTestnetChain_sepolia: "isTestnetChain ''sepolia''"
  by (simp add: isTestnetChain_iff getTestnetChains_eq)

lemma mixed_collect:
  "collectChains mixedProvider mixedEnv exampleAddress False [''mainnet'', ''sepolia'']
     = Some [sepoliaSnapshot]"
proof -
  have other: "getTokenBalancesForChain mixedProvider mixedEnv exampleAddress c
                 = Some (Inr (emptySnapshot exampleAddress c))" if "c \<noteq> ''sepolia''" for c
    by (rule empty_snapshot [where cl = emptyClient])
       (simp_all add: clientFor_def mixedProvider_def emptyClient_def that)
  have cl: "clientFor mixedProvider mixedEnv ''sepolia'' = Inr fundedClient"
    by (simp add: clientFor_def mixedProvider_def)
  have nat: "formatUnits (nativeWei fundedClient exampleAddress) 18 = 2"
    by (simp add: nativeWei_def fundedClient_def formatUnits_def)
  have tok: "\<forall>tok. readContract fundedClient tok exampleAddress = Throws
                 \<or> readContract fundedClient tok exampleAddress = Answer 0"
    by (simp add: fundedClient_def)
  have nh: "\<not> list_ex (\<lambda>tc. readContract fundedClient (tcAddress tc) exampleAddress = Hangs)
                 (chainTokens ''sepolia'')"
    by (simp add: fundedClient_def list_ex_iff)
  have nb: "getBalance fundedClient exampleAddress \<noteq> Hangs" by (simp add: fundedClient_def)
  have sep: "getTokenBalancesForChain mixedProvider mixedEnv exampleAddress ''sepolia''
               = Some (Inr sepoliaSnapshot)"
    unfolding getTokenBalancesForChain_client
    by (simp add: cl nat nh nb no_holdings [OF tok] sepoliaSnapshot_def isTestnetChain_sepolia)
  have nhang: "\<not> (\<exists>c\<in>set [''mainnet'', ''sepolia'']. chainHangs mixedProvider mixedEnv exampleAddress c)"
    using sep other [of "''mainnet''"]
      chainHangs_iff [of mixedProvider mixedEnv exampleAddress "''mainnet''"]
      chainHangs_iff [of mixedProvider mixedEnv exampleAddress "''sepolia''"]
    by auto
  have m: "pushedSnapshot mixedProvider mixedEnv exampleAddress False ''mainnet'' = None"
    by (rule pushed_empty_mainnet) (simp add: other)
  have s: "pushedSnapshot mixedProvider mixedEnv exampleAddress False ''sepolia''
             = Some sepoliaSnapshot"
    by (simp add: pushedSnapshot_def sep) (simp add: sepoliaSnapshot_def)
  show ?thesis
    unfolding collectChains_eq using nhang
    by (simp add: map_filter_Cons List.map_filter_simps m s)
qed

lemma mixed_analysis:
  "fst (analyzeWallet mixedEnv 0 exampleAddress False newAnalyzer)
     = Inr (assembleAnalysis exampleAddress False [sepoliaSnapshot])"
proof -
  have r: "initWalletProvider mixedEnv = Some (\<lambda>attempt. Inr mixedProvider)"
    "validateEvmConfigurationStrict mixedEnv = Inr ()"
    "initWalletProviderWithRetry (\<lambda>attempt. Inr mixedProvider) = Inr mixedProvider"
    unfolding mixedEnv_def by (rule ready_envOf(1), rule validate_envOf, rule ready_envOf(2))
  have chains: "chainsToCheck mixedProvider False = Inr [''mainnet'', ''sepolia'']"
    by (simp add: chainsToCheck_def mixedProvider_def)
  have order: "completionOrder (chainArrival mixedEnv) [''mainnet'', ''sepolia'']
                 = [''mainnet'', ''sepolia'']"
    unfolding mixedEnv_def by (rule order_envOf)
  show ?thesis
    by (rule analyzeWallet_fresh(1) [OF r chains newAnalyzer_miss])
       (simp only: order mixed_collect)
qed

text \<open>
  The claim as first stated fails for \<open>testnetOnly = false\<close>: with a wallet provider
  that supports Ethereum mainnet and Sepolia, both chains are queried, and an address
  with 2 ETH on Sepolia gets a Sepolia entry in the native balances of its mainnet
  analysis.
\<close>

theorem mainnet_includes_testnet_counterexample:
  "fst (analyzeWallet mixedEnv 0 exampleAddress False newAnalyzer)
     = Inr (assembleAnalysis exampleAddress False [sepoliaSnapshot])
   \<and> nativeBalances (assembleAnalysis exampleAddress False [sepoliaSnapshot]) = [(''sepolia'', 2)]
   \<and> isTestnetChain ''sepolia''"
  by (simp add: mixed_analysis isTestnetChain_sepolia assembleAnalysis_fields(2)
        nativeBalancesOf_def sepoliaSnapshot_def)

theorem testnet_isolation_witness:
  "cachesSound newAnalyzer
   \<and> cachesSound (snd (analyzeWallet exampleEnv 0 exampleAddress True newAnalyzer))
   \<and> fst (analyzeWallet exampleEnv 0 exampleAddress True newAnalyzer)
       = Inr (assembleAnalysis exampleAddress True
                (map (emptySnapshot exampleAddress) getTestnetChains))
   \<and> list_all (\<lambda>e. isTestnetChain (fst e))
       (nativeBalances (assembleAnalysis exampleAddress True
                          (map (emptySnapshot exampleAddress) getTestnetChains)))"
proof -
  let ?wa = "assembleAnalysis exampleAddress True (map (emptySnapshot exampleAddress) getTestnetChains)"
  have chains: "chainsToCheck exampleProvider True = Inr getTestnetChains"
    by (simp add: chainsToCheck_def)
  have order: "completionOrder (chainArrival exampleEnv) getTestnetChains = getTestnetChains"
    unfolding exampleEnv_def by (rule order_envOf)
  have collect: "collectChains exampleProvider exampleEnv exampleAddress True
                   (completionOrder (chainArrival exampleEnv) getTestnetChains)
                   = Some (map (emptySnapshot exampleAddress) getTestnetChains)"
    unfolding order by (rule zero_collect_testnet [OF example_zero]) simp
  have fresh: "fst (analyzeWallet exampleEnv 0 exampleAddress True newAnalyzer) = Inr ?wa"
    by (rule analyzeWallet_fresh(1) [OF example_ready(1) example_key_valid example_ready(2) chains
          newAnalyzer_miss collect])
  from testnet_isolation [OF newAnalyzer_sound, of exampleEnv 0 exampleAddress True] fresh
  have "cachesSound (snd (analyzeWallet exampleEnv 0 exampleAddress True newAnalyzer))"
    and "\<forall>(c, b)\<in>set (nativeBalances ?wa). isTestnetChain c"
    by auto
  then show ?thesis using newAnalyzer_sound fresh by (auto simp: list_all_iff)
qed

subsection \<open>Risk score of the pipeline\<close>

lemma collect_native_nonneg:
  "collectChains wp env addr tn cs = Some tbs \<Longrightarrow> d \<in> set tbs \<Longrightarrow> 0 \<le> nativeBalance d"
  using collectChains_mem [of wp env addr tn cs tbs d] snapshot_props(3) by blast

lemma total_native_nonneg:
  assumes "\<forall>d\<in>set tbs. 0 \<le> nativeBalance d"
  shows "0 \<le> foldl (\<lambda>sum b. sum + b) 0 (map snd (nativeBalancesOf tbs))"
proof -
  have "0 \<le> b" if "b \<in> set (map snd (nativeBalancesOf tbs))" for b
  proof -
    from that obtain c where "(c, b) \<in> set (nativeBalancesOf tbs)" by auto
    from nativeBalancesOf_mem [OF this] assms show ?thesis by auto
  qed
  then have "0 \<le> sum_list (map snd (nativeBalancesOf tbs))"
    by (intro sum_list_nonneg) blast
  moreover have "foldl (\<lambda>sum b. sum + b) 0 (map snd (nativeBalancesOf tbs))
                   = 0 + sum_list (map (\<lambda>b. b) (map snd (nativeBalancesOf tbs)))"
    by (rule foldl_add_sum_list)
  ultimately show ?thesis by simp
qed

text \<open>
  C9 (risk-score lower bound). For every holdings list and every non-negative total
  native balance, the score computed by \<open>assessComprehensiveRisk\<close> on the analysis of
  those holdings is at least 25, so the tolerance tier is never \<open>CONSERVATIVE\<close>: the
  small-portfolio penalty and the stablecoin-share penalty cannot both apply. The
  same holds for the risk profile of every analysis assembled from fetched snapshots,
  whose native balances are never negative.
\<close>

theorem riskScore_lower_bound:
  assumes "0 \<le> nativeBal"
  shows "25 \<le> riskScore (assessComprehensiveRisk nativeBal hs (analyzeTokenHoldings hs))
       \<and> riskTolerance (assessComprehensiveRisk nativeBal hs (analyzeTokenHoldings hs))
           \<noteq> CONSERVATIVE
       \<and> (\<forall>tbs. collectChains wp env addr tn cs = Some tbs \<longrightarrow>
             25 \<le> riskScore (riskProfile (assembleAnalysis addr tn tbs))
             \<and> riskTolerance (riskProfile (assembleAnalysis addr tn tbs)) \<noteq> CONSERVATIVE)"
proof -
  have a: "35 \<le> riskScore (assessComprehensiveRisk nativeBal hs (analyzeTokenHoldings hs))"
    by (rule riskScore_ge_35 [OF assms])
  have c: "35 \<le> riskScore p \<Longrightarrow> mapRiskScoreToTolerance (riskScore p) \<noteq> CONSERVATIVE" for p :: WalletRiskProfile
    by (simp add: mapRiskScoreToTolerance_def)
  have b: "25 \<le> riskScore (riskProfile (assembleAnalysis addr tn tbs))
           \<and> riskTolerance (riskProfile (assembleAnalysis addr tn tbs)) \<noteq> CONSERVATIVE"
    if "collectChains wp env addr tn cs = Some tbs" for tbs
  proof -
    have "0 \<le> foldl (\<lambda>sum b. sum + b) 0 (map snd (nativeBalancesOf tbs))"
      by (rule total_native_nonneg) (use collect_native_nonneg [OF that] in blast)
    then have b: "35 \<le> riskScore (riskProfile (assembleAnalysis addr tn tbs))"
      unfolding assembleAnalysis_fields(5) by (rule riskScore_ge_35)
    show ?thesis
      using b c [OF b] unfolding assembleAnalysis_fields(5) riskTolerance_assess by simp
  qed
  show ?thesis
    using a b c [OF a] unfolding riskTolerance_assess by simp
qed

theorem riskScore_lower_bound_witness:
  "(0::rat) \<le> 0
   \<and> 25 \<le> riskScore (assessComprehensiveRisk 0 [] (analyzeTokenHoldings []))
   \<and> riskTolerance (assessComprehensiveRisk 0 [] (analyzeTokenHoldings [])) \<noteq> CONSERVATIVE
   \<and> collectChains partialProvider partialEnv exampleAddress False [''mainnet'', ''base'']
       = Some [fundedSnapshot]
   \<and> 25 \<le> riskScore (riskProfile (assembleAnalysis exampleAddress False [fundedSnapshot]))
   \<and> riskTolerance (riskProfile (assembleAnalysis exampleAddress False [fundedSnapshot]))
       \<noteq> CONSERVATIVE"
proof -
  have h: "(0::rat) \<le> 0" by simp
  show ?thesis
    using h partial_collect
      riskScore_lower_bound [OF h, of "[]" partialProvider partialEnv exampleAddress False
        "[''mainnet'', ''base'']"]
    by blast
qed

subsection \<open>Chain contribution and dust\<close>

lemma fresh_snapshots_sound:
  assumes cs: "chainsToCheck wp tn = Inr cs"
      and c: "collectChains wp env addr tn (completionOrder (chainArrival env) cs) = Some tbs"
  shows "snapshotsSound tn tbs"
proof -
  let ?cs = "completionOrder (chainArrival env) cs"
  have one: "list_all (\<lambda>t. dustThreshold (tbChainName d) < balance t) (tokenHoldings d)
             \<and> (tn \<or> 0 < nativeBalance d \<or> tokenHoldings d \<noteq> [])"
    if "d \<in> set tbs" for d
  proof -
    from that obtain c where c: "getTokenBalancesForChain wp env addr c = Some (Inr d)"
      and inc: "tokenHoldings d \<noteq> [] \<or> nativeBalance d > 0 \<or> tn"
      unfolding collectChains_mem [OF c] by blast
    have "tbChainName d = c" by (rule snapshot_props(1) [OF c])
    then have "\<forall>t\<in>set (tokenHoldings d). dustThreshold (tbChainName d) < balance t"
      using holding_testnet_flag(3) [OF c] by simp
    then show ?thesis using inc by (auto simp: list_all_iff)
  qed
  have names: "mset (map tbChainName tbs) = mset getTestnetChains" if tn
  proof -
    from cs that have cs': "cs = getTestnetChains" by (simp add: chainsToCheck_def)
    have nh: "\<not> (\<exists>c\<in>set ?cs. chainHangs wp env addr c)"
      using c collectChains_hang [of wp env addr tn ?cs] by simp
    have push: "\<exists>d. pushedSnapshot wp env addr True c = Some d \<and> tbChainName d = c"
      if "c \<in> set ?cs" for c
    proof -
      from that have t: "c \<in> set getTestnetChains" by (simp add: completionOrder_set cs')
      from that nh have "getTokenBalancesForChain wp env addr c \<noteq> None"
        using chainHangs_iff [of wp env addr c] by blast
      moreover from clientFor_testnet [OF t] obtain cl where "clientFor wp env c = Inr cl" by blast
      then have "\<not> (\<exists>e. getTokenBalancesForChain wp env addr c = Some (Inl e))"
        by (simp add: getTokenBalancesForChain_client)
      ultimately obtain d where d: "getTokenBalancesForChain wp env addr c = Some (Inr d)"
        by (metis option.exhaust old.sum.exhaust)
      then show ?thesis using snapshot_props(1) [OF d] by (simp add: pushedSnapshot_def)
    qed
    have "map tbChainName (List.map_filter (pushedSnapshot wp env addr True) xs) = xs"
      if "set xs \<subseteq> set ?cs" for xs
      using that
    proof (induction xs)
      case Nil
      then show ?case by (simp add: List.map_filter_simps)
    next
      case (Cons x xs)
      then obtain d where "pushedSnapshot wp env addr True x = Some d" "tbChainName d = x"
        using push [of x] by auto
      then show ?case using Cons by (simp add: map_filter_Cons)
    qed
    then have "map tbChainName (List.map_filter (pushedSnapshot wp env addr True) ?cs) = ?cs"
      by simp
    moreover have "tbs = List.map_filter (pushedSnapshot wp env addr True) ?cs"
      using c nh that unfolding collectChains_eq by simp
    ultimately have "map tbChainName tbs = ?cs" by simp
    then show ?thesis by (simp add: completionOrder_mset cs')
  qed
  show ?thesis unfolding snapshotsSound_def list_all_iff using one names
    by (auto simp: list_all_iff)
qed

lemma getTokenBalances_dust:
  assumes "dustSound bc"
  shows "dustSound (snd (getTokenBalances wp env now addr tn bc))
       \<and> (\<forall>tbs. fst (getTokenBalances wp env now addr tn bc) = Some (Inr tbs)
              \<longrightarrow> snapshotsSound tn tbs)"
proof -
  let ?key = "balancesCacheKey addr tn"
  let ?P = "\<lambda>k v. (\<forall>a m. k = balancesCacheKey a m \<longrightarrow> snapshotsSound m v)"
  have inv: "\<forall>k e. cache bc k = Some e \<longrightarrow> ?P k (data e)"
    using assms by (auto simp: dustSound_def)
  have inv1: "\<forall>k e. cache (snd (Cache_get now ?key bc)) k = Some e \<longrightarrow> ?P k (data e)"
    by (rule Cache_get_sound(1) [OF inv])
  have s1: "dustSound (snd (Cache_get now ?key bc))"
    using inv1 by (auto simp: dustSound_def)
  from getTokenBalances_cases [of now addr tn bc wp env]
  consider (hit) cached where "fst (Cache_get now ?key bc) = Some cached"
      "getTokenBalances wp env now addr tn bc = (Some (Inr cached), snd (Cache_get now ?key bc))"
    | (fail) "\<forall>tbs. fst (getTokenBalances wp env now addr tn bc) \<noteq> Some (Inr tbs)"
      "snd (getTokenBalances wp env now addr tn bc) = snd (Cache_get now ?key bc)"
    | (fresh) cs tbs where "chainsToCheck wp tn = Inr cs"
      "collectChains wp env addr tn (completionOrder (chainArrival env) cs) = Some tbs"
      "getTokenBalances wp env now addr tn bc
         = (Some (Inr tbs), Cache_set now ?key tbs (snd (Cache_get now ?key bc)))"
    by blast
  then show ?thesis
  proof cases
    case hit
    have "?P ?key cached" by (rule Cache_get_sound(2) [OF inv hit(1)])
    then show ?thesis unfolding hit(2) using s1 by auto
  next
    case fail
    show ?thesis unfolding fail(2) using s1 fail(1) by blast
  next
    case fresh
    have f: "snapshotsSound tn tbs" by (rule fresh_snapshots_sound [OF fresh(1,2)])
    have new: "?P ?key tbs"
    proof (intro allI impI)
      fix a m assume "?key = balancesCacheKey a m"
      then have "m = tn" using balancesCacheKey_mode by blast
      then show "snapshotsSound m tbs" using f by simp
    qed
    have "\<forall>k e. cache (Cache_set now ?key tbs (snd (Cache_get now ?key bc))) k = Some e
                  \<longrightarrow> ?P k (data e)"
      by (rule Cache_set_sound [OF inv1 new])
    then show ?thesis unfolding fresh(3) using f by (auto simp: dustSound_def)
  qed
qed

text \<open>
  C6 (chain contribution and dust rule), as the code has it. From a balance cache whose
  entries are sound for the mode of their keys (as a new cache is), every call of
  \<open>getTokenBalances\<close> leaves the cache sound, and in every result it returns, computed
  or cached, every token holding of every snapshot has a balance above the dust
  threshold of its chain (0.001 on mainnet chains, 0.00001 on testnet chains). In
  mainnet mode a chain contributes a snapshot only if its native balance is positive
  or it holds a token above the dust threshold. In testnet mode every testnet chain
  contributes exactly one snapshot, whatever its balances; the snapshots come in the
  order in which the chains answered.
\<close>

theorem chain_contribution_and_dust:
  assumes "dustSound bc"
  shows "dustSound (snd (getTokenBalances wp env now addr testnetOnly bc))
       \<and> (\<forall>tbs. fst (getTokenBalances wp env now addr testnetOnly bc) = Some (Inr tbs) \<longrightarrow>
             (testnetOnly \<longrightarrow> mset (map tbChainName tbs) = mset getTestnetChains)
             \<and> (\<forall>d\<in>set tbs.
                   (\<forall>t\<in>set (tokenHoldings d). dustThreshold (tbChainName d) < balance t)
                   \<and> (\<not> testnetOnly \<longrightarrow>
                        0 < nativeBalance d
                        \<or> (\<exists>t\<in>set (tokenHoldings d).
                              dustThreshold (tbChainName d) < balance t))))"
proof -
  from getTokenBalances_dust [OF assms, of wp env now addr testnetOnly]
  have s: "dustSound (snd (getTokenBalances wp env now addr testnetOnly bc))"
    and m: "\<forall>tbs. fst (getTokenBalances wp env now addr testnetOnly bc) = Some (Inr tbs)
                \<longrightarrow> snapshotsSound testnetOnly tbs"
    by blast+
  have "(testnetOnly \<longrightarrow> mset (map tbChainName tbs) = mset getTestnetChains)
        \<and> (\<forall>d\<in>set tbs.
              (\<forall>t\<in>set (tokenHoldings d). dustThreshold (tbChainName d) < balance t)
              \<and> (\<not> testnetOnly \<longrightarrow>
                   0 < nativeBalance d
                   \<or> (\<exists>t\<in>set (tokenHoldings d). dustThreshold (tbChainName d) < balance t)))"
    if "snapshotsSound testnetOnly tbs" for tbs
  proof -
    have "\<exists>t\<in>set (tokenHoldings d). dustThreshold (tbChainName d) < balance t"
      if "d \<in> set tbs" "tokenHoldings d \<noteq> []" for d
    proof -
      from that(2) obtain t where "t \<in> set (tokenHoldings d)" by (cases "tokenHoldings d") auto
      then show ?thesis
        using \<open>snapshotsSound testnetOnly tbs\<close> that(1)
        by (auto simp: snapshotsSound_def list_all_iff)
    qed
    then show ?thesis
      using that by (auto simp: snapshotsSound_def list_all_iff)
  qed
  with s m show ?thesis by blast
qed

lemma newCache_dustSound: "dustSound (newCache t)"
  by (simp add: dustSound_def newCache_def)

lemma dust_order:
  "completionOrder (tokenArrival dustEnv ''mainnet'') (chainTokens ''mainnet'')
     = rev (chainTokens ''mainnet'')"
  by (simp add: dustEnv_def completionOrder_def chainTokens_def isTestnetChain_mainnet
        catalogTokens_def TOKEN_DATABASE_def enumerate_eq_zip upt_rec)

lemma dust_mainnet:
  "getTokenBalancesForChain dustProvider dustEnv exampleAddress ''mainnet''
     = Some (Inr dustSnapshot)"
proof -
  have cl: "clientFor dustProvider dustEnv ''mainnet'' = Inr dustClient"
    by (simp add: clientFor_def dustProvider_def)
  have nh: "\<not> list_ex (\<lambda>tc. readContract dustClient (tcAddress tc) exampleAddress = Hangs)
                 (chainTokens ''mainnet'')"
    by (simp add: dustClient_def list_ex_iff)
  have nb: "getBalance dustClient exampleAddress \<noteq> Hangs"
    "formatUnits (nativeWei dustClient exampleAddress) 18 = 0"
    by (simp_all add: dustClient_def nativeWei_def formatUnits_def)
  have hs: "List.map_filter (tokenHoldingOf dustClient exampleAddress ''mainnet'' False)
              (rev (chainTokens ''mainnet'')) = [exampleUSDC]"
    by (simp add: chainTokens_def isTestnetChain_mainnet catalogTokens_def TOKEN_DATABASE_def
          map_filter_Cons List.map_filter_simps tokenHoldingOf_def dustClient_def formatUnits_def
          exampleUSDC_def)
  show ?thesis
    unfolding getTokenBalancesForChain_client cl dust_order
    by (simp add: nh nb hs isTestnetChain_mainnet dustSnapshot_def)
qed

lemma dust_balances:
  "fst (getTokenBalances dustProvider dustEnv 0 exampleAddress False (newCache 300000))
     = Some (Inr [dustSnapshot])"
proof -
  have miss: "fst (Cache_get 0 (balancesCacheKey exampleAddress False)
                    (newCache 300000 :: TokenBalanceData list Cache)) = None"
    by (simp add: Cache_get_new)
  have cs: "chainsToCheck dustProvider False = Inr [''mainnet'', ''base'']"
    by (simp add: chainsToCheck_def dustProvider_def)
  have order: "completionOrder (chainArrival dustEnv) [''mainnet'', ''base''] = [''mainnet'', ''base'']"
    by (simp add: dustEnv_def envOf_fields completionOrder_issue_order)
  have base: "getTokenBalancesForChain dustProvider dustEnv exampleAddress ''base''
                = Some (Inr (emptySnapshot exampleAddress ''base''))"
    by (rule empty_snapshot [where cl = emptyClient])
       (simp_all add: clientFor_def dustProvider_def emptyClient_def)
  have nhang: "\<not> (\<exists>c\<in>set [''mainnet'', ''base'']. chainHangs dustProvider dustEnv exampleAddress c)"
    using dust_mainnet base
      chainHangs_iff [of dustProvider dustEnv exampleAddress "''mainnet''"]
      chainHangs_iff [of dustProvider dustEnv exampleAddress "''base''"]
    by auto
  have m: "pushedSnapshot dustProvider dustEnv exampleAddress False ''mainnet'' = Some dustSnapshot"
    by (simp add: pushedSnapshot_def dust_mainnet) (simp add: dustSnapshot_def)
  have b: "pushedSnapshot dustProvider dustEnv exampleAddress False ''base'' = None"
    by (rule pushed_empty_mainnet) (simp add: base)
  have col: "collectChains dustProvider dustEnv exampleAddress False [''mainnet'', ''base'']
          = Some [dustSnapshot]"
    unfolding collectChains_eq using nhang
    by (simp add: map_filter_Cons List.map_filter_simps m b)
  show ?thesis
    unfolding getTokenBalances_miss [OF miss] cs
    by (simp only: sum.case order col option.case fst_conv)
qed

theorem chain_contribution_and_dust_witness:
  "dustSound (newCache 300000)
   \<and> readContract dustClient ''0x6B175474E89094C44Da98b954EedeAC495271d0F'' exampleAddress
       = Answer 500000000000000
   \<and> formatUnits 500000000000000 18 \<le> dustThreshold ''mainnet''
   \<and> fst (getTokenBalances dustProvider dustEnv 0 exampleAddress False (newCache 300000))
         = Some (Inr [dustSnapshot])
   \<and> tokenHoldings dustSnapshot = [exampleUSDC]
   \<and> dustThreshold (tbChainName dustSnapshot) < balance exampleUSDC
   \<and> dustSound (snd (getTokenBalances dustProvider dustEnv 0 exampleAddress False
                       (newCache 300000)))
   \<and> fst (getTokenBalances exampleProvider exampleEnv 0 exampleAddress True (newCache 300000))
         = Some (Inr (map (emptySnapshot exampleAddress) getTestnetChains))
   \<and> mset (map tbChainName (map (emptySnapshot exampleAddress) getTestnetChains))
         = mset getTestnetChains"
proof -
  note res = dust_balances
  have tres: "fst (getTokenBalances exampleProvider exampleEnv 0 exampleAddress True
                     (newCache 300000))
                = Some (Inr (map (emptySnapshot exampleAddress) getTestnetChains))"
    by (simp add: example_testnet_balances)
  from chain_contribution_and_dust [OF newCache_dustSound,
      of exampleProvider exampleEnv 0 exampleAddress True 300000] tres
  have names: "mset (map tbChainName (map (emptySnapshot exampleAddress) getTestnetChains))
                 = mset getTestnetChains"
    by blast
  from chain_contribution_and_dust [OF newCache_dustSound,
      of dustProvider dustEnv 0 exampleAddress False 300000] res
  have s: "dustSound (snd (getTokenBalances dustProvider dustEnv 0 exampleAddress False
                       (newCache 300000)))"
    and t: "\<forall>t\<in>set (tokenHoldings dustSnapshot). dustThreshold (tbChainName dustSnapshot) < balance t"
    by auto
  have h: "tokenHoldings dustSnapshot = [exampleUSDC]" by (simp add: dustSnapshot_def)
  with t have above: "dustThreshold (tbChainName dustSnapshot) < balance exampleUSDC" by simp
  have dai: "readContract dustClient ''0x6B175474E89094C44Da98b954EedeAC495271d0F'' exampleAddress
       = Answer 500000000000000"
    "formatUnits 500000000000000 18 \<le> dustThreshold ''mainnet''"
    by (simp_all add: dustClient_def formatUnits_def dustThreshold_def isTestnetChain_mainnet)
  show ?thesis using newCache_dustSound dai res h above s tres names by blast
qed

text \<open>
  The claim as first stated fails in testnet mode: for an address that holds nothing,
  all six testnet chains contribute a snapshot with zero native balance and no token.
\<close>

theorem chain_contribution_counterexample:
  "fst (getTokenBalances exampleProvider exampleEnv 0 exampleAddress True (newCache 300000))
     = Some (Inr (map (emptySnapshot exampleAddress)
         [''sepolia'', ''holesky'', ''baseSepolia'', ''arbitrumSepolia'', ''polygonAmoy'',
          ''optimismSepolia'']))
   \<and> nativeBalance (emptySnapshot exampleAddress ''sepolia'') = 0
   \<and> tokenHoldings (emptySnapshot exampleAddress ''sepolia'') = []"
  by (simp add: example_testnet_balances getTestnetChains_eq emptySnapshot_def)


end
